theory Spec2Isabelle
  imports Complex_Main "HOL-Library.Sublist"
begin

section \<open>Cosmic Artillery: the cannon game's entity stores and tick engine\<close>

text \<open>
  A shallow embedding of the class \<open>CannonGame\<close>. JavaScript numbers that hold
  coordinates, angles, velocities, life and decay values are modelled as mathematical
  reals (rounding of IEEE doubles is not modelled); counters that the code only ever
  sets to integer literals and changes by \<open>++\<close>, \<open>--\<close> or an integer
  constant are integers. \<open>Math.sqrt\<close>, \<open>Math.cos\<close> and \<open>Math.sin\<close>
  are the real functions; \<open>Math.atan2\<close> is defined below; \<open>Math.random()\<close> reads
  the next element of a sequence of numbers carried in the state.
\<close>

subsection \<open>Entities\<close>

text \<open>\<open>{ x, y }\<close>: the pointer position and the entries of a trail.\<close>

record point =
  x :: real
  y :: real

text \<open>\<open>{ r, g, b }\<close>: a particle colour.\<close>

record rgb =
  r :: nat
  g :: nat
  b :: nat

record cannon =
  x :: real
  y :: real
  width :: real
  height :: real
  angle :: real
  barrelLength :: real

record bullet =
  x :: real
  y :: real
  vx :: real
  vy :: real
  radius :: real
  life :: real
  trail :: "point list"

record rocket =
  x :: real
  y :: real
  vx :: real
  vy :: real
  angle :: real
  radius :: real
  life :: real
  trail :: "point list"
  thrustParticles :: int

record particle =
  x :: real
  y :: real
  vx :: real
  vy :: real
  radius :: real
  life :: real
  decay :: real
  color :: rgb

text \<open>An enemy's colour is the string \<open>hsl(h, 80%, 60%)\<close>; the model keeps the hue \<open>h\<close>.\<close>

record enemy =
  x :: real
  y :: real
  vy :: real
  radius :: real
  rotation :: real
  rotationSpeed :: real
  color :: real

text \<open>The cue names passed to \<open>playSound\<close>.\<close>

datatype sound = Pew | Whoosh | Boom

subsection \<open>The session state\<close>

text \<open>
  The fields of \<open>this\<close>, followed by the environment the methods act on:
  \<open>random\<close> and \<open>drawn\<close> are the sequence of results of \<open>Math.random()\<close> and the
  number of results already consumed; \<open>statsLog\<close> records every write of
  \<open>updateStats\<close> to the three text fields (score, bullets, rockets), oldest first;
  \<open>sounds\<close> records the cues started by \<open>playSound\<close>.
\<close>

record game =
  canvas_width :: real
  canvas_height :: real
  mouse :: point
  cannon :: cannon
  bullets :: "bullet list"
  rockets :: "rocket list"
  particles :: "particle list"
  enemies :: "enemy list"
  bulletsFired :: int
  rocketsFired :: int
  score :: int
  bulletCooldown :: int
  rocketCooldown :: int
  enemySpawnRate :: real
  enemySpawnTimer :: int
  random :: "nat \<Rightarrow> real"
  drawn :: nat
  statsLog :: "(int \<times> int \<times> int) list"
  sounds :: "sound list"

subsection \<open>Host functions\<close>

text \<open>
  \<open>Math.atan2(y, x)\<close>: the angle of the point \<open>(x, y)\<close>, in \<open>[-\<pi>, \<pi>]\<close>
  (signed zeros are not modelled).
\<close>

definition atan2 :: "real \<Rightarrow> real \<Rightarrow> real" where
  "atan2 dy dx =
     (if dx > 0 then arctan (dy / dx)
      else if dx < 0 \<and> dy \<ge> 0 then arctan (dy / dx) + pi
      else if dx < 0 then arctan (dy / dx) - pi
      else if dy > 0 then pi / 2
      else if dy < 0 then - (pi / 2)
      else 0)"

text \<open>The result of the \<open>k\<close>-th next call of \<open>Math.random()\<close>, counting from 0.\<close>

definition rnd :: "nat \<Rightarrow> game \<Rightarrow> real" where
  "rnd k s = random s (drawn s + k)"

text \<open>The state after \<open>n\<close> calls of \<open>Math.random()\<close>.\<close>

definition consume :: "nat \<Rightarrow> game \<Rightarrow> game" where
  "consume n s = s\<lparr>drawn := drawn s + n\<rparr>"

definition playSound :: "sound \<Rightarrow> game \<Rightarrow> game" where
  "playSound c s = s\<lparr>sounds := sounds s @ [c]\<rparr>"

definition updateStats :: "game \<Rightarrow> game" where
  "updateStats s = s\<lparr>statsLog := statsLog s @ [(score s, bulletsFired s, rocketsFired s)]\<rparr>"

subsection \<open>Resize\<close>

text \<open>\<open>resizeCanvas\<close>, given \<open>window.innerWidth\<close> and \<open>window.innerHeight\<close>.\<close>

definition resizeCanvas :: "real \<Rightarrow> real \<Rightarrow> game \<Rightarrow> game" where
  "resizeCanvas innerWidth innerHeight s =
     (let s1 = s\<lparr>canvas_width := innerWidth\<rparr>;
          s2 = s1\<lparr>canvas_height := innerHeight\<rparr>;
          s3 = s2\<lparr>cannon := (cannon s2)\<lparr>cannon.x := canvas_width s2 / 2\<rparr>\<rparr>
      in s3\<lparr>cannon := (cannon s3)\<lparr>cannon.y := canvas_height s3 - 40\<rparr>\<rparr>)"

subsection \<open>Effects factory\<close>

text \<open>One iteration of the loop of \<open>createMuzzleFlash\<close>: four random numbers, one push.\<close>

definition muzzleParticle :: "real \<Rightarrow> real \<Rightarrow> real \<Rightarrow> rgb \<Rightarrow> game \<Rightarrow> game" where
  "muzzleParticle px py ang col s =
     (let spreadAngle = ang + (rnd 0 s - 0.5) * pi / 3;
          speed = rnd 1 s * 5 + 2;
          p = \<lparr>particle.x = px, particle.y = py,
               particle.vx = cos spreadAngle * speed,
               particle.vy = sin spreadAngle * speed,
               particle.radius = rnd 2 s * 3 + 1,
               particle.life = 1.0,
               decay = 0.02 + rnd 3 s * 0.02,
               particle.color = col\<rparr>
      in consume 4 (s\<lparr>particles := particles s @ [p]\<rparr>))"

text \<open>The \<open>for\<close> loop of \<open>createMuzzleFlash\<close>; the first argument counts the iterations left.\<close>

fun muzzleLoop :: "nat \<Rightarrow> real \<Rightarrow> real \<Rightarrow> real \<Rightarrow> rgb \<Rightarrow> game \<Rightarrow> game" where
  "muzzleLoop 0 px py ang col s = s"
| "muzzleLoop (Suc n) px py ang col s = muzzleLoop n px py ang col (muzzleParticle px py ang col s)"

definition createMuzzleFlash :: "real \<Rightarrow> real \<Rightarrow> real \<Rightarrow> bool \<Rightarrow> game \<Rightarrow> game" where
  "createMuzzleFlash px py ang isRocket s =
     (let particleCount = (if isRocket then 20 else 10);
          col = (if isRocket then \<lparr>r = 255, g = 0, b = 255\<rparr> else \<lparr>r = 0, g = 255, b = 255\<rparr>)
      in muzzleLoop particleCount px py ang col s)"

text \<open>One iteration of the loop of \<open>createExplosion\<close>.\<close>

definition explosionParticle :: "real \<Rightarrow> real \<Rightarrow> game \<Rightarrow> game" where
  "explosionParticle px py s =
     (let ang = rnd 0 s * pi * 2;
          speed = rnd 1 s * 6 + 2;
          p = \<lparr>particle.x = px, particle.y = py,
               particle.vx = cos ang * speed,
               particle.vy = sin ang * speed,
               particle.radius = rnd 2 s * 4 + 2,
               particle.life = 1.0,
               decay = 0.03 + rnd 3 s * 0.03,
               particle.color = \<lparr>r = 255, g = 200, b = 50\<rparr>\<rparr>
      in consume 4 (s\<lparr>particles := particles s @ [p]\<rparr>))"

fun explosionLoop :: "nat \<Rightarrow> real \<Rightarrow> real \<Rightarrow> game \<Rightarrow> game" where
  "explosionLoop 0 px py s = s"
| "explosionLoop (Suc n) px py s = explosionLoop n px py (explosionParticle px py s)"

definition createExplosion :: "real \<Rightarrow> real \<Rightarrow> game \<Rightarrow> game" where
  "createExplosion px py s = explosionLoop 15 px py (playSound Boom s)"

subsection \<open>Fire commands\<close>

definition fireBullet :: "game \<Rightarrow> game" where
  "fireBullet s =
     (if bulletCooldown s > 0 then s
      else
        let s1 = playSound Pew s;
            dx = point.x (mouse s1) - cannon.x (cannon s1);
            dy = point.y (mouse s1) - cannon.y (cannon s1);
            ang = atan2 dy dx;
            speed = 15;
            blt = \<lparr>bullet.x = cannon.x (cannon s1) + cos ang * barrelLength (cannon s1),
                   bullet.y = cannon.y (cannon s1) + sin ang * barrelLength (cannon s1),
                   bullet.vx = cos ang * speed,
                   bullet.vy = sin ang * speed,
                   bullet.radius = 4,
                   bullet.life = 1.0,
                   bullet.trail = []\<rparr>;
            s2 = s1\<lparr>bullets := bullets s1 @ [blt]\<rparr>;
            s3 = s2\<lparr>bulletsFired := bulletsFired s2 + 1\<rparr>;
            s4 = s3\<lparr>bulletCooldown := 8\<rparr>;
            s5 = createMuzzleFlash (bullet.x blt) (bullet.y blt) ang False s4
        in updateStats s5)"

definition fireRocket :: "game \<Rightarrow> game" where
  "fireRocket s =
     (if rocketCooldown s > 0 then s
      else
        let s1 = playSound Whoosh s;
            dx = point.x (mouse s1) - cannon.x (cannon s1);
            dy = point.y (mouse s1) - cannon.y (cannon s1);
            ang = atan2 dy dx;
            speed = 8;
            rkt = \<lparr>rocket.x = cannon.x (cannon s1) + cos ang * barrelLength (cannon s1),
                   rocket.y = cannon.y (cannon s1) + sin ang * barrelLength (cannon s1),
                   rocket.vx = cos ang * speed,
                   rocket.vy = sin ang * speed,
                   rocket.angle = ang,
                   rocket.radius = 6,
                   rocket.life = 1.0,
                   rocket.trail = [],
                   thrustParticles = 0\<rparr>;
            s2 = s1\<lparr>rockets := rockets s1 @ [rkt]\<rparr>;
            s3 = s2\<lparr>rocketsFired := rocketsFired s2 + 1\<rparr>;
            s4 = s3\<lparr>rocketCooldown := 30\<rparr>;
            s5 = createMuzzleFlash (rocket.x rkt) (rocket.y rkt) ang True s4
        in updateStats s5)"

subsection \<open>Enemies\<close>

definition spawnEnemy :: "game \<Rightarrow> game" where
  "spawnEnemy s =
     (let px = rnd 0 s * canvas_width s;
          size = rnd 1 s * 30 + 20;
          speed = rnd 2 s * 2 + 1;
          e = \<lparr>enemy.x = px, enemy.y = - 50, enemy.vy = speed, enemy.radius = size,
               rotation = 0, rotationSpeed = (rnd 3 s - 0.5) * 0.1,
               enemy.color = rnd 4 s * 60 + 0\<rparr>
      in consume 5 (s\<lparr>enemies := enemies s @ [e]\<rparr>))"

text \<open>The mutation done by the callback of \<open>this.enemies.filter\<close>.\<close>

definition advanceEnemy :: "enemy \<Rightarrow> enemy" where
  "advanceEnemy e =
     e\<lparr>enemy.y := enemy.y e + enemy.vy e, rotation := rotation e + rotationSpeed e\<rparr>"

subsection \<open>Collision scan\<close>

text \<open>
  The test of one enemy against a projectile at \<open>(px, py)\<close> with radius \<open>pr\<close>, as in
  both collision loops.
\<close>

definition hits :: "real \<Rightarrow> real \<Rightarrow> real \<Rightarrow> enemy \<Rightarrow> bool" where
  "hits px py pr e =
     (let dx = px - enemy.x e;
          dy = py - enemy.y e;
          dist = sqrt (dx * dx + dy * dy)
      in dist < enemy.radius e + pr)"

text \<open>
  \<open>for (let i = this.enemies.length - 1; i >= 0; i--)\<close> with its \<open>break\<close>: the
  last argument is \<open>i + 1\<close>; the result is the index at which the loop broke.
\<close>

fun hitScan :: "real \<Rightarrow> real \<Rightarrow> real \<Rightarrow> enemy list \<Rightarrow> nat \<Rightarrow> nat option" where
  "hitScan px py pr es 0 = None"
| "hitScan px py pr es (Suc i) =
     (if hits px py pr (es ! i) then Some i else hitScan px py pr es i)"

text \<open>
  The body of the \<open>if\<close> on a hit, up to the \<open>break\<close>; \<open>points\<close> is 10 in the bullet
  loop and 25 in the rocket loop.
\<close>

definition onHit :: "int \<Rightarrow> nat \<Rightarrow> game \<Rightarrow> game" where
  "onHit points i s =
     (let e = enemies s ! i;
          s1 = createExplosion (enemy.x e) (enemy.y e) s;
          s2 = s1\<lparr>enemies := take i (enemies s1) @ drop (Suc i) (enemies s1)\<rparr>;
          s3 = s2\<lparr>score := score s2 + points\<rparr>
      in updateStats s3)"

text \<open>The whole collision loop: the flag \<open>crashed\<close> and the state after the loop.\<close>

definition collide :: "real \<Rightarrow> real \<Rightarrow> real \<Rightarrow> int \<Rightarrow> game \<Rightarrow> bool \<times> game" where
  "collide px py pr points s =
     (case hitScan px py pr (enemies s) (length (enemies s)) of
        None \<Rightarrow> (False, s)
      | Some i \<Rightarrow> (True, onHit points i s))"

subsection \<open>Bullets\<close>

text \<open>The mutation of one bullet: trail, position, life.\<close>

definition advanceBullet :: "bullet \<Rightarrow> bullet" where
  "advanceBullet b0 =
     (let t = bullet.trail b0 @ [\<lparr>point.x = bullet.x b0, point.y = bullet.y b0\<rparr>];
          t' = (if length t > 10 then tl t else t)
      in b0\<lparr>bullet.trail := t',
             bullet.x := bullet.x b0 + bullet.vx b0,
             bullet.y := bullet.y b0 + bullet.vy b0,
             bullet.life := bullet.life b0 - 0.005\<rparr>)"

text \<open>
  The callback of \<open>this.bullets.filter\<close> on one bullet: what it returns, the bullet as
  mutated, and the state it leaves.
\<close>

definition bulletStep :: "bullet \<Rightarrow> game \<Rightarrow> bool \<times> bullet \<times> game" where
  "bulletStep b0 s =
     (let b1 = advanceBullet b0 in
      case collide (bullet.x b1) (bullet.y b1) (bullet.radius b1) 10 s of
        (crashed, s1) \<Rightarrow>
          if crashed then (False, b1, s1)
          else (bullet.life b1 > 0 \<and>
                bullet.x b1 > - 50 \<and> bullet.x b1 < canvas_width s1 + 50 \<and>
                bullet.y b1 > - 50 \<and> bullet.y b1 < canvas_height s1 + 50, b1, s1))"

fun filterBullets :: "bullet list \<Rightarrow> game \<Rightarrow> bullet list \<times> game" where
  "filterBullets [] s = ([], s)"
| "filterBullets (b0 # bs) s =
     (case bulletStep b0 s of
        (keep, b1, s1) \<Rightarrow>
          (case filterBullets bs s1 of
             (kept, s2) \<Rightarrow> (if keep then b1 # kept else kept, s2)))"

subsection \<open>Rockets\<close>

text \<open>The two normalisation loops of the homing step.\<close>

function wrapDown :: "real \<Rightarrow> real" where
  "wrapDown d = (if d > pi then wrapDown (d - pi * 2) else d)"
  by pat_completeness auto
termination
proof (relation "measure (\<lambda>d. nat \<lceil>(d - pi) / (pi * 2)\<rceil>)")
  show "wf (measure (\<lambda>d. nat \<lceil>(d - pi) / (pi * 2)\<rceil>))" by simp
next
  fix d :: real
  assume gt: "pi < d"
  have "(d - pi * 2 - pi) / (pi * 2) = (d - pi) / (pi * 2) - 1"
    by (simp add: field_simps)
  then have c: "\<lceil>(d - pi * 2 - pi) / (pi * 2)\<rceil> = \<lceil>(d - pi) / (pi * 2)\<rceil> - 1"
    by simp
  have "0 < (d - pi) / (pi * 2)" using gt by simp
  then have "0 < \<lceil>(d - pi) / (pi * 2)\<rceil>" by simp
  with c show "(d - pi * 2, d) \<in> measure (\<lambda>d. nat \<lceil>(d - pi) / (pi * 2)\<rceil>)"
    by simp
qed

function wrapUp :: "real \<Rightarrow> real" where
  "wrapUp d = (if d < - pi then wrapUp (d + pi * 2) else d)"
  by pat_completeness auto
termination
proof (relation "measure (\<lambda>d. nat \<lceil>(- pi - d) / (pi * 2)\<rceil>)")
  show "wf (measure (\<lambda>d. nat \<lceil>(- pi - d) / (pi * 2)\<rceil>))" by simp
next
  fix d :: real
  assume lt: "d < - pi"
  have "(- pi - (d + pi * 2)) / (pi * 2) = (- pi - d) / (pi * 2) - 1"
    by (simp add: field_simps)
  then have c: "\<lceil>(- pi - (d + pi * 2)) / (pi * 2)\<rceil> = \<lceil>(- pi - d) / (pi * 2)\<rceil> - 1"
    by simp
  have "0 < (- pi - d) / (pi * 2)" using lt by simp
  then have "0 < \<lceil>(- pi - d) / (pi * 2)\<rceil>" by simp
  with c show "(d + pi * 2, d) \<in> measure (\<lambda>d. nat \<lceil>(- pi - d) / (pi * 2)\<rceil>)"
    by simp
qed

definition normalizeAngle :: "real \<Rightarrow> real" where
  "normalizeAngle angleDiff = wrapUp (wrapDown angleDiff)"

text \<open>The number of times the body of each of the two loops runs.\<close>

function wrapDownIters :: "real \<Rightarrow> nat" where
  "wrapDownIters d = (if d > pi then Suc (wrapDownIters (d - pi * 2)) else 0)"
  by pat_completeness auto
termination
proof (relation "measure (\<lambda>d. nat \<lceil>(d - pi) / (pi * 2)\<rceil>)")
  show "wf (measure (\<lambda>d. nat \<lceil>(d - pi) / (pi * 2)\<rceil>))" by simp
next
  fix d :: real
  assume gt: "pi < d"
  have "(d - pi * 2 - pi) / (pi * 2) = (d - pi) / (pi * 2) - 1"
    by (simp add: field_simps)
  then have c: "\<lceil>(d - pi * 2 - pi) / (pi * 2)\<rceil> = \<lceil>(d - pi) / (pi * 2)\<rceil> - 1"
    by simp
  have "0 < (d - pi) / (pi * 2)" using gt by simp
  then have "0 < \<lceil>(d - pi) / (pi * 2)\<rceil>" by simp
  with c show "(d - pi * 2, d) \<in> measure (\<lambda>d. nat \<lceil>(d - pi) / (pi * 2)\<rceil>)"
    by simp
qed

function wrapUpIters :: "real \<Rightarrow> nat" where
  "wrapUpIters d = (if d < - pi then Suc (wrapUpIters (d + pi * 2)) else 0)"
  by pat_completeness auto
termination
proof (relation "measure (\<lambda>d. nat \<lceil>(- pi - d) / (pi * 2)\<rceil>)")
  show "wf (measure (\<lambda>d. nat \<lceil>(- pi - d) / (pi * 2)\<rceil>))" by simp
next
  fix d :: real
  assume lt: "d < - pi"
  have "(- pi - (d + pi * 2)) / (pi * 2) = (- pi - d) / (pi * 2) - 1"
    by (simp add: field_simps)
  then have c: "\<lceil>(- pi - (d + pi * 2)) / (pi * 2)\<rceil> = \<lceil>(- pi - d) / (pi * 2)\<rceil> - 1"
    by simp
  have "0 < (- pi - d) / (pi * 2)" using lt by simp
  then have "0 < \<lceil>(- pi - d) / (pi * 2)\<rceil>" by simp
  with c show "(d + pi * 2, d) \<in> measure (\<lambda>d. nat \<lceil>(- pi - d) / (pi * 2)\<rceil>)"
    by simp
qed

text \<open>
  The mutation of one rocket, given the pointer: trail, heading, velocity, position,
  thrust counter, life.
\<close>

definition advanceRocket :: "point \<Rightarrow> rocket \<Rightarrow> rocket" where
  "advanceRocket m r0 =
     (let t = rocket.trail r0 @ [\<lparr>point.x = rocket.x r0, point.y = rocket.y r0\<rparr>];
          t' = (if length t > 15 then tl t else t);
          dx = point.x m - rocket.x r0;
          dy = point.y m - rocket.y r0;
          targetAngle = atan2 dy dx;
          angleDiff = normalizeAngle (targetAngle - rocket.angle r0);
          a' = rocket.angle r0 + angleDiff * 0.05;
          speed = sqrt (rocket.vx r0 * rocket.vx r0 + rocket.vy r0 * rocket.vy r0);
          vx' = cos a' * speed;
          vy' = sin a' * speed
      in r0\<lparr>rocket.trail := t',
             rocket.angle := a',
             rocket.vx := vx',
             rocket.vy := vy',
             rocket.x := rocket.x r0 + vx',
             rocket.y := rocket.y r0 + vy',
             thrustParticles := thrustParticles r0 + 1,
             rocket.life := rocket.life r0 - 0.003\<rparr>)"

text \<open>The push of one thrust particle behind the rocket \<open>r1\<close>.\<close>

definition thrustParticle :: "rocket \<Rightarrow> game \<Rightarrow> game" where
  "thrustParticle r1 s =
     (let exhaustAngle = rocket.angle r1 + pi + (rnd 0 s - 0.5) * 0.3;
          p = \<lparr>particle.x = rocket.x r1 - cos (rocket.angle r1) * 10,
               particle.y = rocket.y r1 - sin (rocket.angle r1) * 10,
               particle.vx = cos exhaustAngle * 3,
               particle.vy = sin exhaustAngle * 3,
               particle.radius = rnd 1 s * 2 + 1,
               particle.life = 1.0,
               decay = 0.05,
               particle.color = \<lparr>r = 255, g = 0, b = 255\<rparr>\<rparr>
      in consume 2 (s\<lparr>particles := particles s @ [p]\<rparr>))"

definition rocketStep :: "rocket \<Rightarrow> game \<Rightarrow> bool \<times> rocket \<times> game" where
  "rocketStep r0 s =
     (let r1 = advanceRocket (mouse s) r0;
          s0 = (if thrustParticles r1 mod 2 = 0 then thrustParticle r1 s else s) in
      case collide (rocket.x r1) (rocket.y r1) (rocket.radius r1) 25 s0 of
        (crashed, s1) \<Rightarrow>
          if crashed then (False, r1, s1)
          else (rocket.life r1 > 0 \<and>
                rocket.x r1 > - 100 \<and> rocket.x r1 < canvas_width s1 + 100 \<and>
                rocket.y r1 > - 100 \<and> rocket.y r1 < canvas_height s1 + 100, r1, s1))"

fun filterRockets :: "rocket list \<Rightarrow> game \<Rightarrow> rocket list \<times> game" where
  "filterRockets [] s = ([], s)"
| "filterRockets (r0 # rs) s =
     (case rocketStep r0 s of
        (keep, r1, s1) \<Rightarrow>
          (case filterRockets rs s1 of
             (kept, s2) \<Rightarrow> (if keep then r1 # kept else kept, s2)))"

subsection \<open>Particles\<close>

definition advanceParticle :: "particle \<Rightarrow> particle" where
  "advanceParticle p =
     p\<lparr>particle.x := particle.x p + particle.vx p,
       particle.y := particle.y p + particle.vy p,
       particle.vx := particle.vx p * 0.98,
       particle.vy := particle.vy p * 0.98,
       particle.life := particle.life p - decay p\<rparr>"

subsection \<open>The tick\<close>

text \<open>\<open>update\<close>, in the order of its blocks.\<close>

definition spawnPhase :: "game \<Rightarrow> game" where
  "spawnPhase s =
     (let s1 = s\<lparr>enemySpawnTimer := enemySpawnTimer s + 1\<rparr> in
      if real_of_int (enemySpawnTimer s1) > enemySpawnRate s1 then
        (let s2 = spawnEnemy s1;
             s3 = s2\<lparr>enemySpawnTimer := 0\<rparr>
         in if enemySpawnRate s3 > 20 then s3\<lparr>enemySpawnRate := enemySpawnRate s3 - 0.5\<rparr>
            else s3)
      else s1)"

definition cooldownPhase :: "game \<Rightarrow> game" where
  "cooldownPhase s =
     (let s1 = (if bulletCooldown s > 0 then s\<lparr>bulletCooldown := bulletCooldown s - 1\<rparr> else s)
      in if rocketCooldown s1 > 0 then s1\<lparr>rocketCooldown := rocketCooldown s1 - 1\<rparr> else s1)"

definition aimPhase :: "game \<Rightarrow> game" where
  "aimPhase s =
     (let dx = point.x (mouse s) - cannon.x (cannon s);
          dy = point.y (mouse s) - cannon.y (cannon s)
      in s\<lparr>cannon := (cannon s)\<lparr>cannon.angle := atan2 dy dx\<rparr>\<rparr>)"

definition enemiesPhase :: "game \<Rightarrow> game" where
  "enemiesPhase s =
     s\<lparr>enemies := filter (\<lambda>e. enemy.y e < canvas_height s + 100) (map advanceEnemy (enemies s))\<rparr>"

definition bulletsPhase :: "game \<Rightarrow> game" where
  "bulletsPhase s = (case filterBullets (bullets s) s of (kept, s1) \<Rightarrow> s1\<lparr>bullets := kept\<rparr>)"

definition rocketsPhase :: "game \<Rightarrow> game" where
  "rocketsPhase s = (case filterRockets (rockets s) s of (kept, s1) \<Rightarrow> s1\<lparr>rockets := kept\<rparr>)"

text \<open>The callback of \<open>this.particles.filter\<close> over a whole store: mutate, then keep the live ones.\<close>

definition ageParticles :: "particle list \<Rightarrow> particle list" where
  "ageParticles ps = filter (\<lambda>p. particle.life p > 0) (map advanceParticle ps)"

definition particlesPhase :: "game \<Rightarrow> game" where
  "particlesPhase s = s\<lparr>particles := ageParticles (particles s)\<rparr>"

definition update :: "game \<Rightarrow> game" where
  "update s =
     particlesPhase (rocketsPhase (bulletsPhase (enemiesPhase (aimPhase (cooldownPhase (spawnPhase s))))))"

subsection \<open>The rendering loop\<close>

text \<open>
  \<open>render\<close> draws the stores and writes no field of the game; its loop over the six
  segments of each enemy calls \<open>Math.random()\<close> once per segment, so it moves the
  position in the random sequence. \<open>animate\<close> is one frame: \<open>update\<close>, then
  \<open>render\<close> (the next frame is scheduled by the host).
\<close>

definition render :: "game \<Rightarrow> game" where
  "render s = consume (6 * length (enemies s)) s"

definition animate :: "game \<Rightarrow> game" where
  "animate s = render (update s)"

subsection \<open>Construction and input events\<close>

text \<open>
  The fields set by the constructor, given the window's size and the random sequence.
  The canvas size is set by \<open>resizeCanvas\<close> before anything reads it.
\<close>

definition constructorFields :: "real \<Rightarrow> real \<Rightarrow> (nat \<Rightarrow> real) \<Rightarrow> game" where
  "constructorFields innerWidth innerHeight rs =
     \<lparr>canvas_width = 0, canvas_height = 0,
      mouse = \<lparr>point.x = innerWidth / 2, point.y = innerHeight / 2\<rparr>,
      cannon = \<lparr>cannon.x = 0, cannon.y = 0, width = 60, height = 80, cannon.angle = 0,
                barrelLength = 50\<rparr>,
      bullets = [], rockets = [], particles = [], enemies = [],
      bulletsFired = 0, rocketsFired = 0, score = 0,
      bulletCooldown = 0, rocketCooldown = 0,
      enemySpawnRate = 60, enemySpawnTimer = 0,
      random = rs, drawn = 0, statsLog = [], sounds = []\<rparr>"

text \<open>
  \<open>new CannonGame()\<close>: the constructor calls \<open>init\<close>, which sizes the canvas and calls
  \<open>animate\<close>, whose first frame runs at once.
\<close>

definition CannonGame :: "real \<Rightarrow> real \<Rightarrow> (nat \<Rightarrow> real) \<Rightarrow> game" where
  "CannonGame innerWidth innerHeight rs =
     animate (resizeCanvas innerWidth innerHeight (constructorFields innerWidth innerHeight rs))"

text \<open>
  What the listeners and the rendering loop do to the state: a frame, a press of a mouse
  button, a move of the pointer, a resize of the window. Of the click handler only the
  dispatch on the button is modelled (resuming the audio context and \<open>preventDefault\<close>
  write no field of the game).
\<close>

datatype event = Tick | MouseDown int | MouseMove real real | Resize real real

definition handleClick :: "int \<Rightarrow> game \<Rightarrow> game" where
  "handleClick button s =
     (if button = 0 then fireBullet s else if button = 2 then fireRocket s else s)"

fun step :: "event \<Rightarrow> game \<Rightarrow> game" where
  "step Tick s = animate s"
| "step (MouseDown button) s = handleClick button s"
| "step (MouseMove cx cy) s = s\<lparr>mouse := \<lparr>point.x = cx, point.y = cy\<rparr>\<rparr>"
| "step (Resize w h) s = resizeCanvas w h s"

fun run :: "event list \<Rightarrow> game \<Rightarrow> game" where
  "run [] s = s"
| "run (e # es) s = run es (step e s)"

text \<open>The number of frames among a list of events.\<close>

definition ticks :: "event list \<Rightarrow> nat" where
  "ticks es = length (filter (\<lambda>e. e = Tick) es)"

text \<open>
  The states a session can be in: those reached from a new game by events, when every
  result of \<open>Math.random()\<close> lies in \<open>[0, 1)\<close>.
\<close>

inductive reachable :: "game \<Rightarrow> bool" where
  init: "(\<And>i. 0 \<le> rs i \<and> rs i < 1) \<Longrightarrow> reachable (CannonGame w h rs)"
| after: "reachable s \<Longrightarrow> reachable (step e s)"

subsection \<open>Relations between states used in the proofs\<close>

text \<open>
  \<open>sameCore s' s\<close>: the two states agree on every field that no effect and no
  collision writes. \<open>sameBoard s' s\<close>: they agree on the enemies, the score and the
  stats display as well, so that only particles, sounds and the random position differ.
\<close>

definition sameCore :: "game \<Rightarrow> game \<Rightarrow> bool" where
  "sameCore s' s \<longleftrightarrow>
     canvas_width s' = canvas_width s \<and> canvas_height s' = canvas_height s \<and>
     mouse s' = mouse s \<and> cannon s' = cannon s \<and>
     bullets s' = bullets s \<and> rockets s' = rockets s \<and>
     bulletsFired s' = bulletsFired s \<and> rocketsFired s' = rocketsFired s \<and>
     bulletCooldown s' = bulletCooldown s \<and> rocketCooldown s' = rocketCooldown s \<and>
     enemySpawnRate s' = enemySpawnRate s \<and> enemySpawnTimer s' = enemySpawnTimer s \<and>
     random s' = random s"

definition sameBoard :: "game \<Rightarrow> game \<Rightarrow> bool" where
  "sameBoard s' s \<longleftrightarrow>
     sameCore s' s \<and> enemies s' = enemies s \<and> score s' = score s \<and> statsLog s' = statsLog s"

text \<open>The state of a tick before its bullet block, its rocket block and its particle block.\<close>

definition beforeBullets :: "game \<Rightarrow> game" where
  "beforeBullets s = enemiesPhase (aimPhase (cooldownPhase (spawnPhase s)))"

definition beforeRockets :: "game \<Rightarrow> game" where
  "beforeRockets s = bulletsPhase (beforeBullets s)"

definition beforeParticles :: "game \<Rightarrow> game" where
  "beforeParticles s = rocketsPhase (beforeRockets s)"

text \<open>The state in which a rocket's collision loop starts: after its thrust particle, if any.\<close>

definition afterThrust :: "rocket \<Rightarrow> game \<Rightarrow> game" where
  "afterThrust r0 s =
     (if thrustParticles (advanceRocket (mouse s) r0) mod 2 = 0
      then thrustParticle (advanceRocket (mouse s) r0) s else s)"

text \<open>
  The enemies removed from the store by the bullet block and by the rocket block of a
  tick (the only removals there are the \<open>splice\<close> of a hit).
\<close>

definition bulletKills :: "game \<Rightarrow> nat" where
  "bulletKills s = length (enemies (beforeBullets s)) - length (enemies (beforeRockets s))"

definition rocketKills :: "game \<Rightarrow> nat" where
  "rocketKills s = length (enemies (beforeRockets s)) - length (enemies (beforeParticles s))"

text \<open>The condition under which the spawn block of the next tick spawns an enemy.\<close>

definition spawnsEnemy :: "game \<Rightarrow> bool" where
  "spawnsEnemy s \<longleftrightarrow> real_of_int (enemySpawnTimer s + 1) > enemySpawnRate s"

text \<open>
  The invariant of a stored rocket: its life is 1 less 0.003 for each tick it has been
  through, it is alive, and its heading has moved by at most \<open>0.05\<pi>\<close> per tick from a
  launch heading in \<open>[-\<pi>, \<pi>]\<close>.
\<close>

definition rocketOk :: "rocket \<Rightarrow> bool" where
  "rocketOk r0 \<longleftrightarrow>
     0 \<le> thrustParticles r0 \<and>
     rocket.life r0 = 1 - 0.003 * real_of_int (thrustParticles r0) \<and>
     0 < rocket.life r0 \<and>
     \<bar>rocket.angle r0\<bar> \<le> pi + 0.05 * pi * real_of_int (thrustParticles r0)"

subsection \<open>Predicates on the particle store used in the proofs\<close>

text \<open>The state with the particles \<open>ps\<close> put before its own.\<close>

definition prepend :: "particle list \<Rightarrow> game \<Rightarrow> game" where
  "prepend ps s = s\<lparr>particles := ps @ particles s\<rparr>"

text \<open>A particle that fades at least as fast as the slowest one created, from at most full life.\<close>

definition okParticle :: "particle \<Rightarrow> bool" where
  "okParticle p \<longleftrightarrow> 0.02 \<le> decay p \<and> particle.life p \<le> 1"

text \<open>Every result of \<open>Math.random()\<close> lies in \<open>[0, 1)\<close>.\<close>

definition randomOk :: "game \<Rightarrow> bool" where
  "randomOk s \<longleftrightarrow> (\<forall>i. 0 \<le> random s i \<and> random s i < 1)"

text \<open>The state \<open>s'\<close> draws from the same random sequence as \<open>s\<close> and holds the particles of
  \<open>s\<close> followed by new ones, each with life 1 and a decay in \<open>[lo, hi)\<close>.\<close>

definition grows :: "real \<Rightarrow> real \<Rightarrow> game \<Rightarrow> game \<Rightarrow> bool" where
  "grows lo hi s' s \<longleftrightarrow>
     random s' = random s \<and>
     (\<exists>new. particles s' = particles s @ new \<and>
        (\<forall>p \<in> set new. particle.life p = 1 \<and> lo \<le> decay p \<and> decay p < hi))"

text \<open>The particles of \<open>s'\<close> that stand after the first \<open>length (particles s)\<close> ones.\<close>

definition created :: "game \<Rightarrow> game \<Rightarrow> particle list" where
  "created s' s = drop (length (particles s)) (particles s')"

text \<open>The particles of \<open>s'\<close> are those of \<open>s\<close> followed by the created ones, each created with
  life 1 and a decay in \<open>[lo, hi)\<close>.\<close>

definition fresh :: "real \<Rightarrow> real \<Rightarrow> game \<Rightarrow> game \<Rightarrow> bool" where
  "fresh lo hi s' s \<longleftrightarrow>
     particles s' = particles s @ created s' s \<and>
     (\<forall>p \<in> set (created s' s). particle.life p = 1 \<and> lo \<le> decay p \<and> decay p < hi)"

text \<open>The invariant of the particle store.\<close>

definition particlesOk :: "game \<Rightarrow> bool" where
  "particlesOk s \<longleftrightarrow> randomOk s \<and> (\<forall>p \<in> set (particles s). okParticle p)"

subsection \<open>Notions of the specification\<close>

text \<open>The distance between two centres, as the specification words the overlap test.\<close>

definition centerDistance :: "real \<Rightarrow> real \<Rightarrow> real \<Rightarrow> real \<Rightarrow> real" where
  "centerDistance x1 y1 x2 y2 = sqrt ((x1 - x2)\<^sup>2 + (y1 - y2)\<^sup>2)"


section \<open>What each operation leaves unchanged\<close>

lemma sameCore_refl: "sameCore s s" by (simp add: sameCore_def)
lemma sameCore_trans: "sameCore s2 s1 \<Longrightarrow> sameCore s1 s \<Longrightarrow> sameCore s2 s" by (simp add: sameCore_def)
lemma sameBoard_refl: "sameBoard s s" by (simp add: sameBoard_def sameCore_def)
lemma sameBoard_trans: "sameBoard s2 s1 \<Longrightarrow> sameBoard s1 s \<Longrightarrow> sameBoard s2 s" by (simp add: sameBoard_def sameCore_def)

lemma muzzleParticle_board: "sameBoard (muzzleParticle px py ang col s) s"
  by (simp add: muzzleParticle_def consume_def sameBoard_def sameCore_def Let_def)

lemma muzzleLoop_board: "sameBoard (muzzleLoop n px py ang col s) s"
proof (induction n arbitrary: s)
  case 0 show ?case by (simp add: sameBoard_refl)
next
  case (Suc n)
  show ?case using Suc[of "muzzleParticle px py ang col s"] muzzleParticle_board[of px py ang col s]
    by (simp add: sameBoard_trans)
qed

lemma createMuzzleFlash_board: "sameBoard (createMuzzleFlash px py ang isR s) s"
  by (simp add: createMuzzleFlash_def Let_def muzzleLoop_board)

lemma explosionParticle_board: "sameBoard (explosionParticle px py s) s"
  by (simp add: explosionParticle_def consume_def sameBoard_def sameCore_def Let_def)

lemma explosionLoop_board: "sameBoard (explosionLoop n px py s) s"
proof (induction n arbitrary: s)
  case 0 show ?case by (simp add: sameBoard_refl)
next
  case (Suc n)
  show ?case using Suc[of "explosionParticle px py s"] explosionParticle_board[of px py s]
    by (simp add: sameBoard_trans)
qed

lemma playSound_board: "sameBoard (playSound c s) s"
  by (simp add: playSound_def sameBoard_def sameCore_def)

lemma createExplosion_board: "sameBoard (createExplosion px py s) s"
  unfolding createExplosion_def
  by (rule sameBoard_trans[OF explosionLoop_board playSound_board])

lemma thrustParticle_board: "sameBoard (thrustParticle r1 s) s"
  by (simp add: thrustParticle_def consume_def sameBoard_def sameCore_def Let_def)

lemma onHit_core: "sameCore (onHit pts i s) s"
  using createExplosion_board[of "enemy.x (enemies s ! i)" "enemy.y (enemies s ! i)" s]
  by (simp add: onHit_def Let_def updateStats_def sameBoard_def sameCore_def)

lemma collide_core: "sameCore (snd (collide px py pr pts s)) s"
  by (simp add: collide_def onHit_core sameCore_refl split: option.split)

lemma bulletStep_core: "sameCore (snd (snd (bulletStep b0 s))) s"
  using collide_core[of "bullet.x (advanceBullet b0)" "bullet.y (advanceBullet b0)" "bullet.radius (advanceBullet b0)" 10 s]
  by (cases "collide (bullet.x (advanceBullet b0)) (bullet.y (advanceBullet b0)) (bullet.radius (advanceBullet b0)) 10 s")
     (simp add: bulletStep_def Let_def)

lemma filterBullets_core: "sameCore (snd (filterBullets bs s)) s"
proof (induction bs arbitrary: s)
  case Nil show ?case by (simp add: sameCore_refl)
next
  case (Cons b0 bs)
  obtain keep p1 s1 where st: "bulletStep b0 s = (keep, p1, s1)"
    by (cases "bulletStep b0 s") auto
  obtain kept s2 where fl: "filterBullets bs s1 = (kept, s2)"
    by (cases "filterBullets bs s1") auto
  have "sameCore s1 s" using bulletStep_core[of b0 s] st by simp
  moreover have "sameCore s2 s1" using Cons[of s1] fl by simp
  ultimately have "sameCore s2 s" by (rule sameCore_trans[rotated])
  then show ?case using st fl by simp
qed

lemma rocketStep_core: "sameCore (snd (snd (rocketStep r0 s))) s"
proof -
  let ?r1 = "advanceRocket (mouse s) r0"
  let ?s0 = "if thrustParticles ?r1 mod 2 = 0 then thrustParticle ?r1 s else s"
  have a: "sameCore ?s0 s" using thrustParticle_board[of ?r1 s]
    by (simp add: sameBoard_def sameCore_refl)
  have b: "sameCore (snd (collide (rocket.x ?r1) (rocket.y ?r1) (rocket.radius ?r1) 25 ?s0)) ?s0"
    by (rule collide_core)
  have "sameCore (snd (collide (rocket.x ?r1) (rocket.y ?r1) (rocket.radius ?r1) 25 ?s0)) s"
    by (rule sameCore_trans[OF b a])
  then show ?thesis
    by (cases "collide (rocket.x ?r1) (rocket.y ?r1) (rocket.radius ?r1) 25 ?s0")
       (simp add: rocketStep_def Let_def)
qed

lemma filterRockets_core: "sameCore (snd (filterRockets rs s)) s"
proof (induction rs arbitrary: s)
  case Nil show ?case by (simp add: sameCore_refl)
next
  case (Cons r0 rs)
  obtain keep p1 s1 where st: "rocketStep r0 s = (keep, p1, s1)"
    by (cases "rocketStep r0 s") auto
  obtain kept s2 where fl: "filterRockets rs s1 = (kept, s2)"
    by (cases "filterRockets rs s1") auto
  have "sameCore s1 s" using rocketStep_core[of r0 s] st by simp
  moreover have "sameCore s2 s1" using Cons[of s1] fl by simp
  ultimately have "sameCore s2 s" by (rule sameCore_trans[rotated])
  then show ?case using st fl by simp
qed

section \<open>The blocks of a tick\<close>

lemma subseq_mem: "subseq xs ys \<Longrightarrow> a \<in> set xs \<Longrightarrow> a \<in> set ys"
  by (erule list_emb_set) auto

lemma spawnEnemy_keeps:
  "mouse (spawnEnemy s) = mouse s \<and> cannon (spawnEnemy s) = cannon s \<and>
   bullets (spawnEnemy s) = bullets s \<and> rockets (spawnEnemy s) = rockets s \<and>
   particles (spawnEnemy s) = particles s \<and> score (spawnEnemy s) = score s \<and>
   statsLog (spawnEnemy s) = statsLog s \<and> bulletCooldown (spawnEnemy s) = bulletCooldown s \<and>
   rocketCooldown (spawnEnemy s) = rocketCooldown s \<and> canvas_width (spawnEnemy s) = canvas_width s \<and>
   canvas_height (spawnEnemy s) = canvas_height s \<and> random (spawnEnemy s) = random s \<and>
   enemySpawnRate (spawnEnemy s) = enemySpawnRate s \<and> enemySpawnTimer (spawnEnemy s) = enemySpawnTimer s \<and>
   bulletsFired (spawnEnemy s) = bulletsFired s \<and> rocketsFired (spawnEnemy s) = rocketsFired s"
  by (simp add: spawnEnemy_def consume_def Let_def)

lemma spawnPhase_keeps:
  "mouse (spawnPhase s) = mouse s \<and> cannon (spawnPhase s) = cannon s \<and>
   bullets (spawnPhase s) = bullets s \<and> rockets (spawnPhase s) = rockets s \<and>
   particles (spawnPhase s) = particles s \<and> score (spawnPhase s) = score s \<and>
   statsLog (spawnPhase s) = statsLog s \<and> bulletCooldown (spawnPhase s) = bulletCooldown s \<and>
   rocketCooldown (spawnPhase s) = rocketCooldown s \<and> canvas_width (spawnPhase s) = canvas_width s \<and>
   canvas_height (spawnPhase s) = canvas_height s \<and> random (spawnPhase s) = random s \<and>
   bulletsFired (spawnPhase s) = bulletsFired s \<and> rocketsFired (spawnPhase s) = rocketsFired s"
  by (simp add: spawnPhase_def Let_def spawnEnemy_keeps)

lemma animate_update: "animate s = (update s)\<lparr>drawn := drawn (update s) + 6 * length (enemies (update s))\<rparr>"
  by (simp add: animate_def render_def consume_def)

lemma update_phases: "update s = particlesPhase (beforeParticles s)"
  by (simp add: update_def beforeParticles_def beforeRockets_def beforeBullets_def)

lemma beforeBullets_keeps:
  "mouse (beforeBullets s) = mouse s \<and> bullets (beforeBullets s) = bullets s \<and>
   rockets (beforeBullets s) = rockets s \<and> particles (beforeBullets s) = particles s \<and>
   score (beforeBullets s) = score s \<and> statsLog (beforeBullets s) = statsLog s \<and>
   canvas_width (beforeBullets s) = canvas_width s \<and> canvas_height (beforeBullets s) = canvas_height s \<and>
   random (beforeBullets s) = random s \<and>
   bulletsFired (beforeBullets s) = bulletsFired s \<and> rocketsFired (beforeBullets s) = rocketsFired s \<and>
   enemySpawnRate (beforeBullets s) = enemySpawnRate (spawnPhase s) \<and>
   enemySpawnTimer (beforeBullets s) = enemySpawnTimer (spawnPhase s) \<and>
   bulletCooldown (beforeBullets s) = bulletCooldown (cooldownPhase s) \<and>
   rocketCooldown (beforeBullets s) = rocketCooldown (cooldownPhase s)"
  by (simp add: beforeBullets_def enemiesPhase_def aimPhase_def cooldownPhase_def Let_def spawnPhase_keeps)

lemma bulletsPhase_core: "sameCore (bulletsPhase s) (s\<lparr>bullets := bullets (bulletsPhase s)\<rparr>)"
proof -
  obtain kept s1 where fl: "filterBullets (bullets s) s = (kept, s1)"
    by (cases "filterBullets (bullets s) s") auto
  have "sameCore s1 s" using filterBullets_core[of "bullets s" s] fl by simp
  then show ?thesis using fl by (simp add: bulletsPhase_def sameCore_def)
qed

lemma rocketsPhase_core: "sameCore (rocketsPhase s) (s\<lparr>rockets := rockets (rocketsPhase s)\<rparr>)"
proof -
  obtain kept s1 where fl: "filterRockets (rockets s) s = (kept, s1)"
    by (cases "filterRockets (rockets s) s") auto
  have "sameCore s1 s" using filterRockets_core[of "rockets s" s] fl by simp
  then show ?thesis using fl by (simp add: rocketsPhase_def sameCore_def)
qed

lemma bulletsPhase_bullets: "bullets (bulletsPhase s) = fst (filterBullets (bullets s) s)"
  by (cases "filterBullets (bullets s) s") (simp add: bulletsPhase_def)

lemma rocketsPhase_rockets: "rockets (rocketsPhase s) = fst (filterRockets (rockets s) s)"
  by (cases "filterRockets (rockets s) s") (simp add: rocketsPhase_def)

lemma bulletStep_bullet: "fst (snd (bulletStep b0 s)) = advanceBullet b0"
  by (cases "collide (bullet.x (advanceBullet b0)) (bullet.y (advanceBullet b0)) (bullet.radius (advanceBullet b0)) 10 s")
     (simp add: bulletStep_def Let_def)

lemma bulletStep_keep: "fst (bulletStep b0 s) \<Longrightarrow> bullet.life (advanceBullet b0) > 0"
  by (cases "collide (bullet.x (advanceBullet b0)) (bullet.y (advanceBullet b0)) (bullet.radius (advanceBullet b0)) 10 s")
     (simp add: bulletStep_def Let_def split: if_splits)

lemma filterBullets_subseq:
  "subseq (fst (filterBullets bs s)) (filter (\<lambda>b1. bullet.life b1 > 0) (map advanceBullet bs))"
proof (induction bs arbitrary: s)
  case Nil show ?case by simp
next
  case (Cons b0 bs)
  obtain keep b1 s1 where st: "bulletStep b0 s = (keep, b1, s1)"
    by (cases "bulletStep b0 s") auto
  obtain kept s2 where fl: "filterBullets bs s1 = (kept, s2)"
    by (cases "filterBullets bs s1") auto
  have b1: "b1 = advanceBullet b0" using bulletStep_bullet[of b0 s] st by simp
  have k: "keep \<Longrightarrow> bullet.life b1 > 0" using bulletStep_keep[of b0 s] st b1 by simp
  have ih: "subseq kept (filter (\<lambda>b1. bullet.life b1 > 0) (map advanceBullet bs))"
    using Cons[of s1] fl by simp
  show ?case
  proof (cases keep)
    case True
    then show ?thesis using st fl ih k b1 by simp
  next
    case False
    then show ?thesis using st fl ih b1 by (simp add: list_emb_Cons)
  qed
qed

lemma rocketStep_rocket: "fst (snd (rocketStep r0 s)) = advanceRocket (mouse s) r0"
  by (cases "collide (rocket.x (advanceRocket (mouse s) r0)) (rocket.y (advanceRocket (mouse s) r0))
        (rocket.radius (advanceRocket (mouse s) r0)) 25
        (if thrustParticles (advanceRocket (mouse s) r0) mod 2 = 0 then thrustParticle (advanceRocket (mouse s) r0) s else s)")
     (simp add: rocketStep_def Let_def)

lemma rocketStep_keep: "fst (rocketStep r0 s) \<Longrightarrow> rocket.life (advanceRocket (mouse s) r0) > 0"
  by (cases "collide (rocket.x (advanceRocket (mouse s) r0)) (rocket.y (advanceRocket (mouse s) r0))
        (rocket.radius (advanceRocket (mouse s) r0)) 25
        (if thrustParticles (advanceRocket (mouse s) r0) mod 2 = 0 then thrustParticle (advanceRocket (mouse s) r0) s else s)")
     (simp add: rocketStep_def Let_def split: if_splits)

lemma filterRockets_subseq:
  "subseq (fst (filterRockets rs s)) (filter (\<lambda>r1. rocket.life r1 > 0) (map (advanceRocket (mouse s)) rs))"
proof (induction rs arbitrary: s)
  case Nil show ?case by simp
next
  case (Cons r0 rs)
  obtain keep r1 s1 where st: "rocketStep r0 s = (keep, r1, s1)"
    by (cases "rocketStep r0 s") auto
  obtain kept s2 where fl: "filterRockets rs s1 = (kept, s2)"
    by (cases "filterRockets rs s1") auto
  have r1: "r1 = advanceRocket (mouse s) r0" using rocketStep_rocket[of r0 s] st by simp
  have k: "keep \<Longrightarrow> rocket.life r1 > 0" using rocketStep_keep[of r0 s] st r1 by simp
  have m: "mouse s1 = mouse s" using rocketStep_core[of r0 s] st by (simp add: sameCore_def)
  have ih: "subseq kept (filter (\<lambda>r1. rocket.life r1 > 0) (map (advanceRocket (mouse s)) rs))"
    using Cons[of s1] fl m by simp
  show ?case
  proof (cases keep)
    case True
    then show ?thesis using st fl ih k r1 by simp
  next
    case False
    then show ?thesis using st fl ih r1 by (simp add: list_emb_Cons)
  qed
qed

lemma update_bullets:
  "subseq (bullets (update s)) (filter (\<lambda>b1. bullet.life b1 > 0) (map advanceBullet (bullets s)))"
proof -
  have a: "bullets (update s) = bullets (beforeRockets s)"
    using rocketsPhase_core[of "beforeRockets s"]
    by (simp add: update_phases particlesPhase_def beforeParticles_def sameCore_def)
  have "bullets (beforeRockets s) = fst (filterBullets (bullets s) (beforeBullets s))"
    by (simp add: beforeRockets_def bulletsPhase_bullets beforeBullets_keeps)
  then show ?thesis using a filterBullets_subseq[of "bullets s" "beforeBullets s"] by simp
qed

lemma update_rockets:
  "subseq (rockets (update s)) (filter (\<lambda>r1. rocket.life r1 > 0) (map (advanceRocket (mouse s)) (rockets s)))"
proof -
  have a: "rockets (update s) = rockets (beforeParticles s)"
    by (simp add: update_phases particlesPhase_def)
  have c: "sameCore (beforeRockets s) ((beforeBullets s)\<lparr>bullets := bullets (beforeRockets s)\<rparr>)"
    unfolding beforeRockets_def by (rule bulletsPhase_core)
  have r: "rockets (beforeRockets s) = rockets s" using c by (simp add: sameCore_def beforeBullets_keeps)
  have m: "mouse (beforeRockets s) = mouse s" using c by (simp add: sameCore_def beforeBullets_keeps)
  have "rockets (beforeParticles s) = fst (filterRockets (rockets s) (beforeRockets s))"
    by (simp add: beforeParticles_def rocketsPhase_rockets r)
  then show ?thesis using a m filterRockets_subseq[of "rockets s" "beforeRockets s"] by simp
qed

section \<open>The collision scan\<close>

lemma hitScan_None: "hitScan px py pr es n = None \<longleftrightarrow> (\<forall>j<n. \<not> hits px py pr (es ! j))"
  by (induction n) (auto simp: less_Suc_eq)

lemma hitScan_Some:
  "hitScan px py pr es n = Some i \<longleftrightarrow>
     i < n \<and> hits px py pr (es ! i) \<and> (\<forall>j. i < j \<and> j < n \<longrightarrow> \<not> hits px py pr (es ! j))"
proof (induction n)
  case 0 show ?case by simp
next
  case (Suc n)
  show ?case
  proof (cases "hits px py pr (es ! n)")
    case True
    have "(n = i) = (i < Suc n \<and> hits px py pr (es ! i) \<and> (\<forall>j. i < j \<and> j < Suc n \<longrightarrow> \<not> hits px py pr (es ! j)))"
      using True by (metis less_Suc_eq lessI nat_neq_iff not_less_eq)
    then show ?thesis using True by (simp add: eq_commute)
  next
    case False
    have "(i < n \<and> hits px py pr (es ! i) \<and> (\<forall>j. i < j \<and> j < n \<longrightarrow> \<not> hits px py pr (es ! j)))
        = (i < Suc n \<and> hits px py pr (es ! i) \<and> (\<forall>j. i < j \<and> j < Suc n \<longrightarrow> \<not> hits px py pr (es ! j)))"
      using False by (metis less_Suc_eq)
    then show ?thesis using False Suc by simp
  qed
qed

lemma collide_crashed:
  "fst (collide px py pr pts s) \<longleftrightarrow> (\<exists>e \<in> set (enemies s). hits px py pr e)"
proof (cases "hitScan px py pr (enemies s) (length (enemies s))")
  case None
  then have "\<forall>j<length (enemies s). \<not> hits px py pr (enemies s ! j)" by (simp add: hitScan_None)
  then have "\<not> (\<exists>e \<in> set (enemies s). hits px py pr e)" by (auto simp: in_set_conv_nth)
  then show ?thesis using None by (simp add: collide_def)
next
  case (Some i)
  then have "i < length (enemies s) \<and> hits px py pr (enemies s ! i)" by (simp add: hitScan_Some)
  then have "\<exists>e \<in> set (enemies s). hits px py pr e" using nth_mem by blast
  then show ?thesis using Some by (simp add: collide_def)
qed

lemma hits_distance:
  "hits px py pr e \<longleftrightarrow> centerDistance px py (enemy.x e) (enemy.y e) < pr + enemy.radius e"
  by (simp add: hits_def centerDistance_def Let_def power2_eq_square add.commute)

section \<open>Angle normalisation and speed\<close>

declare wrapDown.simps [simp del] wrapUp.simps [simp del]

lemma wrapDown_le: "wrapDown d \<le> pi"
proof (induction d rule: wrapDown.induct)
  case (1 d)
  show ?case
  proof (cases "d > pi")
    case True then show ?thesis using 1 by (subst wrapDown.simps) simp
  next
    case False then show ?thesis by (subst wrapDown.simps) simp
  qed
qed

lemma wrapDown_gt: "- pi < d \<Longrightarrow> - pi < wrapDown d"
proof (induction d rule: wrapDown.induct)
  case (1 d)
  show ?case
  proof (cases "d > pi")
    case True
    then have "- pi < d - pi * 2" by simp
    then have "- pi < wrapDown (d - pi * 2)" using 1 True by blast
    then show ?thesis using True by (subst wrapDown.simps) simp
  next
    case False then show ?thesis using 1 by (subst wrapDown.simps) simp
  qed
qed

lemma wrapDown_id: "d \<le> pi \<Longrightarrow> wrapDown d = d"
  by (subst wrapDown.simps) simp

lemma wrapDown_cong: "\<exists>k::int. wrapDown d = d + 2 * pi * of_int k"
proof (induction d rule: wrapDown.induct)
  case (1 d)
  show ?case
  proof (cases "d > pi")
    case True
    then obtain k :: int where k: "wrapDown (d - pi * 2) = d - pi * 2 + 2 * pi * of_int k"
      using 1 by blast
    have "wrapDown d = d + 2 * pi * of_int (k - 1)"
      using True k by (subst wrapDown.simps) (simp add: algebra_simps)
    then show ?thesis by blast
  next
    case False
    then have "wrapDown d = d + 2 * pi * of_int 0" by (subst wrapDown.simps) simp
    then show ?thesis by blast
  qed
qed

lemma wrapUp_ge: "- pi \<le> wrapUp d"
proof (induction d rule: wrapUp.induct)
  case (1 d)
  show ?case
  proof (cases "d < - pi")
    case True then show ?thesis using 1 by (subst wrapUp.simps) simp
  next
    case False then show ?thesis by (subst wrapUp.simps) simp
  qed
qed

lemma wrapUp_id: "- pi \<le> d \<Longrightarrow> wrapUp d = d"
  by (subst wrapUp.simps) simp

lemma wrapUp_lt: "d < - pi \<Longrightarrow> wrapUp d < pi"
proof (induction d rule: wrapUp.induct)
  case (1 d)
  then have lt: "d < - pi" by simp
  show ?case
  proof (cases "d + pi * 2 < - pi")
    case True
    then have "wrapUp (d + pi * 2) < pi" using 1 lt by blast
    then show ?thesis using lt by (subst wrapUp.simps) simp
  next
    case False
    then have "wrapUp (d + pi * 2) = d + pi * 2" by (simp add: wrapUp_id)
    then show ?thesis using lt by (subst wrapUp.simps) simp
  qed
qed

lemma wrapUp_cong: "\<exists>k::int. wrapUp d = d + 2 * pi * of_int k"
proof (induction d rule: wrapUp.induct)
  case (1 d)
  show ?case
  proof (cases "d < - pi")
    case True
    then obtain k :: int where k: "wrapUp (d + pi * 2) = d + pi * 2 + 2 * pi * of_int k"
      using 1 by blast
    have "wrapUp d = d + 2 * pi * of_int (k + 1)"
      using True k by (subst wrapUp.simps) (simp add: algebra_simps)
    then show ?thesis by blast
  next
    case False
    then have "wrapUp d = d + 2 * pi * of_int 0" by (subst wrapUp.simps) simp
    then show ?thesis by blast
  qed
qed


section \<open>Fire commands and cooldowns\<close>

lemma update_keeps:
  "mouse (update s) = mouse s \<and> canvas_width (update s) = canvas_width s \<and>
   canvas_height (update s) = canvas_height s \<and> random (update s) = random s \<and>
   bulletsFired (update s) = bulletsFired s \<and> rocketsFired (update s) = rocketsFired s \<and>
   enemySpawnRate (update s) = enemySpawnRate (spawnPhase s) \<and>
   enemySpawnTimer (update s) = enemySpawnTimer (spawnPhase s) \<and>
   bulletCooldown (update s) = bulletCooldown (cooldownPhase s) \<and>
   rocketCooldown (update s) = rocketCooldown (cooldownPhase s)"
proof -
  have c1: "sameCore (beforeRockets s) ((beforeBullets s)\<lparr>bullets := bullets (beforeRockets s)\<rparr>)"
    unfolding beforeRockets_def by (rule bulletsPhase_core)
  have c2: "sameCore (beforeParticles s) ((beforeRockets s)\<lparr>rockets := rockets (beforeParticles s)\<rparr>)"
    unfolding beforeParticles_def by (rule rocketsPhase_core)
  show ?thesis using c1 c2
    by (simp add: update_phases particlesPhase_def sameCore_def beforeBullets_keeps)
qed

lemma fireBullet_blocked: "0 < bulletCooldown s \<Longrightarrow> fireBullet s = s"
  by (simp add: fireBullet_def)

lemma fireRocket_blocked: "0 < rocketCooldown s \<Longrightarrow> fireRocket s = s"
  by (simp add: fireRocket_def)

lemma fireBullet_fires:
  assumes "\<not> 0 < bulletCooldown s"
  shows "bulletsFired (fireBullet s) = bulletsFired s + 1 \<and> bulletCooldown (fireBullet s) = 8 \<and>
         rocketCooldown (fireBullet s) = rocketCooldown s \<and>
         length (bullets (fireBullet s)) = length (bullets s) + 1 \<and> rockets (fireBullet s) = rockets s \<and>
         enemies (fireBullet s) = enemies s \<and> score (fireBullet s) = score s \<and>
         length (statsLog (fireBullet s)) = length (statsLog s) + 1 \<and>
         enemySpawnRate (fireBullet s) = enemySpawnRate s \<and>
         enemySpawnTimer (fireBullet s) = enemySpawnTimer s \<and>
         random (fireBullet s) = random s"
proof -
  obtain px py ang s4 where
    f: "fireBullet s = updateStats (createMuzzleFlash px py ang False s4)" and
    s4: "bulletsFired s4 = bulletsFired s + 1" "bulletCooldown s4 = 8" "rocketCooldown s4 = rocketCooldown s"
        "length (bullets s4) = length (bullets s) + 1" "rockets s4 = rockets s" "enemies s4 = enemies s"
        "score s4 = score s" "statsLog s4 = statsLog s" "enemySpawnRate s4 = enemySpawnRate s"
        "enemySpawnTimer s4 = enemySpawnTimer s" "random s4 = random s"
    using assms by (simp add: fireBullet_def Let_def playSound_def)
  have "sameBoard (createMuzzleFlash px py ang False s4) s4" by (rule createMuzzleFlash_board)
  then show ?thesis using f s4 by (simp add: updateStats_def sameBoard_def sameCore_def)
qed

lemma fireRocket_fires:
  assumes "\<not> 0 < rocketCooldown s"
  shows "rocketsFired (fireRocket s) = rocketsFired s + 1 \<and> rocketCooldown (fireRocket s) = 30 \<and>
         bulletCooldown (fireRocket s) = bulletCooldown s \<and>
         length (rockets (fireRocket s)) = length (rockets s) + 1 \<and> bullets (fireRocket s) = bullets s \<and>
         enemies (fireRocket s) = enemies s \<and> score (fireRocket s) = score s \<and>
         length (statsLog (fireRocket s)) = length (statsLog s) + 1 \<and>
         enemySpawnRate (fireRocket s) = enemySpawnRate s \<and>
         enemySpawnTimer (fireRocket s) = enemySpawnTimer s \<and>
         random (fireRocket s) = random s"
proof -
  obtain px py ang s4 where
    f: "fireRocket s = updateStats (createMuzzleFlash px py ang True s4)" and
    s4: "rocketsFired s4 = rocketsFired s + 1" "rocketCooldown s4 = 30" "bulletCooldown s4 = bulletCooldown s"
        "length (rockets s4) = length (rockets s) + 1" "bullets s4 = bullets s" "enemies s4 = enemies s"
        "score s4 = score s" "statsLog s4 = statsLog s" "enemySpawnRate s4 = enemySpawnRate s"
        "enemySpawnTimer s4 = enemySpawnTimer s" "random s4 = random s"
    using assms by (simp add: fireRocket_def Let_def playSound_def)
  have "sameBoard (createMuzzleFlash px py ang True s4) s4" by (rule createMuzzleFlash_board)
  then show ?thesis using f s4 by (simp add: updateStats_def sameBoard_def sameCore_def)
qed

lemma step_bulletCooldown:
  "bulletCooldown s - (if e = Tick then 1 else 0) \<le> bulletCooldown (step e s)"
proof (cases e)
  case Tick
  then show ?thesis by (simp add: animate_update update_keeps cooldownPhase_def Let_def)
next
  case (MouseDown button)
  have a: "bulletCooldown s \<le> bulletCooldown (fireBullet s)"
    using fireBullet_blocked[of s] fireBullet_fires[of s] by (cases "0 < bulletCooldown s") auto
  have b: "bulletCooldown s \<le> bulletCooldown (fireRocket s)"
    using fireRocket_blocked[of s] fireRocket_fires[of s] by (cases "0 < rocketCooldown s") auto
  show ?thesis using MouseDown a b by (simp add: handleClick_def)
next
  case (MouseMove cx cy) then show ?thesis by simp
next
  case (Resize w h) then show ?thesis by (simp add: resizeCanvas_def Let_def)
qed

lemma step_rocketCooldown:
  "rocketCooldown s - (if e = Tick then 1 else 0) \<le> rocketCooldown (step e s)"
proof (cases e)
  case Tick
  then show ?thesis by (simp add: animate_update update_keeps cooldownPhase_def Let_def)
next
  case (MouseDown button)
  have a: "rocketCooldown s \<le> rocketCooldown (fireBullet s)"
    using fireBullet_blocked[of s] fireBullet_fires[of s] by (cases "0 < bulletCooldown s") auto
  have b: "rocketCooldown s \<le> rocketCooldown (fireRocket s)"
    using fireRocket_blocked[of s] fireRocket_fires[of s] by (cases "0 < rocketCooldown s") auto
  show ?thesis using MouseDown a b by (simp add: handleClick_def)
next
  case (MouseMove cx cy) then show ?thesis by simp
next
  case (Resize w h) then show ?thesis by (simp add: resizeCanvas_def Let_def)
qed

lemma ticks_Cons: "ticks (e # es) = (if e = Tick then 1 else 0) + ticks es"
  by (simp add: ticks_def)

lemma run_bulletCooldown: "bulletCooldown s - int (ticks es) \<le> bulletCooldown (run es s)"
proof (induction es arbitrary: s)
  case Nil show ?case by (simp add: ticks_def)
next
  case (Cons e es)
  have "bulletCooldown (step e s) - int (ticks es) \<le> bulletCooldown (run es (step e s))" by (rule Cons)
  then show ?case using step_bulletCooldown[of s e] by (simp add: ticks_Cons split: if_splits)
qed

lemma run_rocketCooldown: "rocketCooldown s - int (ticks es) \<le> rocketCooldown (run es s)"
proof (induction es arbitrary: s)
  case Nil show ?case by (simp add: ticks_def)
next
  case (Cons e es)
  have "rocketCooldown (step e s) - int (ticks es) \<le> rocketCooldown (run es (step e s))" by (rule Cons)
  then show ?case using step_rocketCooldown[of s e] by (simp add: ticks_Cons split: if_splits)
qed

section \<open>Hits, score and stats writes\<close>

lemma onHit_board:
  "i < length (enemies s) \<Longrightarrow>
   enemies (onHit pts i s) = take i (enemies s) @ drop (Suc i) (enemies s) \<and>
   length (enemies (onHit pts i s)) + 1 = length (enemies s) \<and>
   score (onHit pts i s) = score s + pts \<and>
   length (statsLog (onHit pts i s)) = length (statsLog s) + 1"
  using createExplosion_board[of "enemy.x (enemies s ! i)" "enemy.y (enemies s ! i)" s]
  by (simp add: onHit_def Let_def updateStats_def sameBoard_def)

lemma hitScan_bound: "hitScan px py pr es n = Some i \<Longrightarrow> i < n"
  by (simp add: hitScan_Some)

lemma collide_None:
  "hitScan px py pr (enemies s) (length (enemies s)) = None \<Longrightarrow> collide px py pr pts s = (False, s)"
  by (simp add: collide_def)

lemma collide_Some:
  "hitScan px py pr (enemies s) (length (enemies s)) = Some i \<Longrightarrow>
   collide px py pr pts s = (True, onHit pts i s)"
  by (simp add: collide_def)

lemma collide_count:
  "score (snd (collide px py pr pts s)) + pts * int (length (enemies (snd (collide px py pr pts s))))
     = score s + pts * int (length (enemies s)) \<and>
   length (statsLog (snd (collide px py pr pts s))) + length (enemies (snd (collide px py pr pts s)))
     = length (statsLog s) + length (enemies s) \<and>
   length (enemies (snd (collide px py pr pts s))) \<le> length (enemies s)"
proof (cases "hitScan px py pr (enemies s) (length (enemies s))")
  case None
  then show ?thesis by (simp add: collide_None)
next
  case (Some i)
  then have i: "i < length (enemies s)" by (rule hitScan_bound)
  have n: "length (enemies (onHit pts i s)) + 1 = length (enemies s)"
    using onHit_board[OF i, of pts] by blast
  then have l: "int (length (enemies s)) = int (length (enemies (onHit pts i s))) + 1"
    by linarith
  have sc: "score (onHit pts i s) = score s + pts"
    using onHit_board[OF i, of pts] by blast
  have st: "length (statsLog (onHit pts i s)) = length (statsLog s) + 1"
    using onHit_board[OF i, of pts] by blast
  show ?thesis using Some n l sc st
    by (simp add: collide_Some algebra_simps)
qed

lemma bulletStep_state:
  "snd (snd (bulletStep b0 s)) =
   snd (collide (bullet.x (advanceBullet b0)) (bullet.y (advanceBullet b0)) (bullet.radius (advanceBullet b0)) 10 s)"
  by (cases "collide (bullet.x (advanceBullet b0)) (bullet.y (advanceBullet b0)) (bullet.radius (advanceBullet b0)) 10 s")
     (simp add: bulletStep_def Let_def)

lemma bulletStep_crash:
  "fst (collide (bullet.x (advanceBullet b0)) (bullet.y (advanceBullet b0)) (bullet.radius (advanceBullet b0)) 10 s)
   \<Longrightarrow> \<not> fst (bulletStep b0 s)"
  by (cases "collide (bullet.x (advanceBullet b0)) (bullet.y (advanceBullet b0)) (bullet.radius (advanceBullet b0)) 10 s")
     (simp add: bulletStep_def Let_def)

lemma afterThrust_board: "sameBoard (afterThrust r0 s) s"
  by (simp add: afterThrust_def thrustParticle_board sameBoard_refl)

lemma rocketStep_state:
  "snd (snd (rocketStep r0 s)) =
   snd (collide (rocket.x (advanceRocket (mouse s) r0)) (rocket.y (advanceRocket (mouse s) r0))
          (rocket.radius (advanceRocket (mouse s) r0)) 25 (afterThrust r0 s))"
  by (cases "collide (rocket.x (advanceRocket (mouse s) r0)) (rocket.y (advanceRocket (mouse s) r0))
          (rocket.radius (advanceRocket (mouse s) r0)) 25 (afterThrust r0 s)")
     (simp add: rocketStep_def Let_def afterThrust_def)

lemma rocketStep_crash:
  "fst (collide (rocket.x (advanceRocket (mouse s) r0)) (rocket.y (advanceRocket (mouse s) r0))
          (rocket.radius (advanceRocket (mouse s) r0)) 25 (afterThrust r0 s))
   \<Longrightarrow> \<not> fst (rocketStep r0 s)"
  by (cases "collide (rocket.x (advanceRocket (mouse s) r0)) (rocket.y (advanceRocket (mouse s) r0))
          (rocket.radius (advanceRocket (mouse s) r0)) 25 (afterThrust r0 s)")
     (simp add: rocketStep_def Let_def afterThrust_def)

lemma bulletStep_count:
  "score (snd (snd (bulletStep b0 s))) + 10 * int (length (enemies (snd (snd (bulletStep b0 s)))))
     = score s + 10 * int (length (enemies s)) \<and>
   length (statsLog (snd (snd (bulletStep b0 s)))) + length (enemies (snd (snd (bulletStep b0 s))))
     = length (statsLog s) + length (enemies s) \<and>
   length (enemies (snd (snd (bulletStep b0 s)))) \<le> length (enemies s)"
  unfolding bulletStep_state by (rule collide_count)

lemma rocketStep_count:
  "score (snd (snd (rocketStep r0 s))) + 25 * int (length (enemies (snd (snd (rocketStep r0 s)))))
     = score s + 25 * int (length (enemies s)) \<and>
   length (statsLog (snd (snd (rocketStep r0 s)))) + length (enemies (snd (snd (rocketStep r0 s))))
     = length (statsLog s) + length (enemies s) \<and>
   length (enemies (snd (snd (rocketStep r0 s)))) \<le> length (enemies s)"
proof -
  have b: "score (afterThrust r0 s) = score s \<and> enemies (afterThrust r0 s) = enemies s \<and>
           statsLog (afterThrust r0 s) = statsLog s"
    using afterThrust_board[of r0 s] by (simp add: sameBoard_def)
  show ?thesis unfolding rocketStep_state
    using collide_count[of "rocket.x (advanceRocket (mouse s) r0)" "rocket.y (advanceRocket (mouse s) r0)"
          "rocket.radius (advanceRocket (mouse s) r0)" 25 "afterThrust r0 s"] b
    by simp
qed

lemma filterBullets_count:
  "score (snd (filterBullets bs s)) + 10 * int (length (enemies (snd (filterBullets bs s))))
     = score s + 10 * int (length (enemies s)) \<and>
   length (statsLog (snd (filterBullets bs s))) + length (enemies (snd (filterBullets bs s)))
     = length (statsLog s) + length (enemies s) \<and>
   length (enemies (snd (filterBullets bs s))) \<le> length (enemies s)"
proof (induction bs arbitrary: s)
  case Nil show ?case by simp
next
  case (Cons b0 bs)
  obtain keep b1 s1 where st: "bulletStep b0 s = (keep, b1, s1)"
    by (cases "bulletStep b0 s") auto
  obtain kept s2 where fl: "filterBullets bs s1 = (kept, s2)"
    by (cases "filterBullets bs s1") auto
  have a: "score s1 + 10 * int (length (enemies s1)) = score s + 10 * int (length (enemies s)) \<and>
     length (statsLog s1) + length (enemies s1) = length (statsLog s) + length (enemies s) \<and>
     length (enemies s1) \<le> length (enemies s)"
    using bulletStep_count[of b0 s] st by simp
  have b: "score s2 + 10 * int (length (enemies s2)) = score s1 + 10 * int (length (enemies s1)) \<and>
     length (statsLog s2) + length (enemies s2) = length (statsLog s1) + length (enemies s1) \<and>
     length (enemies s2) \<le> length (enemies s1)"
    using Cons[of s1] fl by simp
  show ?case using st fl a b by simp
qed

lemma filterRockets_count:
  "score (snd (filterRockets rs s)) + 25 * int (length (enemies (snd (filterRockets rs s))))
     = score s + 25 * int (length (enemies s)) \<and>
   length (statsLog (snd (filterRockets rs s))) + length (enemies (snd (filterRockets rs s)))
     = length (statsLog s) + length (enemies s) \<and>
   length (enemies (snd (filterRockets rs s))) \<le> length (enemies s)"
proof (induction rs arbitrary: s)
  case Nil show ?case by simp
next
  case (Cons r0 rs)
  obtain keep r1 s1 where st: "rocketStep r0 s = (keep, r1, s1)"
    by (cases "rocketStep r0 s") auto
  obtain kept s2 where fl: "filterRockets rs s1 = (kept, s2)"
    by (cases "filterRockets rs s1") auto
  have a: "score s1 + 25 * int (length (enemies s1)) = score s + 25 * int (length (enemies s)) \<and>
     length (statsLog s1) + length (enemies s1) = length (statsLog s) + length (enemies s) \<and>
     length (enemies s1) \<le> length (enemies s)"
    using rocketStep_count[of r0 s] st by simp
  have b: "score s2 + 25 * int (length (enemies s2)) = score s1 + 25 * int (length (enemies s1)) \<and>
     length (statsLog s2) + length (enemies s2) = length (statsLog s1) + length (enemies s1) \<and>
     length (enemies s2) \<le> length (enemies s1)"
    using Cons[of s1] fl by simp
  show ?case using st fl a b by simp
qed

lemma bulletsPhase_state: "bulletsPhase s = (snd (filterBullets (bullets s) s))\<lparr>bullets := bullets (bulletsPhase s)\<rparr>"
  by (cases "filterBullets (bullets s) s") (simp add: bulletsPhase_def)

lemma rocketsPhase_state: "rocketsPhase s = (snd (filterRockets (rockets s) s))\<lparr>rockets := rockets (rocketsPhase s)\<rparr>"
  by (cases "filterRockets (rockets s) s") (simp add: rocketsPhase_def)

lemma bulletsPhase_count:
  "score (bulletsPhase s) + 10 * int (length (enemies (bulletsPhase s)))
     = score s + 10 * int (length (enemies s)) \<and>
   length (statsLog (bulletsPhase s)) + length (enemies (bulletsPhase s))
     = length (statsLog s) + length (enemies s) \<and>
   length (enemies (bulletsPhase s)) \<le> length (enemies s)"
  using filterBullets_count[of "bullets s" s]
  by (subst (1 2 3 4 5) bulletsPhase_state) simp

lemma rocketsPhase_count:
  "score (rocketsPhase s) + 25 * int (length (enemies (rocketsPhase s)))
     = score s + 25 * int (length (enemies s)) \<and>
   length (statsLog (rocketsPhase s)) + length (enemies (rocketsPhase s))
     = length (statsLog s) + length (enemies s) \<and>
   length (enemies (rocketsPhase s)) \<le> length (enemies s)"
  using filterRockets_count[of "rockets s" s]
  by (subst (1 2 3 4 5) rocketsPhase_state) simp

section \<open>The spawn scheduler\<close>

lemma spawnPhase_rate:
  "enemySpawnRate (spawnPhase s) =
     (if spawnsEnemy s \<and> 20 < enemySpawnRate s then enemySpawnRate s - 0.5 else enemySpawnRate s)"
  by (simp add: spawnPhase_def spawnsEnemy_def Let_def spawnEnemy_keeps)

lemma spawnPhase_timer:
  "enemySpawnTimer (spawnPhase s) = (if spawnsEnemy s then 0 else enemySpawnTimer s + 1)"
  by (simp add: spawnPhase_def spawnsEnemy_def Let_def spawnEnemy_keeps)

lemma spawnPhase_enemies:
  "length (enemies (spawnPhase s)) = length (enemies s) + (if spawnsEnemy s then 1 else 0)"
  by (simp add: spawnPhase_def spawnsEnemy_def Let_def spawnEnemy_def consume_def)

lemma fire_spawn:
  "enemySpawnRate (fireBullet s) = enemySpawnRate s \<and> enemySpawnTimer (fireBullet s) = enemySpawnTimer s \<and>
   enemySpawnRate (fireRocket s) = enemySpawnRate s \<and> enemySpawnTimer (fireRocket s) = enemySpawnTimer s"
proof -
  have a: "enemySpawnRate (fireBullet s) = enemySpawnRate s \<and> enemySpawnTimer (fireBullet s) = enemySpawnTimer s"
    using fireBullet_blocked[of s] fireBullet_fires[of s] by (cases "0 < bulletCooldown s") auto
  have b: "enemySpawnRate (fireRocket s) = enemySpawnRate s \<and> enemySpawnTimer (fireRocket s) = enemySpawnTimer s"
    using fireRocket_blocked[of s] fireRocket_fires[of s] by (cases "0 < rocketCooldown s") auto
  show ?thesis using a b by simp
qed

lemma step_spawnRate:
  "enemySpawnRate (step e s) =
     (if e = Tick \<and> spawnsEnemy s \<and> 20 < enemySpawnRate s then enemySpawnRate s - 0.5
      else enemySpawnRate s)"
proof (cases e)
  case Tick then show ?thesis by (simp add: animate_update update_keeps spawnPhase_rate)
next
  case (MouseDown button) then show ?thesis by (simp add: handleClick_def fire_spawn)
next
  case (MouseMove cx cy) then show ?thesis by simp
next
  case (Resize w h) then show ?thesis by (simp add: resizeCanvas_def Let_def)
qed

lemma step_spawnTimer:
  "enemySpawnTimer (step e s) =
     (if e = Tick then (if spawnsEnemy s then 0 else enemySpawnTimer s + 1) else enemySpawnTimer s)"
proof (cases e)
  case Tick then show ?thesis by (simp add: animate_update update_keeps spawnPhase_timer)
next
  case (MouseDown button) then show ?thesis by (simp add: handleClick_def fire_spawn)
next
  case (MouseMove cx cy) then show ?thesis by simp
next
  case (Resize w h) then show ?thesis by (simp add: resizeCanvas_def Let_def)
qed

lemma CannonGame_spawn:
  "enemySpawnRate (CannonGame w h rs) = 60 \<and> enemySpawnTimer (CannonGame w h rs) = 1"
  by (simp add: CannonGame_def animate_update update_keeps spawnPhase_rate spawnPhase_timer spawnsEnemy_def
      resizeCanvas_def Let_def constructorFields_def)

lemma reachable_rate: "reachable s \<Longrightarrow> \<exists>k::nat. k \<le> 80 \<and> enemySpawnRate s = 20 + real k / 2"
proof (induction rule: reachable.induct)
  case (init rs w h)
  have "(80::nat) \<le> 80 \<and> enemySpawnRate (CannonGame w h rs) = 20 + real 80 / 2"
    by (simp add: CannonGame_spawn)
  then show ?case by blast
next
  case (after s e)
  then obtain k :: nat where k: "k \<le> 80" "enemySpawnRate s = 20 + real k / 2" by blast
  show ?case
  proof (cases "e = Tick \<and> spawnsEnemy s \<and> 20 < enemySpawnRate s")
    case True
    then have sr: "enemySpawnRate (step e s) = enemySpawnRate s - 0.5"
      by (subst step_spawnRate) simp
    have "0 < k" using True k by (cases k) auto
    then have "real (k - 1) = real k - 1" by (simp add: of_nat_diff)
    then have "k - 1 \<le> 80 \<and> enemySpawnRate (step e s) = 20 + real (k - 1) / 2"
      using k sr by (simp add: field_simps)
    then show ?thesis by blast
  next
    case False
    then have "enemySpawnRate (step e s) = enemySpawnRate s" by (simp add: step_spawnRate)
    then show ?thesis using k by auto
  qed
qed

lemma reachable_run: "reachable s \<Longrightarrow> reachable (run es s)"
proof (induction es arbitrary: s)
  case Nil then show ?case by simp
next
  case (Cons e es)
  have "reachable (step e s)" using Cons.prems by (rule reachable.after)
  then show ?case using Cons.IH by simp
qed

lemma run_spawnTimer: "enemySpawnTimer (run es s) \<le> max 0 (enemySpawnTimer s) + int (ticks es)"
proof (induction es arbitrary: s)
  case Nil show ?case by (simp add: ticks_def)
next
  case (Cons e es)
  have "enemySpawnTimer (run es (step e s)) \<le> max 0 (enemySpawnTimer (step e s)) + int (ticks es)"
    by (rule Cons)
  moreover have "max 0 (enemySpawnTimer (step e s)) \<le> max 0 (enemySpawnTimer s) + (if e = Tick then 1 else 0)"
    by (simp add: step_spawnTimer)
  ultimately show ?case by (simp add: ticks_Cons split: if_splits)
qed

lemma idle_ticks:
  "real_of_int (enemySpawnTimer s) + real n \<le> enemySpawnRate s \<Longrightarrow>
   enemySpawnTimer (run (replicate n Tick) s) = enemySpawnTimer s + int n \<and>
   enemySpawnRate (run (replicate n Tick) s) = enemySpawnRate s"
proof (induction n arbitrary: s)
  case 0 show ?case by simp
next
  case (Suc n)
  have ns: "\<not> spawnsEnemy s" using Suc.prems by (simp add: spawnsEnemy_def)
  have t: "enemySpawnTimer (animate s) = enemySpawnTimer s + 1" using ns
    using step_spawnTimer[of Tick s] by simp
  have r: "enemySpawnRate (animate s) = enemySpawnRate s" using ns
    using step_spawnRate[of Tick s] by simp
  have "real_of_int (enemySpawnTimer (animate s)) + real n \<le> enemySpawnRate (animate s)"
    using Suc.prems t r by simp
  then have "enemySpawnTimer (run (replicate n Tick) (animate s)) = enemySpawnTimer (animate s) + int n \<and>
   enemySpawnRate (run (replicate n Tick) (animate s)) = enemySpawnRate (animate s)"
    by (rule Suc.IH)
  then show ?case using t r by simp
qed

section \<open>The particle store\<close>

lemma prepend_fields:
  "canvas_width (prepend ps s) = canvas_width s \<and> canvas_height (prepend ps s) = canvas_height s \<and>
   mouse (prepend ps s) = mouse s \<and> cannon (prepend ps s) = cannon s \<and>
   bullets (prepend ps s) = bullets s \<and> rockets (prepend ps s) = rockets s \<and>
   enemies (prepend ps s) = enemies s \<and> bulletCooldown (prepend ps s) = bulletCooldown s \<and>
   rocketCooldown (prepend ps s) = rocketCooldown s \<and> particles (prepend ps s) = ps @ particles s"
  by (simp add: prepend_def)

lemma rnd_prepend: "rnd k (prepend ps s) = rnd k s"
  by (simp add: rnd_def prepend_def)

lemma muzzleParticle_prepend:
  "muzzleParticle px py ang col (prepend ps s) = prepend ps (muzzleParticle px py ang col s)"
  by (simp add: muzzleParticle_def Let_def rnd_prepend) (simp add: prepend_def consume_def)

lemma muzzleLoop_prepend:
  "muzzleLoop n px py ang col (prepend ps s) = prepend ps (muzzleLoop n px py ang col s)"
  by (induction n arbitrary: s) (simp_all add: muzzleParticle_prepend)

lemma createMuzzleFlash_prepend:
  "createMuzzleFlash px py ang isR (prepend ps s) = prepend ps (createMuzzleFlash px py ang isR s)"
  by (simp add: createMuzzleFlash_def Let_def muzzleLoop_prepend)

lemma explosionParticle_prepend:
  "explosionParticle px py (prepend ps s) = prepend ps (explosionParticle px py s)"
  by (simp add: explosionParticle_def Let_def rnd_prepend) (simp add: prepend_def consume_def)

lemma explosionLoop_prepend:
  "explosionLoop n px py (prepend ps s) = prepend ps (explosionLoop n px py s)"
  by (induction n arbitrary: s) (simp_all add: explosionParticle_prepend)

lemma playSound_prepend: "playSound c (prepend ps s) = prepend ps (playSound c s)"
  by (simp add: playSound_def prepend_def)

lemma updateStats_prepend: "updateStats (prepend ps s) = prepend ps (updateStats s)"
  by (simp add: updateStats_def prepend_def)

lemma createExplosion_prepend:
  "createExplosion px py (prepend ps s) = prepend ps (createExplosion px py s)"
  by (simp add: createExplosion_def playSound_prepend explosionLoop_prepend)

lemma thrustParticle_prepend:
  "thrustParticle r1 (prepend ps s) = prepend ps (thrustParticle r1 s)"
  by (simp add: thrustParticle_def Let_def rnd_prepend) (simp add: prepend_def consume_def)

lemma onHit_prepend: "onHit pts i (prepend ps s) = prepend ps (onHit pts i s)"
proof -
  have e: "enemies (prepend ps s) = enemies s" by (simp add: prepend_def)
  have u: "\<And>f t. (prepend ps t)\<lparr>enemies := f\<rparr> = prepend ps (t\<lparr>enemies := f\<rparr>)"
    by (simp add: prepend_def)
  have v: "\<And>n t. (prepend ps t)\<lparr>score := n\<rparr> = prepend ps (t\<lparr>score := n\<rparr>)"
    by (simp add: prepend_def)
  have w: "\<And>t. enemies (prepend ps t) = enemies t \<and> score (prepend ps t) = score t"
    by (simp add: prepend_def)
  show ?thesis
    by (simp add: onHit_def Let_def e createExplosion_prepend w u v updateStats_prepend)
qed

lemma collide_prepend:
  "collide px py pr pts (prepend ps s) =
   (fst (collide px py pr pts s), prepend ps (snd (collide px py pr pts s)))"
proof -
  have e: "enemies (prepend ps s) = enemies s" by (simp add: prepend_def)
  show ?thesis
    by (cases "hitScan px py pr (enemies s) (length (enemies s))")
       (simp_all add: collide_def e onHit_prepend)
qed

lemma bulletStep_prepend:
  "bulletStep b0 (prepend ps s) =
   (fst (bulletStep b0 s), fst (snd (bulletStep b0 s)), prepend ps (snd (snd (bulletStep b0 s))))"
proof -
  obtain c s1 where cl: "collide (bullet.x (advanceBullet b0)) (bullet.y (advanceBullet b0))
      (bullet.radius (advanceBullet b0)) 10 s = (c, s1)"
    by (cases "collide (bullet.x (advanceBullet b0)) (bullet.y (advanceBullet b0))
      (bullet.radius (advanceBullet b0)) 10 s") auto
  have w: "canvas_width (prepend ps s1) = canvas_width s1 \<and> canvas_height (prepend ps s1) = canvas_height s1"
    by (simp add: prepend_def)
  show ?thesis using cl w
    by (simp add: bulletStep_def Let_def collide_prepend)
qed

lemma filterBullets_prepend:
  "filterBullets bs (prepend ps s) =
   (fst (filterBullets bs s), prepend ps (snd (filterBullets bs s)))"
proof (induction bs arbitrary: s)
  case Nil show ?case by simp
next
  case (Cons b0 bs)
  obtain keep b1 s1 where st: "bulletStep b0 s = (keep, b1, s1)"
    by (cases "bulletStep b0 s") auto
  obtain kept s2 where fl: "filterBullets bs s1 = (kept, s2)"
    by (cases "filterBullets bs s1") auto
  have "filterBullets bs (prepend ps s1) = (kept, prepend ps s2)"
    using Cons[of s1] fl by simp
  then show ?case using st fl by (simp add: bulletStep_prepend)
qed

lemma bulletsPhase_prepend: "bulletsPhase (prepend ps s) = prepend ps (bulletsPhase s)"
proof -
  obtain kept s1 where fl: "filterBullets (bullets s) s = (kept, s1)"
    by (cases "filterBullets (bullets s) s") auto
  have b: "bullets (prepend ps s) = bullets s" by (simp add: prepend_def)
  have u: "(prepend ps s1)\<lparr>bullets := kept\<rparr> = prepend ps (s1\<lparr>bullets := kept\<rparr>)"
    by (simp add: prepend_def)
  show ?thesis using fl by (simp add: bulletsPhase_def b filterBullets_prepend u)
qed

lemma afterThrust_prepend: "afterThrust r0 (prepend ps s) = prepend ps (afterThrust r0 s)"
proof -
  have m: "mouse (prepend ps s) = mouse s" by (simp add: prepend_def)
  show ?thesis by (simp add: afterThrust_def m thrustParticle_prepend)
qed

lemma rocketStep_afterThrust:
  "rocketStep r0 s =
     (case collide (rocket.x (advanceRocket (mouse s) r0)) (rocket.y (advanceRocket (mouse s) r0))
             (rocket.radius (advanceRocket (mouse s) r0)) 25 (afterThrust r0 s) of
        (crashed, s1) \<Rightarrow>
          if crashed then (False, advanceRocket (mouse s) r0, s1)
          else (rocket.life (advanceRocket (mouse s) r0) > 0 \<and>
                rocket.x (advanceRocket (mouse s) r0) > - 100 \<and>
                rocket.x (advanceRocket (mouse s) r0) < canvas_width s1 + 100 \<and>
                rocket.y (advanceRocket (mouse s) r0) > - 100 \<and>
                rocket.y (advanceRocket (mouse s) r0) < canvas_height s1 + 100,
                advanceRocket (mouse s) r0, s1))"
  by (simp add: rocketStep_def Let_def afterThrust_def)

lemma rocketStep_prepend:
  "rocketStep r0 (prepend ps s) =
   (fst (rocketStep r0 s), fst (snd (rocketStep r0 s)), prepend ps (snd (snd (rocketStep r0 s))))"
proof -
  let ?r1 = "advanceRocket (mouse s) r0"
  obtain c s1 where cl: "collide (rocket.x ?r1) (rocket.y ?r1) (rocket.radius ?r1) 25 (afterThrust r0 s) = (c, s1)"
    by (cases "collide (rocket.x ?r1) (rocket.y ?r1) (rocket.radius ?r1) 25 (afterThrust r0 s)") auto
  have m: "mouse (prepend ps s) = mouse s" by (simp add: prepend_def)
  have w: "canvas_width (prepend ps s1) = canvas_width s1 \<and> canvas_height (prepend ps s1) = canvas_height s1"
    by (simp add: prepend_def)
  show ?thesis using cl w
    by (simp add: rocketStep_afterThrust m afterThrust_prepend collide_prepend)
qed

lemma filterRockets_prepend:
  "filterRockets rs (prepend ps s) =
   (fst (filterRockets rs s), prepend ps (snd (filterRockets rs s)))"
proof (induction rs arbitrary: s)
  case Nil show ?case by simp
next
  case (Cons r0 rs)
  obtain keep r1 s1 where st: "rocketStep r0 s = (keep, r1, s1)"
    by (cases "rocketStep r0 s") auto
  obtain kept s2 where fl: "filterRockets rs s1 = (kept, s2)"
    by (cases "filterRockets rs s1") auto
  have "filterRockets rs (prepend ps s1) = (kept, prepend ps s2)"
    using Cons[of s1] fl by simp
  then show ?case using st fl by (simp add: rocketStep_prepend)
qed

lemma rocketsPhase_prepend: "rocketsPhase (prepend ps s) = prepend ps (rocketsPhase s)"
proof -
  obtain kept s1 where fl: "filterRockets (rockets s) s = (kept, s1)"
    by (cases "filterRockets (rockets s) s") auto
  have b: "rockets (prepend ps s) = rockets s" by (simp add: prepend_def)
  have u: "(prepend ps s1)\<lparr>rockets := kept\<rparr> = prepend ps (s1\<lparr>rockets := kept\<rparr>)"
    by (simp add: prepend_def)
  show ?thesis using fl by (simp add: rocketsPhase_def b filterRockets_prepend u)
qed

lemma spawnPhase_prepend: "spawnPhase (prepend ps s) = prepend ps (spawnPhase s)"
  by (simp add: spawnPhase_def Let_def spawnEnemy_def consume_def rnd_def prepend_def)

lemma cooldownPhase_prepend: "cooldownPhase (prepend ps s) = prepend ps (cooldownPhase s)"
  by (simp add: cooldownPhase_def Let_def prepend_def)

lemma aimPhase_prepend: "aimPhase (prepend ps s) = prepend ps (aimPhase s)"
  by (simp add: aimPhase_def Let_def prepend_def)

lemma enemiesPhase_prepend: "enemiesPhase (prepend ps s) = prepend ps (enemiesPhase s)"
  by (simp add: enemiesPhase_def prepend_def)

lemma ageParticles_append: "ageParticles (ps @ qs) = ageParticles ps @ ageParticles qs"
  by (simp add: ageParticles_def)

lemma particlesPhase_prepend: "particlesPhase (prepend ps s) = prepend (ageParticles ps) (particlesPhase s)"
  by (simp add: particlesPhase_def prepend_def ageParticles_append)

lemma update_prepend: "update (prepend ps s) = prepend (ageParticles ps) (update s)"
  by (simp add: update_def spawnPhase_prepend cooldownPhase_prepend aimPhase_prepend
      enemiesPhase_prepend bulletsPhase_prepend rocketsPhase_prepend particlesPhase_prepend)

lemma animate_prepend: "animate (prepend ps s) = prepend (ageParticles ps) (animate s)"
  by (simp add: animate_update update_prepend) (simp add: prepend_def)

lemma fireBullet_prepend: "fireBullet (prepend ps s) = prepend ps (fireBullet s)"
proof (cases "0 < bulletCooldown s")
  case True
  then show ?thesis by (simp add: fireBullet_def prepend_def)
next
  case False
  have c: "bulletCooldown (prepend ps s) = bulletCooldown s" by (simp add: prepend_def)
  have f: "\<And>t. mouse (prepend ps t) = mouse t \<and> cannon (prepend ps t) = cannon t \<and>
      bullets (prepend ps t) = bullets t \<and> bulletsFired (prepend ps t) = bulletsFired t"
    by (simp add: prepend_def)
  have u1: "\<And>t v. (prepend ps t)\<lparr>bullets := v\<rparr> = prepend ps (t\<lparr>bullets := v\<rparr>)"
    by (simp add: prepend_def)
  have u2: "\<And>t v. (prepend ps t)\<lparr>bulletsFired := v\<rparr> = prepend ps (t\<lparr>bulletsFired := v\<rparr>)"
    by (simp add: prepend_def)
  have u3: "\<And>t v. (prepend ps t)\<lparr>bulletCooldown := v\<rparr> = prepend ps (t\<lparr>bulletCooldown := v\<rparr>)"
    by (simp add: prepend_def)
  show ?thesis using False
    by (simp add: fireBullet_def Let_def c playSound_prepend f u1 u2 u3 createMuzzleFlash_prepend
        updateStats_prepend)
qed

lemma fireRocket_prepend: "fireRocket (prepend ps s) = prepend ps (fireRocket s)"
proof (cases "0 < rocketCooldown s")
  case True
  then show ?thesis by (simp add: fireRocket_def prepend_def)
next
  case False
  have c: "rocketCooldown (prepend ps s) = rocketCooldown s" by (simp add: prepend_def)
  have f: "\<And>t. mouse (prepend ps t) = mouse t \<and> cannon (prepend ps t) = cannon t \<and>
      rockets (prepend ps t) = rockets t \<and> rocketsFired (prepend ps t) = rocketsFired t"
    by (simp add: prepend_def)
  have u1: "\<And>t v. (prepend ps t)\<lparr>rockets := v\<rparr> = prepend ps (t\<lparr>rockets := v\<rparr>)"
    by (simp add: prepend_def)
  have u2: "\<And>t v. (prepend ps t)\<lparr>rocketsFired := v\<rparr> = prepend ps (t\<lparr>rocketsFired := v\<rparr>)"
    by (simp add: prepend_def)
  have u3: "\<And>t v. (prepend ps t)\<lparr>rocketCooldown := v\<rparr> = prepend ps (t\<lparr>rocketCooldown := v\<rparr>)"
    by (simp add: prepend_def)
  show ?thesis using False
    by (simp add: fireRocket_def Let_def c playSound_prepend f u1 u2 u3 createMuzzleFlash_prepend
        updateStats_prepend)
qed

lemma step_prepend:
  "step e (prepend ps s) = prepend (if e = Tick then ageParticles ps else ps) (step e s)"
proof (cases e)
  case Tick then show ?thesis by (simp add: animate_prepend)
next
  case (MouseDown button)
  then show ?thesis by (simp add: handleClick_def fireBullet_prepend fireRocket_prepend)
next
  case (MouseMove cx cy) then show ?thesis by (simp add: prepend_def)
next
  case (Resize w h) then show ?thesis by (simp add: resizeCanvas_def Let_def prepend_def)
qed

lemma run_prepend:
  "run es (prepend ps s) = prepend ((ageParticles ^^ ticks es) ps) (run es s)"
proof (induction es arbitrary: ps s)
  case Nil show ?case by (simp add: ticks_def)
next
  case (Cons e es)
  show ?case
  proof (cases "e = Tick")
    case True
    then show ?thesis using Cons[of "ageParticles ps" "animate s"]
      by (simp add: step_prepend ticks_Cons funpow_swap1)
  next
    case False
    then show ?thesis using Cons[of ps "step e s"]
      by (simp add: step_prepend ticks_Cons)
  qed
qed

lemma run_particles:
  "particles (run es s) =
   (ageParticles ^^ ticks es) (particles s) @ particles (run es (s\<lparr>particles := []\<rparr>))"
proof -
  have "s = prepend (particles s) (s\<lparr>particles := []\<rparr>)" by (simp add: prepend_def)
  then have "run es s = run es (prepend (particles s) (s\<lparr>particles := []\<rparr>))" by simp
  then have "run es s = prepend ((ageParticles ^^ ticks es) (particles s)) (run es (s\<lparr>particles := []\<rparr>))"
    by (simp only: run_prepend)
  then have "particles (run es s) =
     particles (prepend ((ageParticles ^^ ticks es) (particles s)) (run es (s\<lparr>particles := []\<rparr>)))"
    by simp
  then show ?thesis by (simp add: prepend_def)
qed

lemma advanceParticle_life:
  "particle.life (advanceParticle p) = particle.life p - decay p \<and> decay (advanceParticle p) = decay p"
  by (simp add: advanceParticle_def)

lemma ageParticles_mem:
  "q \<in> set (ageParticles ps) \<longleftrightarrow> (\<exists>p \<in> set ps. q = advanceParticle p) \<and> 0 < particle.life q"
  by (auto simp: ageParticles_def)

lemma aged_n_bound:
  assumes "\<forall>p \<in> set ps. 0.02 \<le> decay p \<and> particle.life p \<le> c"
  shows "\<forall>q \<in> set ((ageParticles ^^ n) ps). 0.02 \<le> decay q \<and> particle.life q + 0.02 * real n \<le> c"
proof (induction n)
  case 0 show ?case using assms by simp
next
  case (Suc n)
  show ?case
  proof
    fix q assume "q \<in> set ((ageParticles ^^ Suc n) ps)"
    then have "q \<in> set (ageParticles ((ageParticles ^^ n) ps))" by simp
    then obtain p where p: "p \<in> set ((ageParticles ^^ n) ps)" and q: "q = advanceParticle p"
      using ageParticles_mem by blast
    have b: "0.02 \<le> decay p \<and> particle.life p + 0.02 * real n \<le> c" using Suc p by blast
    have l: "particle.life q = particle.life p - decay p" and d: "decay q = decay p"
      using q by (simp_all add: advanceParticle_life)
    have r: "real (Suc n) = real n + 1" by simp
    have b1: "0.02 \<le> decay p" and b2: "particle.life p + 0.02 * real n \<le> c"
      using b by blast+
    have "particle.life q + 0.02 * (real n + 1) \<le> c" using b1 b2 l by argo
    then show "0.02 \<le> decay q \<and> particle.life q + 0.02 * real (Suc n) \<le> c"
      using b d by (simp only: r)
  qed
qed

lemma aged_n_alive: "0 < n \<Longrightarrow> \<forall>q \<in> set ((ageParticles ^^ n) ps). 0 < particle.life q"
proof -
  assume "0 < n"
  then obtain k where k: "n = Suc k" by (cases n) auto
  show ?thesis unfolding k using ageParticles_mem by simp
qed

lemma ageParticles_Nil: "(ageParticles ^^ n) [] = []"
  by (induction n) (simp_all add: ageParticles_def)

lemma aged_out_at:
  assumes ok: "\<forall>p \<in> set ps. okParticle p"
  shows "(ageParticles ^^ 50) ps = []"
proof (cases "(ageParticles ^^ 50) ps")
  case Nil then show ?thesis .
next
  case (Cons q qs)
  then have m: "q \<in> set ((ageParticles ^^ 50) ps)" by simp
  have "\<forall>p \<in> set ps. 0.02 \<le> decay p \<and> particle.life p \<le> 1"
    using ok by (simp add: okParticle_def)
  then have "\<forall>q \<in> set ((ageParticles ^^ 50) ps). 0.02 \<le> decay q \<and> particle.life q + 0.02 * real 50 \<le> 1"
    by (rule aged_n_bound)
  then have "particle.life q + 0.02 * real 50 \<le> 1" using m by blast
  then have a: "particle.life q \<le> 0" by simp
  have "\<forall>q \<in> set ((ageParticles ^^ 50) ps). 0 < particle.life q"
    by (rule aged_n_alive) simp
  then have "0 < particle.life q" using m by blast
  then show ?thesis using a by simp
qed

lemma aged_out:
  assumes ok: "\<forall>p \<in> set ps. okParticle p" and n: "50 \<le> n"
  shows "(ageParticles ^^ n) ps = []"
proof -
  obtain m where m: "n = m + 50" using n by (auto simp: le_iff_add add.commute)
  have "(ageParticles ^^ (m + 50)) ps = (ageParticles ^^ m) ((ageParticles ^^ 50) ps)"
    by (simp only: funpow_add o_apply)
  then show ?thesis using m aged_out_at[OF ok] by (simp only: ageParticles_Nil)
qed

lemma grows_refl: "grows lo hi s s"
  by (simp add: grows_def)

lemma grows_same: "random s' = random s \<Longrightarrow> particles s' = particles s \<Longrightarrow> grows lo hi s' s"
  by (simp add: grows_def)

lemma grows_trans:
  assumes "grows lo hi s2 s1" and "grows lo hi s1 s"
  shows "grows lo hi s2 s"
proof -
  obtain n1 where n1: "particles s1 = particles s @ n1"
      "\<forall>p \<in> set n1. particle.life p = 1 \<and> lo \<le> decay p \<and> decay p < hi"
    using assms(2) by (auto simp: grows_def)
  obtain n2 where n2: "particles s2 = particles s1 @ n2"
      "\<forall>p \<in> set n2. particle.life p = 1 \<and> lo \<le> decay p \<and> decay p < hi"
    using assms(1) by (auto simp: grows_def)
  have "particles s2 = particles s @ (n1 @ n2)" using n1 n2 by simp
  moreover have "\<forall>p \<in> set (n1 @ n2). particle.life p = 1 \<and> lo \<le> decay p \<and> decay p < hi"
    using n1 n2 by auto
  moreover have "random s2 = random s" using assms by (simp add: grows_def)
  ultimately show ?thesis unfolding grows_def by blast
qed

lemma grows_weaken:
  assumes "grows lo hi s' s" and "lo' \<le> lo" and "hi \<le> hi'"
  shows "grows lo' hi' s' s"
proof -
  obtain n1 where n1: "particles s' = particles s @ n1"
      "\<forall>p \<in> set n1. particle.life p = 1 \<and> lo \<le> decay p \<and> decay p < hi"
    using assms(1) by (auto simp: grows_def)
  have "\<forall>p \<in> set n1. particle.life p = 1 \<and> lo' \<le> decay p \<and> decay p < hi'"
    using n1(2) assms(2,3) by fastforce
  moreover have "random s' = random s" using assms(1) by (simp add: grows_def)
  ultimately show ?thesis using n1(1) unfolding grows_def by blast
qed

lemma grows_randomOk: "grows lo hi s' s \<Longrightarrow> randomOk s \<Longrightarrow> randomOk s'"
  by (simp add: grows_def randomOk_def)

lemma rnd_range: "randomOk s \<Longrightarrow> 0 \<le> rnd k s \<and> rnd k s < 1"
  by (simp add: randomOk_def rnd_def)

lemma muzzleParticle_grows:
  assumes "randomOk s"
  shows "grows 0.02 0.04 (muzzleParticle px py ang col s) s"
proof -
  have r: "0 \<le> rnd 3 s \<and> rnd 3 s < 1" using assms by (rule rnd_range)
  obtain p where p: "particles (muzzleParticle px py ang col s) = particles s @ [p]"
      "particle.life p = 1" "decay p = 0.02 + rnd 3 s * 0.02"
    by (simp add: muzzleParticle_def Let_def consume_def)
  have "0.02 \<le> decay p \<and> decay p < 0.04" using r p(3) by simp
  then have "\<forall>q \<in> set [p]. particle.life q = 1 \<and> 0.02 \<le> decay q \<and> decay q < 0.04"
    using p(2) by simp
  moreover have "random (muzzleParticle px py ang col s) = random s"
    by (simp add: muzzleParticle_def Let_def consume_def)
  ultimately show ?thesis using p(1) unfolding grows_def by blast
qed

lemma muzzleLoop_grows: "randomOk s \<Longrightarrow> grows 0.02 0.04 (muzzleLoop n px py ang col s) s"
proof (induction n arbitrary: s)
  case 0 show ?case by (simp add: grows_refl)
next
  case (Suc n)
  have a: "grows 0.02 0.04 (muzzleParticle px py ang col s) s"
    using Suc.prems by (rule muzzleParticle_grows)
  then have "randomOk (muzzleParticle px py ang col s)" using Suc.prems by (rule grows_randomOk)
  then have "grows 0.02 0.04 (muzzleLoop n px py ang col (muzzleParticle px py ang col s))
      (muzzleParticle px py ang col s)"
    by (rule Suc.IH)
  then show ?case using a by (simp add: grows_trans)
qed

lemma createMuzzleFlash_grows:
  assumes "randomOk s"
  shows "grows 0.02 0.04 (createMuzzleFlash px py ang isR s) s"
  unfolding createMuzzleFlash_def Let_def using assms by (rule muzzleLoop_grows)

lemma explosionParticle_grows:
  assumes "randomOk s"
  shows "grows 0.03 0.06 (explosionParticle px py s) s"
proof -
  have r: "0 \<le> rnd 3 s \<and> rnd 3 s < 1" using assms by (rule rnd_range)
  obtain p where p: "particles (explosionParticle px py s) = particles s @ [p]"
      "particle.life p = 1" "decay p = 0.03 + rnd 3 s * 0.03"
    by (simp add: explosionParticle_def Let_def consume_def)
  have "0.03 \<le> decay p \<and> decay p < 0.06" using r p(3) by simp
  then have "\<forall>q \<in> set [p]. particle.life q = 1 \<and> 0.03 \<le> decay q \<and> decay q < 0.06"
    using p(2) by simp
  moreover have "random (explosionParticle px py s) = random s"
    by (simp add: explosionParticle_def Let_def consume_def)
  ultimately show ?thesis using p(1) unfolding grows_def by blast
qed

lemma explosionLoop_grows: "randomOk s \<Longrightarrow> grows 0.03 0.06 (explosionLoop n px py s) s"
proof (induction n arbitrary: s)
  case 0 show ?case by (simp add: grows_refl)
next
  case (Suc n)
  have a: "grows 0.03 0.06 (explosionParticle px py s) s"
    using Suc.prems by (rule explosionParticle_grows)
  then have "randomOk (explosionParticle px py s)" using Suc.prems by (rule grows_randomOk)
  then have "grows 0.03 0.06 (explosionLoop n px py (explosionParticle px py s))
      (explosionParticle px py s)"
    by (rule Suc.IH)
  then show ?case using a by (simp add: grows_trans)
qed

lemma createExplosion_grows:
  assumes "randomOk s"
  shows "grows 0.03 0.06 (createExplosion px py s) s"
proof -
  have a: "grows 0.03 0.06 (playSound Boom s) s" by (rule grows_same) (simp_all add: playSound_def)
  then have "randomOk (playSound Boom s)" using assms by (rule grows_randomOk)
  then have "grows 0.03 0.06 (explosionLoop 15 px py (playSound Boom s)) (playSound Boom s)"
    by (rule explosionLoop_grows)
  then show ?thesis unfolding createExplosion_def using a by (rule grows_trans)
qed

lemma thrustParticle_exact:
  "random (thrustParticle r1 s) = random s \<and>
   (\<exists>p. particles (thrustParticle r1 s) = particles s @ [p] \<and> particle.life p = 1 \<and> decay p = 0.05)"
  by (simp add: thrustParticle_def Let_def consume_def)

lemma thrustParticle_grows: "grows 0.02 0.06 (thrustParticle r1 s) s"
proof -
  obtain p where p: "particles (thrustParticle r1 s) = particles s @ [p]"
      "particle.life p = 1" "decay p = 0.05"
    using thrustParticle_exact by blast
  have "\<forall>q \<in> set [p]. particle.life q = 1 \<and> 0.02 \<le> decay q \<and> decay q < 0.06"
    using p by simp
  moreover have "random (thrustParticle r1 s) = random s" using thrustParticle_exact by blast
  ultimately show ?thesis using p(1) unfolding grows_def by blast
qed

lemma onHit_grows:
  assumes "randomOk s"
  shows "grows 0.02 0.06 (onHit pts i s) s"
proof -
  let ?c = "createExplosion (enemy.x (enemies s ! i)) (enemy.y (enemies s ! i)) s"
  have "grows 0.03 0.06 ?c s" using assms by (rule createExplosion_grows)
  then have a: "grows 0.02 0.06 ?c s" by (rule grows_weaken) simp_all
  have "grows 0.02 0.06 (onHit pts i s) ?c"
    by (rule grows_same) (simp_all add: onHit_def Let_def updateStats_def)
  then show ?thesis using a by (rule grows_trans)
qed

lemma collide_grows:
  assumes "randomOk s"
  shows "grows 0.02 0.06 (snd (collide px py pr pts s)) s"
proof (cases "hitScan px py pr (enemies s) (length (enemies s))")
  case None
  then have "snd (collide px py pr pts s) = s" by (simp add: collide_None)
  then show ?thesis by (simp only: grows_refl)
next
  case (Some i)
  then have "snd (collide px py pr pts s) = onHit pts i s" by (simp add: collide_Some)
  then show ?thesis using onHit_grows[OF assms, of pts i] by (simp only:)
qed

lemma bulletStep_grows: "randomOk s \<Longrightarrow> grows 0.02 0.06 (snd (snd (bulletStep b0 s))) s"
  unfolding bulletStep_state by (rule collide_grows)

lemma afterThrust_grows: "grows 0.02 0.06 (afterThrust r0 s) s"
proof (cases "thrustParticles (advanceRocket (mouse s) r0) mod 2 = 0")
  case True
  then have "afterThrust r0 s = thrustParticle (advanceRocket (mouse s) r0) s"
    by (simp add: afterThrust_def)
  then show ?thesis by (simp only: thrustParticle_grows)
next
  case False
  then have "afterThrust r0 s = s" by (simp add: afterThrust_def)
  then show ?thesis by (simp only: grows_refl)
qed

lemma rocketStep_grows:
  assumes "randomOk s"
  shows "grows 0.02 0.06 (snd (snd (rocketStep r0 s))) s"
proof -
  have a: "grows 0.02 0.06 (afterThrust r0 s) s" by (rule afterThrust_grows)
  then have "randomOk (afterThrust r0 s)" using assms by (rule grows_randomOk)
  then have "grows 0.02 0.06 (snd (collide (rocket.x (advanceRocket (mouse s) r0))
      (rocket.y (advanceRocket (mouse s) r0)) (rocket.radius (advanceRocket (mouse s) r0)) 25
      (afterThrust r0 s))) (afterThrust r0 s)"
    by (rule collide_grows)
  then show ?thesis unfolding rocketStep_state using a by (rule grows_trans)
qed

lemma filterBullets_grows: "randomOk s \<Longrightarrow> grows 0.02 0.06 (snd (filterBullets bs s)) s"
proof (induction bs arbitrary: s)
  case Nil show ?case by (simp add: grows_refl)
next
  case (Cons b0 bs)
  obtain keep b1 s1 where st: "bulletStep b0 s = (keep, b1, s1)"
    by (cases "bulletStep b0 s") auto
  obtain kept s2 where fl: "filterBullets bs s1 = (kept, s2)"
    by (cases "filterBullets bs s1") auto
  have a: "grows 0.02 0.06 s1 s" using bulletStep_grows[OF Cons.prems, of b0] st by simp
  then have "randomOk s1" using Cons.prems by (rule grows_randomOk)
  then have "grows 0.02 0.06 s2 s1" using Cons.IH[of s1] fl by simp
  then have "grows 0.02 0.06 s2 s" using a by (rule grows_trans)
  then show ?case using st fl by simp
qed

lemma filterRockets_grows: "randomOk s \<Longrightarrow> grows 0.02 0.06 (snd (filterRockets rs s)) s"
proof (induction rs arbitrary: s)
  case Nil show ?case by (simp add: grows_refl)
next
  case (Cons r0 rs)
  obtain keep r1 s1 where st: "rocketStep r0 s = (keep, r1, s1)"
    by (cases "rocketStep r0 s") auto
  obtain kept s2 where fl: "filterRockets rs s1 = (kept, s2)"
    by (cases "filterRockets rs s1") auto
  have a: "grows 0.02 0.06 s1 s" using rocketStep_grows[OF Cons.prems, of r0] st by simp
  then have "randomOk s1" using Cons.prems by (rule grows_randomOk)
  then have "grows 0.02 0.06 s2 s1" using Cons.IH[of s1] fl by simp
  then have "grows 0.02 0.06 s2 s" using a by (rule grows_trans)
  then show ?case using st fl by simp
qed

lemma bulletsPhase_grows:
  assumes "randomOk s"
  shows "grows 0.02 0.06 (bulletsPhase s) s"
proof -
  have a: "grows 0.02 0.06 (snd (filterBullets (bullets s) s)) s"
    using assms by (rule filterBullets_grows)
  have "grows 0.02 0.06 (bulletsPhase s) (snd (filterBullets (bullets s) s))"
    by (rule grows_same) (subst bulletsPhase_state, simp)+
  then show ?thesis using a by (rule grows_trans)
qed

lemma rocketsPhase_grows:
  assumes "randomOk s"
  shows "grows 0.02 0.06 (rocketsPhase s) s"
proof -
  have a: "grows 0.02 0.06 (snd (filterRockets (rockets s) s)) s"
    using assms by (rule filterRockets_grows)
  have "grows 0.02 0.06 (rocketsPhase s) (snd (filterRockets (rockets s) s))"
    by (rule grows_same) (subst rocketsPhase_state, simp)+
  then show ?thesis using a by (rule grows_trans)
qed

lemma beforeParticles_grows:
  assumes "randomOk s"
  shows "grows 0.02 0.06 (beforeParticles s) s"
proof -
  have a: "grows 0.02 0.06 (beforeBullets s) s"
    by (rule grows_same) (simp_all add: beforeBullets_keeps)
  then have r1: "randomOk (beforeBullets s)" using assms by (rule grows_randomOk)
  then have b: "grows 0.02 0.06 (beforeRockets s) (beforeBullets s)"
    unfolding beforeRockets_def by (rule bulletsPhase_grows)
  then have "randomOk (beforeRockets s)" using r1 by (rule grows_randomOk)
  then have c: "grows 0.02 0.06 (beforeParticles s) (beforeRockets s)"
    unfolding beforeParticles_def by (rule rocketsPhase_grows)
  show ?thesis using c b a by (blast intro: grows_trans)
qed

lemma grows_fresh:
  assumes "grows lo hi s' s"
  shows "fresh lo hi s' s"
proof -
  obtain new where n: "particles s' = particles s @ new"
      "\<forall>p \<in> set new. particle.life p = 1 \<and> lo \<le> decay p \<and> decay p < hi"
    using assms by (auto simp: grows_def)
  have "created s' s = new" using n(1) by (simp add: created_def)
  then show ?thesis using n by (simp add: fresh_def)
qed

lemma grows_ok:
  assumes g: "grows lo hi s' s" and lo: "0.02 \<le> lo" and ok: "particlesOk s"
  shows "particlesOk s'"
proof -
  obtain new where n: "particles s' = particles s @ new"
      "\<forall>p \<in> set new. particle.life p = 1 \<and> lo \<le> decay p \<and> decay p < hi"
    using g by (auto simp: grows_def)
  have "\<forall>p \<in> set new. okParticle p"
  proof
    fix p assume "p \<in> set new"
    then have "particle.life p = 1 \<and> lo \<le> decay p" using n(2) by blast
    then show "okParticle p" using lo by (simp add: okParticle_def)
  qed
  then have "\<forall>p \<in> set (particles s'). okParticle p" using ok n(1) by (auto simp: particlesOk_def)
  moreover have "randomOk s'" using g ok by (simp add: grows_def randomOk_def particlesOk_def)
  ultimately show ?thesis by (simp add: particlesOk_def)
qed

lemma ageParticles_ok:
  assumes "\<forall>p \<in> set ps. okParticle p"
  shows "\<forall>q \<in> set (ageParticles ps). okParticle q"
proof
  fix q assume "q \<in> set (ageParticles ps)"
  then obtain p where p: "p \<in> set ps" and q: "q = advanceParticle p"
    using ageParticles_mem by blast
  have "okParticle p" using assms p by blast
  then show "okParticle q" using q by (simp add: okParticle_def advanceParticle_life)
qed

lemma update_particles: "particles (update s) = ageParticles (particles (beforeParticles s))"
  by (simp add: update_phases particlesPhase_def)

lemma beforeParticles_ok:
  assumes "particlesOk s"
  shows "particlesOk (beforeParticles s)"
proof -
  have "randomOk s" using assms by (simp add: particlesOk_def)
  then have g: "grows 0.02 0.06 (beforeParticles s) s" by (rule beforeParticles_grows)
  show ?thesis by (rule grows_ok[OF g _ assms]) simp
qed

lemma update_ok:
  assumes "particlesOk s"
  shows "particlesOk (update s)"
proof -
  have b: "particlesOk (beforeParticles s)" using assms by (rule beforeParticles_ok)
  then have "\<forall>p \<in> set (particles (beforeParticles s)). okParticle p"
    by (simp add: particlesOk_def)
  then have "\<forall>q \<in> set (ageParticles (particles (beforeParticles s))). okParticle q"
    by (rule ageParticles_ok)
  moreover have "random (update s) = random (beforeParticles s)"
    by (simp add: update_phases particlesPhase_def)
  ultimately show ?thesis using b by (simp add: particlesOk_def randomOk_def update_particles)
qed

lemma fireBullet_grows:
  assumes "randomOk s"
  shows "grows 0.02 0.04 (fireBullet s) s \<and>
         (\<not> 0 < bulletCooldown s \<longrightarrow> length (particles (fireBullet s)) = length (particles s) + 10)"
proof (cases "0 < bulletCooldown s")
  case True
  then show ?thesis by (simp add: fireBullet_blocked grows_refl)
next
  case False
  obtain px py ang s4 where
    f: "fireBullet s = updateStats (createMuzzleFlash px py ang False s4)" and
    s4: "particles s4 = particles s" "random s4 = random s"
    using False by (simp add: fireBullet_def Let_def playSound_def)
  have r4: "randomOk s4" using assms s4 by (simp add: randomOk_def)
  have a: "grows 0.02 0.04 s4 s" using s4 by (simp add: grows_same)
  have b: "grows 0.02 0.04 (createMuzzleFlash px py ang False s4) s4"
    using r4 by (rule createMuzzleFlash_grows)
  have c: "grows 0.02 0.04 (fireBullet s) (createMuzzleFlash px py ang False s4)"
    unfolding f by (rule grows_same) (simp_all add: updateStats_def)
  have g: "grows 0.02 0.04 (fireBullet s) s" using c b a by (blast intro: grows_trans)
  have l: "\<And>n col t. length (particles (muzzleLoop n px py ang col t)) = length (particles t) + n"
  proof -
    fix n col t
    show "length (particles (muzzleLoop n px py ang col t)) = length (particles t) + n"
      by (induction n arbitrary: t) (simp_all add: muzzleParticle_def Let_def consume_def)
  qed
  have "length (particles (fireBullet s)) = length (particles s) + 10"
    unfolding f using s4 by (simp add: updateStats_def createMuzzleFlash_def l)
  then show ?thesis using g by simp
qed

lemma fireRocket_grows:
  assumes "randomOk s"
  shows "grows 0.02 0.04 (fireRocket s) s"
proof (cases "0 < rocketCooldown s")
  case True
  then show ?thesis by (simp add: fireRocket_blocked grows_refl)
next
  case False
  obtain px py ang s4 where
    f: "fireRocket s = updateStats (createMuzzleFlash px py ang True s4)" and
    s4: "particles s4 = particles s" "random s4 = random s"
    using False by (simp add: fireRocket_def Let_def playSound_def)
  have r4: "randomOk s4" using assms s4 by (simp add: randomOk_def)
  have a: "grows 0.02 0.04 s4 s" using s4 by (simp add: grows_same)
  have b: "grows 0.02 0.04 (createMuzzleFlash px py ang True s4) s4"
    using r4 by (rule createMuzzleFlash_grows)
  have c: "grows 0.02 0.04 (fireRocket s) (createMuzzleFlash px py ang True s4)"
    unfolding f by (rule grows_same) (simp_all add: updateStats_def)
  show ?thesis using c b a by (blast intro: grows_trans)
qed

lemma step_ok:
  assumes "particlesOk s"
  shows "particlesOk (step e s)"
proof (cases e)
  case Tick
  have "particlesOk (update s)" using assms by (rule update_ok)
  then have "particlesOk (animate s)" by (simp add: animate_update particlesOk_def randomOk_def)
  then show ?thesis using Tick by simp
next
  case (MouseDown button)
  have r: "randomOk s" using assms by (simp add: particlesOk_def)
  have a: "particlesOk (fireBullet s)"
    by (rule grows_ok[OF fireBullet_grows[OF r, THEN conjunct1] _ assms]) simp
  have b: "particlesOk (fireRocket s)"
    by (rule grows_ok[OF fireRocket_grows[OF r] _ assms]) simp
  show ?thesis using MouseDown a b assms by (simp add: handleClick_def)
next
  case (MouseMove cx cy)
  then show ?thesis using assms by (simp add: particlesOk_def randomOk_def)
next
  case (Resize w h)
  then show ?thesis using assms by (simp add: particlesOk_def randomOk_def resizeCanvas_def Let_def)
qed

lemma reachable_ok: "reachable s \<Longrightarrow> particlesOk s"
proof (induction rule: reachable.induct)
  case (init rs w h)
  have "particlesOk (resizeCanvas w h (constructorFields w h rs))"
    using init by (simp add: particlesOk_def randomOk_def resizeCanvas_def Let_def constructorFields_def)
  then have "particlesOk (update (resizeCanvas w h (constructorFields w h rs)))" by (rule update_ok)
  then show ?case by (simp add: CannonGame_def animate_update particlesOk_def randomOk_def)
next
  case (after s e)
  then show ?case by (simp add: step_ok)
qed

section \<open>Loop counts, rocket headings and spent projectiles\<close>

declare wrapDownIters.simps [simp del] wrapUpIters.simps [simp del]

lemma wrapDown_iters: "wrapDown d = d - real (wrapDownIters d) * (pi * 2)"
proof (induction d rule: wrapDown.induct)
  case (1 d)
  show ?case
  proof (cases "d > pi")
    case True
    then have ih: "wrapDown (d - pi * 2) = d - pi * 2 - real (wrapDownIters (d - pi * 2)) * (pi * 2)"
      using 1 by blast
    have a: "wrapDown d = wrapDown (d - pi * 2)" using True by (subst wrapDown.simps) simp
    have b: "wrapDownIters d = Suc (wrapDownIters (d - pi * 2))"
      using True by (subst wrapDownIters.simps) simp
    show ?thesis unfolding a b ih by (simp add: algebra_simps)
  next
    case False
    have a: "wrapDown d = d" using False by (subst wrapDown.simps) simp
    have b: "wrapDownIters d = 0" using False by (subst wrapDownIters.simps) simp
    show ?thesis unfolding a b by simp
  qed
qed

lemma wrapUp_iters: "wrapUp d = d + real (wrapUpIters d) * (pi * 2)"
proof (induction d rule: wrapUp.induct)
  case (1 d)
  show ?case
  proof (cases "d < - pi")
    case True
    then have ih: "wrapUp (d + pi * 2) = d + pi * 2 + real (wrapUpIters (d + pi * 2)) * (pi * 2)"
      using 1 by blast
    have a: "wrapUp d = wrapUp (d + pi * 2)" using True by (subst wrapUp.simps) simp
    have b: "wrapUpIters d = Suc (wrapUpIters (d + pi * 2))"
      using True by (subst wrapUpIters.simps) simp
    show ?thesis unfolding a b ih by (simp add: algebra_simps)
  next
    case False
    have a: "wrapUp d = d" using False by (subst wrapUp.simps) simp
    have b: "wrapUpIters d = 0" using False by (subst wrapUpIters.simps) simp
    show ?thesis unfolding a b by simp
  qed
qed

lemma wrapDownIters_bound: "d \<le> pi + pi * 2 * real k \<Longrightarrow> wrapDownIters d \<le> k"
proof (induction d arbitrary: k rule: wrapDownIters.induct)
  case (1 d)
  show ?case
  proof (cases "d > pi")
    case True
    have "0 < pi * 2 * real k" using True "1.prems" by linarith
    then have "0 < real k" using pi_gt_zero by (simp add: zero_less_mult_iff)
    then obtain j where j: "k = Suc j" by (cases k) auto
    have "d - pi * 2 \<le> pi + pi * 2 * real j" using "1.prems" j by (simp add: algebra_simps)
    then have "wrapDownIters (d - pi * 2) \<le> j" using "1.IH" True by blast
    then show ?thesis using True j by (subst wrapDownIters.simps) simp
  next
    case False
    then show ?thesis by (subst wrapDownIters.simps) simp
  qed
qed

lemma wrapUpIters_bound: "- pi - pi * 2 * real k \<le> d \<Longrightarrow> wrapUpIters d \<le> k"
proof (induction d arbitrary: k rule: wrapUpIters.induct)
  case (1 d)
  show ?case
  proof (cases "d < - pi")
    case True
    have "0 < pi * 2 * real k" using True "1.prems" by linarith
    then have "0 < real k" using pi_gt_zero by (simp add: zero_less_mult_iff)
    then obtain j where j: "k = Suc j" by (cases k) auto
    have "- pi - pi * 2 * real j \<le> d + pi * 2" using "1.prems" j by (simp add: algebra_simps)
    then have "wrapUpIters (d + pi * 2) \<le> j" using "1.IH" True by blast
    then show ?thesis using True j by (subst wrapUpIters.simps) simp
  next
    case False
    then show ?thesis by (subst wrapUpIters.simps) simp
  qed
qed

lemma wrapUp_from_below: "wrapUp (- pi - pi * 2 * real n) = - pi"
proof (induction n)
  case 0 show ?case by (simp add: wrapUp_id)
next
  case (Suc n)
  have lt: "- pi - pi * 2 * real (Suc n) < - pi" using pi_gt_zero by simp
  have "- pi - pi * 2 * real (Suc n) + pi * 2 = - pi - pi * 2 * real n" by (simp add: algebra_simps)
  then have "wrapUp (- pi - pi * 2 * real (Suc n)) = wrapUp (- pi - pi * 2 * real n)"
    using lt by (subst wrapUp.simps) (simp only: if_True)
  then show ?case using Suc by simp
qed

lemma normalizeAngle_minus_pi:
  "normalizeAngle d = - pi \<longleftrightarrow> (\<exists>n::nat. d = - pi - pi * 2 * real n)"
proof
  assume eq: "normalizeAngle d = - pi"
  have le: "d \<le> - pi"
  proof (rule ccontr)
    assume "\<not> d \<le> - pi"
    then have "- pi < wrapDown d" using wrapDown_gt by simp
    then have "- pi < normalizeAngle d" by (simp add: normalizeAngle_def wrapUp_id)
    then show False using eq by simp
  qed
  then have "d \<le> pi" using pi_gt_zero by linarith
  then have "wrapDown d = d" by (rule wrapDown_id)
  then have "d + real (wrapUpIters d) * (pi * 2) = - pi"
    using eq wrapUp_iters[of d] by (simp add: normalizeAngle_def)
  then have "d = - pi - pi * 2 * real (wrapUpIters d)" by (simp add: algebra_simps)
  then show "\<exists>n::nat. d = - pi - pi * 2 * real n" by blast
next
  assume "\<exists>n::nat. d = - pi - pi * 2 * real n"
  then obtain n :: nat where n: "d = - pi - pi * 2 * real n" by blast
  have "0 \<le> pi * 2 * real n" using pi_gt_zero by simp
  then have "d \<le> pi" using n pi_gt_zero by linarith
  then have "wrapDown d = d" by (rule wrapDown_id)
  then show "normalizeAngle d = - pi" using n wrapUp_from_below[of n] by (simp add: normalizeAngle_def)
qed

lemma atan2_bound: "- pi \<le> atan2 dy dx \<and> atan2 dy dx \<le> pi"
proof -
  have a: "- (pi / 2) < arctan (dy / dx)" "arctan (dy / dx) < pi / 2"
    by (rule arctan_lbound, rule arctan_ubound)
  have p: "0 < pi" by (rule pi_gt_zero)
  consider "dx > 0" | "dx < 0 \<and> dy \<ge> 0" | "dx < 0 \<and> dy < 0" | "dx = 0"
    by linarith
  then show ?thesis
  proof cases
    case 1 then show ?thesis using a p by (simp add: atan2_def)
  next
    case 2
    then have "dy / dx \<le> 0" by (simp add: divide_nonneg_neg)
    then have "arctan (dy / dx) \<le> 0" by (simp add: arctan_le_zero_iff)
    then show ?thesis using 2 a p by (simp add: atan2_def)
  next
    case 3
    then have "0 < dy / dx" by (simp add: divide_neg_neg)
    then have "0 < arctan (dy / dx)" by (simp add: zero_less_arctan_iff)
    then show ?thesis using 3 a p by (simp add: atan2_def)
  next
    case 4
    show ?thesis using 4 p by (simp add: atan2_def, intro impI, linarith)
  qed
qed

lemma normalizeAngle_range: "- pi \<le> normalizeAngle d \<and> normalizeAngle d \<le> pi"
proof -
  have ge: "- pi \<le> normalizeAngle d" by (simp add: normalizeAngle_def wrapUp_ge)
  have le: "normalizeAngle d \<le> pi"
  proof (cases "wrapDown d < - pi")
    case True then show ?thesis using wrapUp_lt[of "wrapDown d"] by (simp add: normalizeAngle_def)
  next
    case False then show ?thesis by (simp add: normalizeAngle_def wrapUp_id wrapDown_le)
  qed
  show ?thesis using ge le by blast
qed

lemma advanceRocket_ok:
  assumes ok: "rocketOk r0" and alive: "0 < rocket.life (advanceRocket m r0)"
  shows "rocketOk (advanceRocket m r0)"
proof -
  let ?d = "normalizeAngle (atan2 (point.y m - rocket.y r0) (point.x m - rocket.x r0) - rocket.angle r0)"
  have t: "thrustParticles (advanceRocket m r0) = thrustParticles r0 + 1"
    by (simp add: advanceRocket_def Let_def)
  have l: "rocket.life (advanceRocket m r0) = rocket.life r0 - 0.003"
    by (simp add: advanceRocket_def Let_def)
  have a: "rocket.angle (advanceRocket m r0) = rocket.angle r0 + ?d * 0.05"
    by (simp add: advanceRocket_def Let_def)
  have n: "\<bar>?d\<bar> \<le> pi" using normalizeAngle_range[of "atan2 (point.y m - rocket.y r0) (point.x m - rocket.x r0) - rocket.angle r0"]
    by linarith
  have o1: "0 \<le> thrustParticles r0" and o2: "rocket.life r0 = 1 - 0.003 * real_of_int (thrustParticles r0)"
    and o4: "\<bar>rocket.angle r0\<bar> \<le> pi + 0.05 * pi * real_of_int (thrustParticles r0)"
    using ok by (simp_all add: rocketOk_def)
  have c1: "0 \<le> thrustParticles (advanceRocket m r0)" using t o1 by simp
  have h3: "(0.003::real) = 3 / 1000" by simp
  have "rocket.life (advanceRocket m r0) = 1 - 3 / 1000 * (real_of_int (thrustParticles r0) + 1)"
    using l[unfolded h3] o2[unfolded h3] by argo
  then have c2: "rocket.life (advanceRocket m r0) = 1 - 0.003 * real_of_int (thrustParticles (advanceRocket m r0))"
    unfolding t h3 by simp
  have "\<bar>rocket.angle r0 + ?d * 0.05\<bar> \<le> \<bar>rocket.angle r0\<bar> + \<bar>?d\<bar> * 0.05"
    by (simp add: abs_mult abs_triangle_ineq[THEN order_trans])
  also have "\<dots> \<le> pi + 0.05 * pi * real_of_int (thrustParticles r0) + pi * 0.05"
    using o4 n by simp
  also have "\<dots> = pi + 0.05 * pi * real_of_int (thrustParticles r0 + 1)"
    by (simp add: field_simps)
  finally have c4: "\<bar>rocket.angle (advanceRocket m r0)\<bar>
       \<le> pi + 0.05 * pi * real_of_int (thrustParticles (advanceRocket m r0))"
    unfolding a t .
  show ?thesis unfolding rocketOk_def using c1 c2 alive c4 by blast
qed

lemma update_rockets_ok:
  assumes "\<forall>r0 \<in> set (rockets s). rocketOk r0"
  shows "\<forall>r1 \<in> set (rockets (update s)). rocketOk r1"
proof
  fix r1 assume "r1 \<in> set (rockets (update s))"
  then have "r1 \<in> set (filter (\<lambda>r1. rocket.life r1 > 0) (map (advanceRocket (mouse s)) (rockets s)))"
    using update_rockets[of s] by (rule subseq_mem[rotated])
  then obtain r0 where r0: "r0 \<in> set (rockets s)" "r1 = advanceRocket (mouse s) r0"
      and alive: "0 < rocket.life r1"
    by auto
  have "rocketOk r0" using assms r0(1) by blast
  then show "rocketOk r1" using alive unfolding r0(2) by (rule advanceRocket_ok)
qed

lemma fireRocket_rockets_ok:
  assumes "\<forall>r0 \<in> set (rockets s). rocketOk r0"
  shows "\<forall>r1 \<in> set (rockets (fireRocket s)). rocketOk r1"
proof (cases "0 < rocketCooldown s")
  case True
  then show ?thesis using assms by (simp add: fireRocket_blocked)
next
  case False
  obtain px py ang s4 rkt where
    f: "fireRocket s = updateStats (createMuzzleFlash px py ang True s4)" and
    s4: "rockets s4 = rockets s @ [rkt]" and
    rk: "thrustParticles rkt = 0" "rocket.life rkt = 1"
        "rocket.angle rkt = atan2 (point.y (mouse s) - cannon.y (cannon s)) (point.x (mouse s) - cannon.x (cannon s))"
    using False by (simp add: fireRocket_def Let_def playSound_def)
  have "\<bar>rocket.angle rkt\<bar> \<le> pi" unfolding rk(3)
    using atan2_bound[of "point.y (mouse s) - cannon.y (cannon s)" "point.x (mouse s) - cannon.x (cannon s)"]
    by linarith
  then have ok: "rocketOk rkt" using rk(1,2) by (simp add: rocketOk_def)
  have "sameBoard (createMuzzleFlash px py ang True s4) s4" by (rule createMuzzleFlash_board)
  then have "rockets (fireRocket s) = rockets s @ [rkt]"
    using f s4 by (simp add: updateStats_def sameBoard_def sameCore_def)
  then show ?thesis using assms ok by simp
qed

lemma step_rockets_ok:
  assumes "\<forall>r0 \<in> set (rockets s). rocketOk r0"
  shows "\<forall>r1 \<in> set (rockets (step e s)). rocketOk r1"
proof (cases e)
  case Tick
  have "rockets (animate s) = rockets (update s)" by (simp add: animate_update)
  then show ?thesis using Tick update_rockets_ok[OF assms] by simp
next
  case (MouseDown button)
  have "rockets (fireBullet s) = rockets s"
    using fireBullet_blocked[of s] fireBullet_fires[of s] by (cases "0 < bulletCooldown s") auto
  then show ?thesis using MouseDown assms fireRocket_rockets_ok[OF assms]
    by (simp add: handleClick_def)
next
  case (MouseMove cx cy) then show ?thesis using assms by simp
next
  case (Resize w h) then show ?thesis using assms by (simp add: resizeCanvas_def Let_def)
qed

lemma reachable_rockets_ok: "reachable s \<Longrightarrow> \<forall>r0 \<in> set (rockets s). rocketOk r0"
proof (induction rule: reachable.induct)
  case (init rs w h)
  have "\<forall>r0 \<in> set (rockets (resizeCanvas w h (constructorFields w h rs))). rocketOk r0"
    by (simp add: resizeCanvas_def Let_def constructorFields_def)
  then have "\<forall>r1 \<in> set (rockets (update (resizeCanvas w h (constructorFields w h rs)))). rocketOk r1"
    by (rule update_rockets_ok)
  then show ?case by (simp add: CannonGame_def animate_update)
next
  case (after s e)
  then show ?case by (simp add: step_rockets_ok)
qed

lemma rocketOk_diff:
  assumes "rocketOk r0"
  shows "\<bar>atan2 dy dx - rocket.angle r0\<bar> \<le> 19 * pi"
proof -
  have o: "0 \<le> thrustParticles r0" "rocket.life r0 = 1 - 0.003 * real_of_int (thrustParticles r0)"
      "0 < rocket.life r0"
      "\<bar>rocket.angle r0\<bar> \<le> pi + 0.05 * pi * real_of_int (thrustParticles r0)"
    using assms by (simp_all add: rocketOk_def)
  have h3: "(0.003::real) = 3 / 1000" by simp
  have "3 / 1000 * real_of_int (thrustParticles r0) < 1" using o(2,3) unfolding h3 by argo
  then have "real_of_int (thrustParticles r0) < 334" by argo
  then have "thrustParticles r0 < 334" by linarith
  then have tp: "real_of_int (thrustParticles r0) \<le> 333" by linarith
  have p: "0 \<le> 0.05 * pi" using pi_gt_zero by simp
  have "0.05 * pi * real_of_int (thrustParticles r0) \<le> 0.05 * pi * 333"
    using tp p by (rule mult_left_mono)
  then have a: "\<bar>rocket.angle r0\<bar> \<le> pi + 0.05 * pi * 333" using o(4) by linarith
  have b: "\<bar>atan2 dy dx\<bar> \<le> pi" using atan2_bound[of dy dx] by linarith
  have "\<bar>atan2 dy dx - rocket.angle r0\<bar> \<le> \<bar>atan2 dy dx\<bar> + \<bar>rocket.angle r0\<bar>"
    by (rule abs_triangle_ineq4)
  also have "\<dots> \<le> pi + (pi + 0.05 * pi * 333)" using a b by linarith
  also have "\<dots> \<le> 19 * pi" using pi_gt_zero by simp
  finally show ?thesis .
qed

lemma loops_bound:
  assumes "\<bar>d\<bar> \<le> pi + pi * 2 * real k"
  shows "wrapDownIters d \<le> k \<and> wrapUpIters (wrapDown d) \<le> k"
proof -
  have a: "wrapDownIters d \<le> k" using assms by (intro wrapDownIters_bound) linarith
  have b: "wrapUpIters (wrapDown d) \<le> k"
  proof (cases "d \<le> pi")
    case True
    then have "wrapDown d = d" by (rule wrapDown_id)
    moreover have "wrapUpIters d \<le> k" using assms by (intro wrapUpIters_bound) linarith
    ultimately show ?thesis by simp
  next
    case False
    then have "- pi < d" using pi_gt_zero by linarith
    then have "- pi < wrapDown d" by (rule wrapDown_gt)
    then have "wrapUpIters (wrapDown d) = 0" by (subst wrapUpIters.simps) simp
    then show ?thesis by simp
  qed
  show ?thesis using a b by blast
qed

lemma filterBullets_Cons:
  "filterBullets (b0 # bs) s =
     (if fst (bulletStep b0 s)
      then advanceBullet b0 # fst (filterBullets bs (snd (snd (bulletStep b0 s))))
      else fst (filterBullets bs (snd (snd (bulletStep b0 s)))),
      snd (filterBullets bs (snd (snd (bulletStep b0 s)))))"
proof -
  obtain keep b1 s1 where st: "bulletStep b0 s = (keep, b1, s1)"
    by (cases "bulletStep b0 s") auto
  obtain kept s2 where fl: "filterBullets bs s1 = (kept, s2)"
    by (cases "filterBullets bs s1") auto
  have "b1 = advanceBullet b0" using bulletStep_bullet[of b0 s] st by simp
  then show ?thesis using st fl by simp
qed

lemma filterRockets_Cons:
  "filterRockets (r0 # rs) s =
     (if fst (rocketStep r0 s)
      then advanceRocket (mouse s) r0 # fst (filterRockets rs (snd (snd (rocketStep r0 s))))
      else fst (filterRockets rs (snd (snd (rocketStep r0 s)))),
      snd (filterRockets rs (snd (snd (rocketStep r0 s)))))"
proof -
  obtain keep r1 s1 where st: "rocketStep r0 s = (keep, r1, s1)"
    by (cases "rocketStep r0 s") auto
  obtain kept s2 where fl: "filterRockets rs s1 = (kept, s2)"
    by (cases "filterRockets rs s1") auto
  have "r1 = advanceRocket (mouse s) r0" using rocketStep_rocket[of r0 s] st by simp
  then show ?thesis using st fl by simp
qed

lemma collide_drop:
  "(if fst (collide px py pr pts s) then 1 else 0) + length (enemies (snd (collide px py pr pts s)))
     = length (enemies s)"
proof (cases "hitScan px py pr (enemies s) (length (enemies s))")
  case None
  then show ?thesis by (simp add: collide_None)
next
  case (Some i)
  then have i: "i < length (enemies s)" by (rule hitScan_bound)
  have "length (enemies (onHit pts i s)) + 1 = length (enemies s)"
    using onHit_board[OF i, of pts] by blast
  then show ?thesis using Some by (simp add: collide_Some)
qed

lemma bulletStep_drop:
  "(if fst (bulletStep b0 s) then 1 else 0) + length (enemies s)
     \<le> 1 + length (enemies (snd (snd (bulletStep b0 s))))"
proof -
  let ?c = "collide (bullet.x (advanceBullet b0)) (bullet.y (advanceBullet b0))
      (bullet.radius (advanceBullet b0)) 10 s"
  have d: "(if fst ?c then 1 else 0) + length (enemies (snd ?c)) = length (enemies s)"
    by (rule collide_drop)
  have st: "snd (snd (bulletStep b0 s)) = snd ?c" by (rule bulletStep_state)
  show ?thesis
  proof (cases "fst ?c")
    case True
    then have "\<not> fst (bulletStep b0 s)" by (rule bulletStep_crash)
    then show ?thesis using d True st by simp
  next
    case False
    then show ?thesis using d st by simp
  qed
qed

lemma rocketStep_drop:
  "(if fst (rocketStep r0 s) then 1 else 0) + length (enemies s)
     \<le> 1 + length (enemies (snd (snd (rocketStep r0 s))))"
proof -
  let ?c = "collide (rocket.x (advanceRocket (mouse s) r0)) (rocket.y (advanceRocket (mouse s) r0))
      (rocket.radius (advanceRocket (mouse s) r0)) 25 (afterThrust r0 s)"
  have e: "enemies (afterThrust r0 s) = enemies s"
    using afterThrust_board[of r0 s] by (simp add: sameBoard_def)
  have d: "(if fst ?c then 1 else 0) + length (enemies (snd ?c)) = length (enemies s)"
    using collide_drop[of "rocket.x (advanceRocket (mouse s) r0)" "rocket.y (advanceRocket (mouse s) r0)"
        "rocket.radius (advanceRocket (mouse s) r0)" 25 "afterThrust r0 s"] e by simp
  have st: "snd (snd (rocketStep r0 s)) = snd ?c" by (rule rocketStep_state)
  show ?thesis
  proof (cases "fst ?c")
    case True
    then have "\<not> fst (rocketStep r0 s)" by (rule rocketStep_crash)
    then show ?thesis using d True st by simp
  next
    case False
    then show ?thesis using d st by simp
  qed
qed

lemma filterBullets_length:
  "length (fst (filterBullets bs s)) + length (enemies s)
     \<le> length bs + length (enemies (snd (filterBullets bs s)))"
proof (induction bs arbitrary: s)
  case Nil show ?case by simp
next
  case (Cons b0 bs)
  let ?s1 = "snd (snd (bulletStep b0 s))"
  have ih: "length (fst (filterBullets bs ?s1)) + length (enemies ?s1)
     \<le> length bs + length (enemies (snd (filterBullets bs ?s1)))" by (rule Cons)
  have d: "(if fst (bulletStep b0 s) then 1 else 0) + length (enemies s) \<le> 1 + length (enemies ?s1)"
    by (rule bulletStep_drop)
  show ?case
  proof (cases "fst (bulletStep b0 s)")
    case True
    then show ?thesis using ih d by (simp add: filterBullets_Cons del: filterBullets.simps)
  next
    case False
    then show ?thesis using ih d by (simp add: filterBullets_Cons del: filterBullets.simps)
  qed
qed

lemma filterRockets_length:
  "length (fst (filterRockets rs s)) + length (enemies s)
     \<le> length rs + length (enemies (snd (filterRockets rs s)))"
proof (induction rs arbitrary: s)
  case Nil show ?case by simp
next
  case (Cons r0 rs)
  let ?s1 = "snd (snd (rocketStep r0 s))"
  have ih: "length (fst (filterRockets rs ?s1)) + length (enemies ?s1)
     \<le> length rs + length (enemies (snd (filterRockets rs ?s1)))" by (rule Cons)
  have d: "(if fst (rocketStep r0 s) then 1 else 0) + length (enemies s) \<le> 1 + length (enemies ?s1)"
    by (rule rocketStep_drop)
  show ?case
  proof (cases "fst (rocketStep r0 s)")
    case True
    then show ?thesis using ih d by (simp add: filterRockets_Cons del: filterRockets.simps)
  next
    case False
    then show ?thesis using ih d by (simp add: filterRockets_Cons del: filterRockets.simps)
  qed
qed

lemma update_bullets_eq: "bullets (update s) = fst (filterBullets (bullets s) (beforeBullets s))"
proof -
  have a: "bullets (update s) = bullets (beforeRockets s)"
    using rocketsPhase_core[of "beforeRockets s"]
    by (simp add: update_phases particlesPhase_def beforeParticles_def sameCore_def)
  have "bullets (beforeRockets s) = fst (filterBullets (bullets s) (beforeBullets s))"
    by (simp add: beforeRockets_def bulletsPhase_bullets beforeBullets_keeps)
  then show ?thesis using a by simp
qed

lemma beforeRockets_rockets: "rockets (beforeRockets s) = rockets s"
proof -
  have c: "sameCore (beforeRockets s) ((beforeBullets s)\<lparr>bullets := bullets (beforeRockets s)\<rparr>)"
    unfolding beforeRockets_def by (rule bulletsPhase_core)
  then show ?thesis by (simp add: sameCore_def beforeBullets_keeps)
qed

lemma update_rockets_eq: "rockets (update s) = fst (filterRockets (rockets s) (beforeRockets s))"
proof -
  have a: "rockets (update s) = rockets (beforeParticles s)"
    by (simp add: update_phases particlesPhase_def)
  have "rockets (beforeParticles s) = fst (filterRockets (rockets s) (beforeRockets s))"
    by (simp add: beforeParticles_def rocketsPhase_rockets beforeRockets_rockets)
  then show ?thesis using a by simp
qed

lemma beforeRockets_enemies:
  "enemies (beforeRockets s) = enemies (snd (filterBullets (bullets s) (beforeBullets s)))"
proof -
  have "enemies (bulletsPhase (beforeBullets s)) =
      enemies (snd (filterBullets (bullets (beforeBullets s)) (beforeBullets s)))"
    by (subst bulletsPhase_state) simp
  then show ?thesis by (simp add: beforeRockets_def beforeBullets_keeps)
qed

lemma beforeParticles_enemies:
  "enemies (beforeParticles s) = enemies (snd (filterRockets (rockets s) (beforeRockets s)))"
proof -
  have "enemies (rocketsPhase (beforeRockets s)) =
      enemies (snd (filterRockets (rockets (beforeRockets s)) (beforeRockets s)))"
    by (subst rocketsPhase_state) simp
  then show ?thesis by (simp add: beforeParticles_def beforeRockets_rockets)
qed

lemma update_projectiles_spent:
  "length (bullets (update s)) + bulletKills s \<le> length (bullets s) \<and>
   length (rockets (update s)) + rocketKills s \<le> length (rockets s)"
proof -
  have a: "length (bullets (update s)) + length (enemies (beforeBullets s))
      \<le> length (bullets s) + length (enemies (beforeRockets s))"
    using filterBullets_length[of "bullets s" "beforeBullets s"]
    by (simp add: update_bullets_eq beforeRockets_enemies)
  have b: "length (rockets (update s)) + length (enemies (beforeRockets s))
      \<le> length (rockets s) + length (enemies (beforeParticles s))"
    using filterRockets_length[of "rockets s" "beforeRockets s"]
    by (simp add: update_rockets_eq beforeParticles_enemies)
  have a': "length (enemies (beforeRockets s)) \<le> length (enemies (beforeBullets s))"
    using bulletsPhase_count[of "beforeBullets s"] by (simp add: beforeRockets_def)
  have b': "length (enemies (beforeParticles s)) \<le> length (enemies (beforeRockets s))"
    using rocketsPhase_count[of "beforeRockets s"] by (simp add: beforeParticles_def)
  have c: "length (bullets (update s)) + bulletKills s \<le> length (bullets s)"
    unfolding bulletKills_def using a a' by linarith
  have d: "length (rockets (update s)) + rocketKills s \<le> length (rockets s)"
    unfolding rocketKills_def using b b' by linarith
  show ?thesis using c d by (rule conjI)
qed

section \<open>Claims\<close>

text \<open>
  C9. The viewport resize writes the canvas dimensions and the cannon's anchor
  (the new bottom centre: half the width, 40 above the bottom) and nothing else: the
  stores of bullets, rockets, particles and enemies, with every field of every entity,
  are the same after the resize.
\<close>

theorem resizeCanvas_frame:
  "resizeCanvas w h s =
     s\<lparr>canvas_width := w, canvas_height := h,
       cannon := (cannon s)\<lparr>cannon.x := w / 2, cannon.y := h - 40\<rparr>\<rparr> \<and>
   bullets (resizeCanvas w h s) = bullets s \<and>
   rockets (resizeCanvas w h s) = rockets s \<and>
   particles (resizeCanvas w h s) = particles s \<and>
   enemies (resizeCanvas w h s) = enemies s"
  by (simp add: resizeCanvas_def Let_def)

text \<open>
  C1. The test of a projectile against an enemy succeeds exactly when the distance
  between the two centres is strictly less than the sum of the radii; at a distance
  equal to the sum it fails. The collision loop of a projectile reports a crash exactly
  when some enemy of the store is that close.
\<close>

theorem collision_test_exact:
  "(hits px py pr e \<longleftrightarrow> centerDistance px py (enemy.x e) (enemy.y e) < pr + enemy.radius e) \<and>
   (centerDistance px py (enemy.x e) (enemy.y e) = pr + enemy.radius e \<longrightarrow> \<not> hits px py pr e) \<and>
   (fst (collide px py pr pts s) \<longleftrightarrow>
      (\<exists>e' \<in> set (enemies s).
         centerDistance px py (enemy.x e') (enemy.y e') < pr + enemy.radius e'))"
proof -
  have a: "\<And>e'. hits px py pr e' \<longleftrightarrow>
      centerDistance px py (enemy.x e') (enemy.y e') < pr + enemy.radius e'"
    by (simp add: hits_def centerDistance_def Let_def power2_eq_square add.commute)
  have b: "centerDistance px py (enemy.x e) (enemy.y e) = pr + enemy.radius e \<longrightarrow> \<not> hits px py pr e"
    by (simp add: a)
  have c: "fst (collide px py pr pts s) \<longleftrightarrow> (\<exists>e' \<in> set (enemies s). hits px py pr e')"
    by (rule collide_crashed)
  show ?thesis using a b c by simp
qed

theorem collision_test_exact_witness:
  "centerDistance 3 4 0 0 = 4 + 1 \<and>
   \<not> hits 3 4 4 \<lparr>enemy.x = 0, enemy.y = 0, enemy.vy = 1, enemy.radius = 1, rotation = 0,
                  rotationSpeed = 0, enemy.color = 0\<rparr> \<and>
   hits 3 4 5 \<lparr>enemy.x = 0, enemy.y = 0, enemy.vy = 1, enemy.radius = 1, rotation = 0,
                rotationSpeed = 0, enemy.color = 0\<rparr>"
proof -
  have d: "centerDistance 3 4 0 0 = 5" by (simp add: centerDistance_def)
  show ?thesis
    using collision_test_exact[of 3 4 4 "\<lparr>enemy.x = 0, enemy.y = 0, enemy.vy = 1, enemy.radius = 1,
        rotation = 0, rotationSpeed = 0, enemy.color = 0\<rparr>"]
      collision_test_exact[of 3 4 5 "\<lparr>enemy.x = 0, enemy.y = 0, enemy.vy = 1, enemy.radius = 1,
        rotation = 0, rotationSpeed = 0, enemy.color = 0\<rparr>"] d
    by simp
qed

text \<open>
  C4, as the claim states it, fails: the normalisation of the angle difference
  \<open>-\<pi>\<close> is \<open>-\<pi>\<close>, so the result is not always above \<open>-\<pi>\<close>.
\<close>

theorem normalizeAngle_boundary: "\<not> (- pi < normalizeAngle (- pi) \<and> normalizeAngle (- pi) \<le> pi)"
  by (simp add: normalizeAngle_def wrapDown_id wrapUp_id)

text \<open>
  C4, amended. The two loops turn an angle difference \<open>d\<close> into a value of the closed
  interval \<open>[-\<pi>, \<pi>]\<close> that differs from \<open>d\<close> by a multiple of \<open>2\<pi>\<close> (the first
  loop subtracts \<open>2\<pi>\<close> once per run of its body, the second adds it). The value is
  above \<open>-\<pi>\<close> when \<open>d\<close> is, below \<open>\<pi>\<close> when \<open>d\<close> is at most \<open>-\<pi>\<close>, and \<open>d\<close> itself
  when \<open>d\<close> lies in \<open>[-\<pi>, \<pi>]\<close>; it is \<open>-\<pi>\<close> exactly when \<open>d\<close> is \<open>-\<pi> - 2\<pi>n\<close> for a
  natural number \<open>n\<close>. For \<open>|d| \<le> \<pi> + 2\<pi>j\<close> the body of each loop runs at most \<open>j\<close>
  times. In every state a session can reach, the angle difference of every stored
  rocket, whatever the pointer position, has magnitude at most \<open>19\<pi>\<close>, so that each
  loop body runs at most 9 times.
\<close>

theorem normalizeAngle_closed_interval:
  "- pi \<le> normalizeAngle d \<and> normalizeAngle d \<le> pi \<and>
   (\<exists>k::int. normalizeAngle d = d + 2 * pi * of_int k) \<and>
   normalizeAngle d =
     d - real (wrapDownIters d) * (pi * 2) + real (wrapUpIters (wrapDown d)) * (pi * 2) \<and>
   (- pi < d \<longrightarrow> - pi < normalizeAngle d) \<and>
   (d \<le> - pi \<longrightarrow> normalizeAngle d < pi) \<and>
   (- pi \<le> d \<and> d \<le> pi \<longrightarrow> normalizeAngle d = d) \<and>
   (normalizeAngle d = - pi \<longleftrightarrow> (\<exists>n::nat. d = - pi - pi * 2 * real n)) \<and>
   (\<bar>d\<bar> \<le> pi + pi * 2 * real j \<longrightarrow> wrapDownIters d \<le> j \<and> wrapUpIters (wrapDown d) \<le> j) \<and>
   (reachable s \<longrightarrow>
      (\<forall>r0 \<in> set (rockets s).
         \<bar>atan2 (point.y m - rocket.y r0) (point.x m - rocket.x r0) - rocket.angle r0\<bar> \<le> 19 * pi \<and>
         wrapDownIters (atan2 (point.y m - rocket.y r0) (point.x m - rocket.x r0) - rocket.angle r0) \<le> 9 \<and>
         wrapUpIters (wrapDown (atan2 (point.y m - rocket.y r0) (point.x m - rocket.x r0) - rocket.angle r0)) \<le> 9))"
proof -
  have rg: "- pi \<le> normalizeAngle d \<and> normalizeAngle d \<le> pi" by (rule normalizeAngle_range)
  obtain k1 :: int where k1: "wrapDown d = d + 2 * pi * of_int k1" using wrapDown_cong by blast
  obtain k2 :: int where k2: "wrapUp (wrapDown d) = wrapDown d + 2 * pi * of_int k2"
    using wrapUp_cong by blast
  have "normalizeAngle d = d + 2 * pi * of_int (k1 + k2)"
    using k1 k2 by (simp add: normalizeAngle_def algebra_simps)
  then have cong: "\<exists>k::int. normalizeAngle d = d + 2 * pi * of_int k" by blast
  have cnt: "normalizeAngle d =
     d - real (wrapDownIters d) * (pi * 2) + real (wrapUpIters (wrapDown d)) * (pi * 2)"
    using wrapUp_iters[of "wrapDown d"] wrapDown_iters[of d] by (simp add: normalizeAngle_def)
  have gt: "- pi < d \<longrightarrow> - pi < normalizeAngle d"
  proof
    assume "- pi < d"
    then have "- pi < wrapDown d" by (rule wrapDown_gt)
    then show "- pi < normalizeAngle d" by (simp add: normalizeAngle_def wrapUp_id)
  qed
  have lt: "d \<le> - pi \<longrightarrow> normalizeAngle d < pi"
  proof
    assume a: "d \<le> - pi"
    have p: "0 < pi" by (rule pi_gt_zero)
    from a p have "d \<le> pi" by linarith
    then have w: "wrapDown d = d" by (rule wrapDown_id)
    show "normalizeAngle d < pi"
    proof (cases "d < - pi")
      case True then show ?thesis using w wrapUp_lt[of d] by (simp add: normalizeAngle_def)
    next
      case False
      then have "d = - pi" using a by simp
      then show ?thesis using p by (simp add: normalizeAngle_def wrapDown_id wrapUp_id)
    qed
  qed
  have idm: "- pi \<le> d \<and> d \<le> pi \<longrightarrow> normalizeAngle d = d"
    by (simp add: normalizeAngle_def wrapDown_id wrapUp_id)
  have mp: "normalizeAngle d = - pi \<longleftrightarrow> (\<exists>n::nat. d = - pi - pi * 2 * real n)"
    by (rule normalizeAngle_minus_pi)
  have lb: "\<bar>d\<bar> \<le> pi + pi * 2 * real j \<longrightarrow> wrapDownIters d \<le> j \<and> wrapUpIters (wrapDown d) \<le> j"
    using loops_bound[of d j] by blast
  have rb: "reachable s \<longrightarrow>
      (\<forall>r0 \<in> set (rockets s).
         \<bar>atan2 (point.y m - rocket.y r0) (point.x m - rocket.x r0) - rocket.angle r0\<bar> \<le> 19 * pi \<and>
         wrapDownIters (atan2 (point.y m - rocket.y r0) (point.x m - rocket.x r0) - rocket.angle r0) \<le> 9 \<and>
         wrapUpIters (wrapDown (atan2 (point.y m - rocket.y r0) (point.x m - rocket.x r0) - rocket.angle r0)) \<le> 9)"
  proof (intro impI ballI)
    fix r0 assume re: "reachable s" and mem: "r0 \<in> set (rockets s)"
    have "rocketOk r0" using reachable_rockets_ok[OF re] mem by blast
    then have b: "\<bar>atan2 (point.y m - rocket.y r0) (point.x m - rocket.x r0) - rocket.angle r0\<bar> \<le> 19 * pi"
      by (rule rocketOk_diff)
    have "19 * pi = pi + pi * 2 * real 9" by simp
    then have "\<bar>atan2 (point.y m - rocket.y r0) (point.x m - rocket.x r0) - rocket.angle r0\<bar> \<le> pi + pi * 2 * real 9"
      using b by (simp only:)
    then have "wrapDownIters (atan2 (point.y m - rocket.y r0) (point.x m - rocket.x r0) - rocket.angle r0) \<le> 9 \<and>
         wrapUpIters (wrapDown (atan2 (point.y m - rocket.y r0) (point.x m - rocket.x r0) - rocket.angle r0)) \<le> 9"
      by (rule loops_bound)
    then show "\<bar>atan2 (point.y m - rocket.y r0) (point.x m - rocket.x r0) - rocket.angle r0\<bar> \<le> 19 * pi \<and>
         wrapDownIters (atan2 (point.y m - rocket.y r0) (point.x m - rocket.x r0) - rocket.angle r0) \<le> 9 \<and>
         wrapUpIters (wrapDown (atan2 (point.y m - rocket.y r0) (point.x m - rocket.x r0) - rocket.angle r0)) \<le> 9"
      using b by blast
  qed
  show ?thesis using rg cong cnt gt lt idm mp lb rb by blast
qed

theorem normalizeAngle_closed_interval_witness:
  "- pi < 3 * pi \<and> normalizeAngle (3 * pi) = pi \<and>
   - (3 * pi) \<le> - pi \<and> normalizeAngle (- (3 * pi)) = - pi \<and> normalizeAngle (- (3 * pi)) < pi \<and>
   - pi \<le> 0 \<and> 0 \<le> pi \<and> normalizeAngle 0 = 0 \<and>
   normalizeAngle (- (2 * pi)) = 0 \<and>
   \<bar>3 * pi\<bar> \<le> pi + pi * 2 * real 1 \<and> wrapDownIters (3 * pi) \<le> 1 \<and>
   reachable (fireRocket (CannonGame 800 600 (\<lambda>i. 0))) \<and>
   hd (rockets (fireRocket (CannonGame 800 600 (\<lambda>i. 0)))) \<in> set (rockets (fireRocket (CannonGame 800 600 (\<lambda>i. 0)))) \<and>
   wrapDownIters
     (atan2 (point.y (mouse (fireRocket (CannonGame 800 600 (\<lambda>i. 0)))) - rocket.y (hd (rockets (fireRocket (CannonGame 800 600 (\<lambda>i. 0))))))
        (point.x (mouse (fireRocket (CannonGame 800 600 (\<lambda>i. 0)))) - rocket.x (hd (rockets (fireRocket (CannonGame 800 600 (\<lambda>i. 0)))))) -
      rocket.angle (hd (rockets (fireRocket (CannonGame 800 600 (\<lambda>i. 0)))))) \<le> 9"
proof -
  have a: "wrapDown (3 * pi) = pi"
    by (subst wrapDown.simps) (simp add: wrapDown_id)
  have b: "wrapUp (- (3 * pi)) = - pi"
    by (subst wrapUp.simps) (simp add: wrapUp_id)
  have c: "normalizeAngle (3 * pi) = pi" by (simp add: normalizeAngle_def a wrapUp_id)
  have d: "normalizeAngle (- (3 * pi)) = - pi" by (simp add: normalizeAngle_def b wrapDown_id)
  have e: "wrapUp (- (2 * pi)) = 0"
    by (subst wrapUp.simps) (simp add: wrapUp_id)
  have f: "normalizeAngle (- (2 * pi)) = 0" by (simp add: normalizeAngle_def e wrapDown_id)
  have g: "\<bar>3 * pi\<bar> \<le> pi + pi * 2 * real 1" by simp
  have r0: "reachable (CannonGame 800 600 (\<lambda>i. 0))" by (rule reachable.init) simp
  then have "reachable (step (MouseDown 2) (CannonGame 800 600 (\<lambda>i. 0)))" by (rule reachable.after)
  then have r: "reachable (fireRocket (CannonGame 800 600 (\<lambda>i. 0)))" by (simp add: handleClick_def)
  have cd: "\<not> 0 < rocketCooldown (CannonGame 800 600 (\<lambda>i. 0))"
    by (simp add: CannonGame_def animate_update update_keeps cooldownPhase_def Let_def
        resizeCanvas_def constructorFields_def)
  have "length (rockets (fireRocket (CannonGame 800 600 (\<lambda>i. 0)))) = length (rockets (CannonGame 800 600 (\<lambda>i. 0))) + 1"
    using fireRocket_fires[OF cd] by blast
  then have "rockets (fireRocket (CannonGame 800 600 (\<lambda>i. 0))) \<noteq> []" by auto
  then have h: "hd (rockets (fireRocket (CannonGame 800 600 (\<lambda>i. 0)))) \<in> set (rockets (fireRocket (CannonGame 800 600 (\<lambda>i. 0))))" by (rule hd_in_set)
  note w = normalizeAngle_closed_interval[where s = "fireRocket (CannonGame 800 600 (\<lambda>i. 0))"
      and m = "mouse (fireRocket (CannonGame 800 600 (\<lambda>i. 0)))" and d = 0 and j = 0, THEN conjunct2, THEN conjunct2,
      THEN conjunct2, THEN conjunct2, THEN conjunct2, THEN conjunct2, THEN conjunct2,
      THEN conjunct2, THEN conjunct2, THEN mp, OF r, THEN bspec, OF h]
  have i: "wrapDownIters
     (atan2 (point.y (mouse (fireRocket (CannonGame 800 600 (\<lambda>i. 0)))) - rocket.y (hd (rockets (fireRocket (CannonGame 800 600 (\<lambda>i. 0))))))
        (point.x (mouse (fireRocket (CannonGame 800 600 (\<lambda>i. 0)))) - rocket.x (hd (rockets (fireRocket (CannonGame 800 600 (\<lambda>i. 0)))))) -
      rocket.angle (hd (rockets (fireRocket (CannonGame 800 600 (\<lambda>i. 0)))))) \<le> 9"
    using w by blast
  have p1: "- pi < 3 * pi" by simp
  have p2: "- (3 * pi) \<le> - pi" by simp
  have p3: "- pi \<le> 0 \<and> 0 \<le> pi" by simp
  note l3 = normalizeAngle_closed_interval[where d = "- (3 * pi)", THEN conjunct2, THEN conjunct2, THEN conjunct2, THEN conjunct2, THEN conjunct2, THEN conjunct1,
      THEN mp, OF p2]
  note i0 = normalizeAngle_closed_interval[where d = 0, THEN conjunct2, THEN conjunct2, THEN conjunct2, THEN conjunct2, THEN conjunct2, THEN conjunct2, THEN conjunct1,
      THEN mp, OF p3]
  note j1 = normalizeAngle_closed_interval[where d = "3 * pi" and j = 1, THEN conjunct2, THEN conjunct2, THEN conjunct2, THEN conjunct2, THEN conjunct2, THEN conjunct2, THEN conjunct2, THEN conjunct2,
      THEN conjunct1, THEN mp, OF g, THEN conjunct1]
  show ?thesis using p1 c p2 d l3 p3 i0 f g j1 r h i by blast
qed



text \<open>
  C5. Every bullet in the store after a tick is a bullet of the store before it, in
  the same order, with its life lowered by 0.005 and still above zero; likewise every
  rocket, with its life lowered by 0.003. A projectile whose life after the decrement
  is zero or less is in no store after the tick.
\<close>

theorem projectile_life_decreases:
  "subseq (bullets (update s)) (filter (\<lambda>b1. bullet.life b1 > 0) (map advanceBullet (bullets s))) \<and>
   bullet.life (advanceBullet b0) = bullet.life b0 - 0.005 \<and>
   bullet.life (advanceBullet b0) < bullet.life b0 \<and>
   (bullet.life (advanceBullet b0) \<le> 0 \<longrightarrow> advanceBullet b0 \<notin> set (bullets (update s))) \<and>
   subseq (rockets (update s))
     (filter (\<lambda>r1. rocket.life r1 > 0) (map (advanceRocket (mouse s)) (rockets s))) \<and>
   rocket.life (advanceRocket m r0) = rocket.life r0 - 0.003 \<and>
   rocket.life (advanceRocket m r0) < rocket.life r0 \<and>
   (rocket.life (advanceRocket m r0) \<le> 0 \<longrightarrow> advanceRocket m r0 \<notin> set (rockets (update s)))"
proof -
  have b1: "subseq (bullets (update s)) (filter (\<lambda>b1. bullet.life b1 > 0) (map advanceBullet (bullets s)))"
    by (rule update_bullets)
  have b2: "bullet.life (advanceBullet b0) = bullet.life b0 - 0.005"
    by (simp add: advanceBullet_def Let_def)
  have b3: "bullet.life (advanceBullet b0) \<le> 0 \<longrightarrow> advanceBullet b0 \<notin> set (bullets (update s))"
  proof
    assume dead: "bullet.life (advanceBullet b0) \<le> 0"
    show "advanceBullet b0 \<notin> set (bullets (update s))"
    proof
      assume "advanceBullet b0 \<in> set (bullets (update s))"
      then have "advanceBullet b0 \<in> set (filter (\<lambda>b1. bullet.life b1 > 0) (map advanceBullet (bullets s)))"
        using b1 by (rule subseq_mem[rotated])
      then have "bullet.life (advanceBullet b0) > 0" by auto
      then show False using dead by simp
    qed
  qed
  have r1: "subseq (rockets (update s))
     (filter (\<lambda>r1. rocket.life r1 > 0) (map (advanceRocket (mouse s)) (rockets s)))"
    by (rule update_rockets)
  have r2: "rocket.life (advanceRocket m r0) = rocket.life r0 - 0.003"
    by (simp add: advanceRocket_def Let_def)
  have r3: "rocket.life (advanceRocket m r0) \<le> 0 \<longrightarrow> advanceRocket m r0 \<notin> set (rockets (update s))"
  proof
    assume dead: "rocket.life (advanceRocket m r0) \<le> 0"
    show "advanceRocket m r0 \<notin> set (rockets (update s))"
    proof
      assume "advanceRocket m r0 \<in> set (rockets (update s))"
      then have "advanceRocket m r0 \<in> set (filter (\<lambda>r1. rocket.life r1 > 0) (map (advanceRocket (mouse s)) (rockets s)))"
        using r1 by (rule subseq_mem[rotated])
      then have "rocket.life (advanceRocket m r0) > 0" by auto
      then show False using dead by simp
    qed
  qed
  show ?thesis using b1 b2 b3 r1 r2 r3 by simp
qed

theorem projectile_life_decreases_witness:
  "bullet.life (advanceBullet \<lparr>bullet.x = 0, bullet.y = 0, bullet.vx = 15, bullet.vy = 0,
      bullet.radius = 4, bullet.life = 0.005, bullet.trail = []\<rparr>) \<le> 0 \<and>
   advanceBullet \<lparr>bullet.x = 0, bullet.y = 0, bullet.vx = 15, bullet.vy = 0,
      bullet.radius = 4, bullet.life = 0.005, bullet.trail = []\<rparr>
     \<notin> set (bullets (update ((constructorFields 800 600 (\<lambda>i. 0))
          \<lparr>bullets := [\<lparr>bullet.x = 0, bullet.y = 0, bullet.vx = 15, bullet.vy = 0,
      bullet.radius = 4, bullet.life = 0.005, bullet.trail = []\<rparr>]\<rparr>))) \<and>
   rocket.life (advanceRocket \<lparr>point.x = 10, point.y = 0\<rparr>
      \<lparr>rocket.x = 0, rocket.y = 0, rocket.vx = 8, rocket.vy = 0, rocket.angle = 0,
       rocket.radius = 6, rocket.life = 0.003, rocket.trail = [], thrustParticles = 0\<rparr>) \<le> 0 \<and>
   advanceRocket \<lparr>point.x = 10, point.y = 0\<rparr>
      \<lparr>rocket.x = 0, rocket.y = 0, rocket.vx = 8, rocket.vy = 0, rocket.angle = 0,
       rocket.radius = 6, rocket.life = 0.003, rocket.trail = [], thrustParticles = 0\<rparr>
     \<notin> set (rockets (update ((constructorFields 800 600 (\<lambda>i. 0))
          \<lparr>mouse := \<lparr>point.x = 10, point.y = 0\<rparr>,
           rockets := [\<lparr>rocket.x = 0, rocket.y = 0, rocket.vx = 8, rocket.vy = 0, rocket.angle = 0,
       rocket.radius = 6, rocket.life = 0.003, rocket.trail = [], thrustParticles = 0\<rparr>]\<rparr>)))"
proof -
  have a: "bullet.life (advanceBullet \<lparr>bullet.x = 0, bullet.y = 0, bullet.vx = 15, bullet.vy = 0,
      bullet.radius = 4, bullet.life = 0.005, bullet.trail = []\<rparr>) \<le> 0"
    by (simp add: advanceBullet_def Let_def)
  have b: "rocket.life (advanceRocket \<lparr>point.x = 10, point.y = 0\<rparr>
      \<lparr>rocket.x = 0, rocket.y = 0, rocket.vx = 8, rocket.vy = 0, rocket.angle = 0,
       rocket.radius = 6, rocket.life = 0.003, rocket.trail = [], thrustParticles = 0\<rparr>) \<le> 0"
    by (simp add: advanceRocket_def Let_def)
  show ?thesis
    using a b
      projectile_life_decreases[where s =
        "(constructorFields 800 600 (\<lambda>i. 0))\<lparr>bullets := [\<lparr>bullet.x = 0, bullet.y = 0,
           bullet.vx = 15, bullet.vy = 0, bullet.radius = 4, bullet.life = 0.005,
           bullet.trail = []\<rparr>]\<rparr>"
        and ?b0.0 = "\<lparr>bullet.x = 0, bullet.y = 0, bullet.vx = 15, bullet.vy = 0,
           bullet.radius = 4, bullet.life = 0.005, bullet.trail = []\<rparr>"]
      projectile_life_decreases[where s =
        "(constructorFields 800 600 (\<lambda>i. 0))
          \<lparr>mouse := \<lparr>point.x = 10, point.y = 0\<rparr>,
           rockets := [\<lparr>rocket.x = 0, rocket.y = 0, rocket.vx = 8, rocket.vy = 0,
             rocket.angle = 0, rocket.radius = 6, rocket.life = 0.003, rocket.trail = [],
             thrustParticles = 0\<rparr>]\<rparr>"
        and m = "\<lparr>point.x = 10, point.y = 0\<rparr>"
        and ?r0.0 = "\<lparr>rocket.x = 0, rocket.y = 0, rocket.vx = 8, rocket.vy = 0,
             rocket.angle = 0, rocket.radius = 6, rocket.life = 0.003, rocket.trail = [],
             thrustParticles = 0\<rparr>"]
    by blast
qed

text \<open>
  C2. A fire command issued while its weapon's cooldown counter is above zero returns
  the state as it was: no projectile, no counter, no particle, no sound and no stats
  write changes, and nothing is kept for later. A command changes the state exactly
  when the counter is zero or less; after a shot, a second command within fewer than 8
  frames (bullets) or 30 frames (rockets) is dropped, whatever other events occur.
\<close>

theorem fire_on_cooldown_dropped:
  "(0 < bulletCooldown s \<longrightarrow> fireBullet s = s) \<and>
   (0 < rocketCooldown s \<longrightarrow> fireRocket s = s) \<and>
   (fireBullet s \<noteq> s \<longleftrightarrow> bulletCooldown s \<le> 0) \<and>
   (fireRocket s \<noteq> s \<longleftrightarrow> rocketCooldown s \<le> 0) \<and>
   (bulletCooldown s \<le> 0 \<and> ticks es < 8 \<longrightarrow>
      fireBullet (run es (fireBullet s)) = run es (fireBullet s)) \<and>
   (rocketCooldown s \<le> 0 \<and> ticks es < 30 \<longrightarrow>
      fireRocket (run es (fireRocket s)) = run es (fireRocket s))"
proof -
  have b1: "0 < bulletCooldown s \<longrightarrow> fireBullet s = s" by (simp add: fireBullet_blocked)
  have r1: "0 < rocketCooldown s \<longrightarrow> fireRocket s = s" by (simp add: fireRocket_blocked)
  have b2: "fireBullet s \<noteq> s \<longleftrightarrow> bulletCooldown s \<le> 0"
  proof (cases "0 < bulletCooldown s")
    case True then show ?thesis by (simp add: fireBullet_blocked)
  next
    case False
    then have "bulletsFired (fireBullet s) \<noteq> bulletsFired s" using fireBullet_fires[of s] by simp
    then have "fireBullet s \<noteq> s" by auto
    then show ?thesis using False by simp
  qed
  have r2: "fireRocket s \<noteq> s \<longleftrightarrow> rocketCooldown s \<le> 0"
  proof (cases "0 < rocketCooldown s")
    case True then show ?thesis by (simp add: fireRocket_blocked)
  next
    case False
    then have "rocketsFired (fireRocket s) \<noteq> rocketsFired s" using fireRocket_fires[of s] by simp
    then have "fireRocket s \<noteq> s" by auto
    then show ?thesis using False by simp
  qed
  have b3: "bulletCooldown s \<le> 0 \<and> ticks es < 8 \<longrightarrow>
      fireBullet (run es (fireBullet s)) = run es (fireBullet s)"
  proof
    assume a: "bulletCooldown s \<le> 0 \<and> ticks es < 8"
    then have "bulletCooldown (fireBullet s) = 8" using fireBullet_fires[of s] by simp
    then have "0 < bulletCooldown (run es (fireBullet s))"
      using run_bulletCooldown[of "fireBullet s" es] a by simp
    then show "fireBullet (run es (fireBullet s)) = run es (fireBullet s)" by (rule fireBullet_blocked)
  qed
  have r3: "rocketCooldown s \<le> 0 \<and> ticks es < 30 \<longrightarrow>
      fireRocket (run es (fireRocket s)) = run es (fireRocket s)"
  proof
    assume a: "rocketCooldown s \<le> 0 \<and> ticks es < 30"
    then have "rocketCooldown (fireRocket s) = 30" using fireRocket_fires[of s] by simp
    then have "0 < rocketCooldown (run es (fireRocket s))"
      using run_rocketCooldown[of "fireRocket s" es] a by simp
    then show "fireRocket (run es (fireRocket s)) = run es (fireRocket s)" by (rule fireRocket_blocked)
  qed
  show ?thesis using b1 r1 b2 r2 b3 r3 by blast
qed

theorem fire_on_cooldown_dropped_witness:
  "0 < bulletCooldown ((constructorFields 800 600 (\<lambda>i. 0))\<lparr>bulletCooldown := 3\<rparr>) \<and>
   fireBullet ((constructorFields 800 600 (\<lambda>i. 0))\<lparr>bulletCooldown := 3\<rparr>) =
     (constructorFields 800 600 (\<lambda>i. 0))\<lparr>bulletCooldown := 3\<rparr> \<and>
   0 < rocketCooldown ((constructorFields 800 600 (\<lambda>i. 0))\<lparr>rocketCooldown := 30\<rparr>) \<and>
   fireRocket ((constructorFields 800 600 (\<lambda>i. 0))\<lparr>rocketCooldown := 30\<rparr>) =
     (constructorFields 800 600 (\<lambda>i. 0))\<lparr>rocketCooldown := 30\<rparr> \<and>
   bulletCooldown (constructorFields 800 600 (\<lambda>i. 0)) \<le> 0 \<and> ticks [Tick, MouseMove 1 2, Tick] < 8 \<and>
   fireBullet (run [Tick, MouseMove 1 2, Tick] (fireBullet (constructorFields 800 600 (\<lambda>i. 0)))) =
     run [Tick, MouseMove 1 2, Tick] (fireBullet (constructorFields 800 600 (\<lambda>i. 0))) \<and>
   rocketCooldown (constructorFields 800 600 (\<lambda>i. 0)) \<le> 0 \<and> ticks [Tick, MouseMove 1 2, Tick] < 30 \<and>
   fireRocket (run [Tick, MouseMove 1 2, Tick] (fireRocket (constructorFields 800 600 (\<lambda>i. 0)))) =
     run [Tick, MouseMove 1 2, Tick] (fireRocket (constructorFields 800 600 (\<lambda>i. 0)))"
proof -
  have a: "0 < bulletCooldown ((constructorFields 800 600 (\<lambda>i. 0))\<lparr>bulletCooldown := 3\<rparr>)" by simp
  have b: "0 < rocketCooldown ((constructorFields 800 600 (\<lambda>i. 0))\<lparr>rocketCooldown := 30\<rparr>)" by simp
  have c: "bulletCooldown (constructorFields 800 600 (\<lambda>i. 0)) \<le> 0 \<and> ticks [Tick, MouseMove 1 2, Tick] < 8"
    by (simp add: constructorFields_def ticks_def)
  have d: "rocketCooldown (constructorFields 800 600 (\<lambda>i. 0)) \<le> 0 \<and> ticks [Tick, MouseMove 1 2, Tick] < 30"
    by (simp add: constructorFields_def ticks_def)
  show ?thesis
    using a b c d
      fire_on_cooldown_dropped[of "(constructorFields 800 600 (\<lambda>i. 0))\<lparr>bulletCooldown := 3\<rparr>" "[]"]
      fire_on_cooldown_dropped[of "(constructorFields 800 600 (\<lambda>i. 0))\<lparr>rocketCooldown := 30\<rparr>" "[]"]
      fire_on_cooldown_dropped[of "constructorFields 800 600 (\<lambda>i. 0)" "[Tick, MouseMove 1 2, Tick]"]
    by blast
qed

text \<open>
  C8. The collision loop of a projectile walks the enemy store from its last index
  down and breaks at the first enemy that the projectile overlaps: that enemy alone is
  spliced out (the enemies before it stay in the store, overlapping or not), and when
  no enemy overlaps the loop changes nothing. A projectile whose loop found an enemy is
  left out of the filtered store, and the projectiles after it are run against the
  enemy store without that enemy. The stores of bullets, rockets and enemies after a
  tick are the ones the two filters leave, so each enemy removed in a block costs one
  projectile of that block: one projectile removes at most one enemy in a tick. This
  holds for the bullet loop and for the rocket loop.
\<close>

theorem one_enemy_per_projectile:
  "(hitScan px py pr (enemies s) (length (enemies s)) = Some i \<longrightarrow>
      i < length (enemies s) \<and> hits px py pr (enemies s ! i) \<and>
      (\<forall>j. i < j \<and> j < length (enemies s) \<longrightarrow> \<not> hits px py pr (enemies s ! j)) \<and>
      fst (collide px py pr pts s) \<and>
      enemies (snd (collide px py pr pts s)) = take i (enemies s) @ drop (Suc i) (enemies s)) \<and>
   (hitScan px py pr (enemies s) (length (enemies s)) = None \<longrightarrow>
      collide px py pr pts s = (False, s)) \<and>
   length (enemies s) \<le> length (enemies (snd (collide px py pr pts s))) + 1 \<and>
   (let b1 = advanceBullet b0;
        c = collide (bullet.x b1) (bullet.y b1) (bullet.radius b1) 10 s
    in snd (snd (bulletStep b0 s)) = snd c \<and> (fst c \<longrightarrow> \<not> fst (bulletStep b0 s))) \<and>
   (let r1 = advanceRocket (mouse s) r0;
        c = collide (rocket.x r1) (rocket.y r1) (rocket.radius r1) 25 (afterThrust r0 s)
    in snd (snd (rocketStep r0 s)) = snd c \<and> (fst c \<longrightarrow> \<not> fst (rocketStep r0 s)) \<and>
       enemies (afterThrust r0 s) = enemies s) \<and>
   (let b1 = advanceBullet b0;
        c = collide (bullet.x b1) (bullet.y b1) (bullet.radius b1) 10 s
    in fst c \<longrightarrow> filterBullets (b0 # bs) s = filterBullets bs (snd c)) \<and>
   (let r1 = advanceRocket (mouse s) r0;
        c = collide (rocket.x r1) (rocket.y r1) (rocket.radius r1) 25 (afterThrust r0 s)
    in fst c \<longrightarrow> filterRockets (r0 # rs) s = filterRockets rs (snd c)) \<and>
   bullets (update s) = fst (filterBullets (bullets s) (beforeBullets s)) \<and>
   rockets (update s) = fst (filterRockets (rockets s) (beforeRockets s)) \<and>
   enemies (beforeRockets s) = enemies (snd (filterBullets (bullets s) (beforeBullets s))) \<and>
   enemies (update s) = enemies (snd (filterRockets (rockets s) (beforeRockets s))) \<and>
   length (bullets (update s)) + bulletKills s \<le> length (bullets s) \<and>
   length (rockets (update s)) + rocketKills s \<le> length (rockets s)"
proof -
  have a: "hitScan px py pr (enemies s) (length (enemies s)) = Some i \<longrightarrow>
      i < length (enemies s) \<and> hits px py pr (enemies s ! i) \<and>
      (\<forall>j. i < j \<and> j < length (enemies s) \<longrightarrow> \<not> hits px py pr (enemies s ! j)) \<and>
      fst (collide px py pr pts s) \<and>
      enemies (snd (collide px py pr pts s)) = take i (enemies s) @ drop (Suc i) (enemies s)"
  proof
    assume h: "hitScan px py pr (enemies s) (length (enemies s)) = Some i"
    then have i: "i < length (enemies s)" by (rule hitScan_bound)
    have sc: "hits px py pr (enemies s ! i) \<and>
      (\<forall>j. i < j \<and> j < length (enemies s) \<longrightarrow> \<not> hits px py pr (enemies s ! j))"
      using h by (simp add: hitScan_Some)
    have "enemies (onHit pts i s) = take i (enemies s) @ drop (Suc i) (enemies s)"
      using onHit_board[OF i, of pts] by blast
    then show "i < length (enemies s) \<and> hits px py pr (enemies s ! i) \<and>
      (\<forall>j. i < j \<and> j < length (enemies s) \<longrightarrow> \<not> hits px py pr (enemies s ! j)) \<and>
      fst (collide px py pr pts s) \<and>
      enemies (snd (collide px py pr pts s)) = take i (enemies s) @ drop (Suc i) (enemies s)"
      using i sc h by (simp add: collide_Some)
  qed
  have b: "hitScan px py pr (enemies s) (length (enemies s)) = None \<longrightarrow>
      collide px py pr pts s = (False, s)"
    by (simp add: collide_None)
  have c: "length (enemies s) \<le> length (enemies (snd (collide px py pr pts s))) + 1"
  proof (cases "hitScan px py pr (enemies s) (length (enemies s))")
    case None then show ?thesis by (simp add: collide_None)
  next
    case (Some k)
    then have k: "k < length (enemies s)" by (rule hitScan_bound)
    have "length (enemies (onHit pts k s)) + 1 = length (enemies s)"
      using onHit_board[OF k, of pts] by blast
    then show ?thesis using Some by (simp add: collide_Some)
  qed
  have d: "let b1 = advanceBullet b0;
        c = collide (bullet.x b1) (bullet.y b1) (bullet.radius b1) 10 s
    in snd (snd (bulletStep b0 s)) = snd c \<and> (fst c \<longrightarrow> \<not> fst (bulletStep b0 s))"
    using bulletStep_state[of b0 s] bulletStep_crash[of b0 s] by (simp add: Let_def)
  have e: "let r1 = advanceRocket (mouse s) r0;
        c = collide (rocket.x r1) (rocket.y r1) (rocket.radius r1) 25 (afterThrust r0 s)
    in snd (snd (rocketStep r0 s)) = snd c \<and> (fst c \<longrightarrow> \<not> fst (rocketStep r0 s)) \<and>
       enemies (afterThrust r0 s) = enemies s"
    using rocketStep_state[of r0 s] rocketStep_crash[of s r0] afterThrust_board[of r0 s]
    by (simp add: Let_def sameBoard_def)
  have f: "let b1 = advanceBullet b0;
        c = collide (bullet.x b1) (bullet.y b1) (bullet.radius b1) 10 s
    in fst c \<longrightarrow> filterBullets (b0 # bs) s = filterBullets bs (snd c)"
    using bulletStep_state[of b0 s] bulletStep_crash[of b0 s]
    by (simp add: Let_def filterBullets_Cons del: filterBullets.simps)
  have g: "let r1 = advanceRocket (mouse s) r0;
        c = collide (rocket.x r1) (rocket.y r1) (rocket.radius r1) 25 (afterThrust r0 s)
    in fst c \<longrightarrow> filterRockets (r0 # rs) s = filterRockets rs (snd c)"
    using rocketStep_state[of r0 s] rocketStep_crash[of s r0]
    by (simp add: Let_def filterRockets_Cons del: filterRockets.simps)
  have h: "bullets (update s) = fst (filterBullets (bullets s) (beforeBullets s)) \<and>
   rockets (update s) = fst (filterRockets (rockets s) (beforeRockets s))"
    using update_bullets_eq[of s] update_rockets_eq[of s] by (rule conjI)
  have en: "enemies (beforeRockets s) = enemies (snd (filterBullets (bullets s) (beforeBullets s))) \<and>
   enemies (update s) = enemies (snd (filterRockets (rockets s) (beforeRockets s)))"
    using beforeRockets_enemies[of s] beforeParticles_enemies[of s]
    by (simp add: update_phases particlesPhase_def)
  have sp: "length (bullets (update s)) + bulletKills s \<le> length (bullets s) \<and>
   length (rockets (update s)) + rocketKills s \<le> length (rockets s)"
    by (rule update_projectiles_spent)
  show ?thesis using a b c d e f g h en sp by blast
qed

theorem one_enemy_per_projectile_witness:
  "hitScan 0 0 4
     [\<lparr>enemy.x = 0, enemy.y = 0, enemy.vy = 1, enemy.radius = 20, rotation = 0,
        rotationSpeed = 0, enemy.color = 0\<rparr>,
      \<lparr>enemy.x = 1, enemy.y = 0, enemy.vy = 1, enemy.radius = 30, rotation = 0,
        rotationSpeed = 0, enemy.color = 0\<rparr>] 2 = Some 1 \<and>
   enemies (snd (collide 0 0 4 10 ((constructorFields 800 600 (\<lambda>i. 0))
     \<lparr>enemies :=
       [\<lparr>enemy.x = 0, enemy.y = 0, enemy.vy = 1, enemy.radius = 20, rotation = 0,
        rotationSpeed = 0, enemy.color = 0\<rparr>,
        \<lparr>enemy.x = 1, enemy.y = 0, enemy.vy = 1, enemy.radius = 30, rotation = 0,
        rotationSpeed = 0, enemy.color = 0\<rparr>]\<rparr>))) =
     [\<lparr>enemy.x = 0, enemy.y = 0, enemy.vy = 1, enemy.radius = 20, rotation = 0,
        rotationSpeed = 0, enemy.color = 0\<rparr>] \<and>
   hitScan 100 0 4
     [\<lparr>enemy.x = 0, enemy.y = 0, enemy.vy = 1, enemy.radius = 20, rotation = 0,
        rotationSpeed = 0, enemy.color = 0\<rparr>,
      \<lparr>enemy.x = 1, enemy.y = 0, enemy.vy = 1, enemy.radius = 30, rotation = 0,
        rotationSpeed = 0, enemy.color = 0\<rparr>] 2 = None \<and>
   collide 100 0 4 10 ((constructorFields 800 600 (\<lambda>i. 0))
     \<lparr>enemies :=
       [\<lparr>enemy.x = 0, enemy.y = 0, enemy.vy = 1, enemy.radius = 20, rotation = 0,
        rotationSpeed = 0, enemy.color = 0\<rparr>,
        \<lparr>enemy.x = 1, enemy.y = 0, enemy.vy = 1, enemy.radius = 30, rotation = 0,
        rotationSpeed = 0, enemy.color = 0\<rparr>]\<rparr>) = (False, ((constructorFields 800 600 (\<lambda>i. 0))
     \<lparr>enemies :=
       [\<lparr>enemy.x = 0, enemy.y = 0, enemy.vy = 1, enemy.radius = 20, rotation = 0,
        rotationSpeed = 0, enemy.color = 0\<rparr>,
        \<lparr>enemy.x = 1, enemy.y = 0, enemy.vy = 1, enemy.radius = 30, rotation = 0,
        rotationSpeed = 0, enemy.color = 0\<rparr>]\<rparr>)) \<and>
   fst (collide 100 100 4 10 ((constructorFields 800 600 (\<lambda>i. 0))
     \<lparr>enemies :=
       [\<lparr>enemy.x = 100, enemy.y = 100, enemy.vy = 1, enemy.radius = 20, rotation = 0,
        rotationSpeed = 0, enemy.color = 0\<rparr>]\<rparr>)) \<and>
   fst (filterBullets
     [\<lparr>bullet.x = 85, bullet.y = 100, bullet.vx = 15, bullet.vy = 0, bullet.radius = 4,
        bullet.life = 1, bullet.trail = []\<rparr>]
     ((constructorFields 800 600 (\<lambda>i. 0))
     \<lparr>enemies :=
       [\<lparr>enemy.x = 100, enemy.y = 100, enemy.vy = 1, enemy.radius = 20, rotation = 0,
        rotationSpeed = 0, enemy.color = 0\<rparr>]\<rparr>)) = []"
proof -
  let ?s = "((constructorFields 800 600 (\<lambda>i. 0))
     \<lparr>enemies :=
       [\<lparr>enemy.x = 0, enemy.y = 0, enemy.vy = 1, enemy.radius = 20, rotation = 0,
        rotationSpeed = 0, enemy.color = 0\<rparr>,
        \<lparr>enemy.x = 1, enemy.y = 0, enemy.vy = 1, enemy.radius = 30, rotation = 0,
        rotationSpeed = 0, enemy.color = 0\<rparr>]\<rparr>)"
  have n: "(2::nat) = Suc (Suc 0)" by simp
  have h: "hitScan 0 0 4 (enemies ?s) (length (enemies ?s)) = Some 1"
    by (simp add: hits_def)
  have k: "hitScan 100 0 4 (enemies ?s) (length (enemies ?s)) = None"
    by (simp add: hits_def)
  note a = one_enemy_per_projectile[where px = 0 and py = 0 and pr = 4 and i = 1 and pts = 10
      and s = ?s, THEN conjunct1, THEN mp, OF h]
  note b = one_enemy_per_projectile[where px = 100 and py = 0 and pr = 4 and pts = 10
      and s = ?s, THEN conjunct2, THEN conjunct1, THEN mp, OF k]
  have c: "enemies (snd (collide 0 0 4 10 ?s)) =
     [\<lparr>enemy.x = 0, enemy.y = 0, enemy.vy = 1, enemy.radius = 20, rotation = 0,
        rotationSpeed = 0, enemy.color = 0\<rparr>]"
    using a by simp
  have h2: "hitScan 0 0 4
     [\<lparr>enemy.x = 0, enemy.y = 0, enemy.vy = 1, enemy.radius = 20, rotation = 0,
        rotationSpeed = 0, enemy.color = 0\<rparr>,
      \<lparr>enemy.x = 1, enemy.y = 0, enemy.vy = 1, enemy.radius = 30, rotation = 0,
        rotationSpeed = 0, enemy.color = 0\<rparr>] 2 = Some 1"
    unfolding n by (simp add: hits_def)
  have k2: "hitScan 100 0 4
     [\<lparr>enemy.x = 0, enemy.y = 0, enemy.vy = 1, enemy.radius = 20, rotation = 0,
        rotationSpeed = 0, enemy.color = 0\<rparr>,
      \<lparr>enemy.x = 1, enemy.y = 0, enemy.vy = 1, enemy.radius = 30, rotation = 0,
        rotationSpeed = 0, enemy.color = 0\<rparr>] 2 = None"
    unfolding n by (simp add: hits_def)
  let ?t = "((constructorFields 800 600 (\<lambda>i. 0))
     \<lparr>enemies :=
       [\<lparr>enemy.x = 100, enemy.y = 100, enemy.vy = 1, enemy.radius = 20, rotation = 0,
        rotationSpeed = 0, enemy.color = 0\<rparr>]\<rparr>)"
  let ?b = "\<lparr>bullet.x = 85, bullet.y = 100, bullet.vx = 15, bullet.vy = 0, bullet.radius = 4,
        bullet.life = 1, bullet.trail = []\<rparr>"
  have cr: "fst (collide 100 100 4 10 ?t)"
    by (simp add: collide_def hits_def)
  note f = one_enemy_per_projectile[where s = ?t and ?b0.0 = ?b and bs = "[]", THEN conjunct2, THEN conjunct2, THEN conjunct2, THEN conjunct2, THEN conjunct2,
      THEN conjunct1]
  have "filterBullets [?b] ?t = filterBullets [] (snd (collide 100 100 4 10 ?t))"
    using f cr by (simp add: Let_def advanceBullet_def del: filterBullets.simps)
  then have gone: "fst (filterBullets [?b] ?t) = []" by simp
  show ?thesis using h2 c k2 b cr gone by blast
qed



text \<open>
  C7. No event raises the spawn interval; it changes only in a tick that spawns an
  enemy, and then by exactly 0.5; in every state a session can reach it lies between 20
  and 60. After a frame that spawns an enemy, none of the next 20 frames spawns one,
  whatever other events come between.
\<close>

theorem spawn_interval_floor:
  "enemySpawnRate (step e s) \<le> enemySpawnRate s \<and>
   (enemySpawnRate (step e s) \<noteq> enemySpawnRate s \<longrightarrow>
      e = Tick \<and> spawnsEnemy s \<and> enemySpawnRate (step e s) = enemySpawnRate s - 0.5) \<and>
   length (enemies (spawnPhase s)) = length (enemies s) + (if spawnsEnemy s then 1 else 0) \<and>
   (reachable s \<longrightarrow> 20 \<le> enemySpawnRate s \<and> enemySpawnRate s \<le> 60) \<and>
   (reachable s \<and> spawnsEnemy s \<and> ticks es < 20 \<longrightarrow> \<not> spawnsEnemy (run es (step Tick s)))"
proof -
  have a: "enemySpawnRate (step e s) \<le> enemySpawnRate s" by (simp add: step_spawnRate)
  have b: "enemySpawnRate (step e s) \<noteq> enemySpawnRate s \<longrightarrow>
      e = Tick \<and> spawnsEnemy s \<and> enemySpawnRate (step e s) = enemySpawnRate s - 0.5"
    by (simp add: step_spawnRate)
  have c: "length (enemies (spawnPhase s)) = length (enemies s) + (if spawnsEnemy s then 1 else 0)"
    by (rule spawnPhase_enemies)
  have d: "reachable s \<longrightarrow> 20 \<le> enemySpawnRate s \<and> enemySpawnRate s \<le> 60"
  proof
    assume "reachable s"
    then obtain k :: nat where "k \<le> 80" "enemySpawnRate s = 20 + real k / 2"
      using reachable_rate by blast
    then show "20 \<le> enemySpawnRate s \<and> enemySpawnRate s \<le> 60" by simp
  qed
  have e: "reachable s \<and> spawnsEnemy s \<and> ticks es < 20 \<longrightarrow> \<not> spawnsEnemy (run es (step Tick s))"
  proof
    assume h: "reachable s \<and> spawnsEnemy s \<and> ticks es < 20"
    have t0: "enemySpawnTimer (step Tick s) = 0" using h by (subst step_spawnTimer) simp
    have "reachable (step Tick s)" using h reachable.after by blast
    then have "reachable (run es (step Tick s))" by (rule reachable_run)
    then obtain k :: nat where "enemySpawnRate (run es (step Tick s)) = 20 + real k / 2"
      using reachable_rate by blast
    then have r: "20 \<le> enemySpawnRate (run es (step Tick s))" by simp
    have "enemySpawnTimer (run es (step Tick s)) \<le> int (ticks es)"
      using run_spawnTimer[of es "step Tick s"] t0 by simp
    then have "enemySpawnTimer (run es (step Tick s)) + 1 \<le> 20" using h by simp
    then have "real_of_int (enemySpawnTimer (run es (step Tick s)) + 1) \<le> 20" by linarith
    then show "\<not> spawnsEnemy (run es (step Tick s))" using r by (simp add: spawnsEnemy_def)
  qed
  show ?thesis using a b c d e by blast
qed

theorem spawn_interval_floor_witness:
  "reachable (run (replicate 59 Tick) (CannonGame 800 600 (\<lambda>i. 0))) \<and>
   spawnsEnemy (run (replicate 59 Tick) (CannonGame 800 600 (\<lambda>i. 0))) \<and>
   ticks [Tick, MouseDown 0, Tick] < 20 \<and>
   \<not> spawnsEnemy (run [Tick, MouseDown 0, Tick]
        (step Tick (run (replicate 59 Tick) (CannonGame 800 600 (\<lambda>i. 0))))) \<and>
   20 \<le> enemySpawnRate (run (replicate 59 Tick) (CannonGame 800 600 (\<lambda>i. 0))) \<and>
   enemySpawnRate (step Tick (run (replicate 59 Tick) (CannonGame 800 600 (\<lambda>i. 0)))) \<noteq>
     enemySpawnRate (run (replicate 59 Tick) (CannonGame 800 600 (\<lambda>i. 0))) \<and>
   enemySpawnRate (step Tick (run (replicate 59 Tick) (CannonGame 800 600 (\<lambda>i. 0)))) =
     enemySpawnRate (run (replicate 59 Tick) (CannonGame 800 600 (\<lambda>i. 0))) - 0.5"
proof -
  have r0: "reachable (CannonGame 800 600 (\<lambda>i. 0))" by (rule reachable.init) simp
  then have r: "reachable (run (replicate 59 Tick) (CannonGame 800 600 (\<lambda>i. 0)))"
    by (rule reachable_run)
  have "real_of_int (enemySpawnTimer (CannonGame 800 600 (\<lambda>i. 0))) + real 59
        \<le> enemySpawnRate (CannonGame 800 600 (\<lambda>i. 0))"
    by (simp add: CannonGame_spawn)
  then have v: "enemySpawnTimer (run (replicate 59 Tick) (CannonGame 800 600 (\<lambda>i. 0))) =
      enemySpawnTimer (CannonGame 800 600 (\<lambda>i. 0)) + int 59 \<and>
    enemySpawnRate (run (replicate 59 Tick) (CannonGame 800 600 (\<lambda>i. 0))) =
      enemySpawnRate (CannonGame 800 600 (\<lambda>i. 0))"
    by (rule idle_ticks)
  then have sp: "spawnsEnemy (run (replicate 59 Tick) (CannonGame 800 600 (\<lambda>i. 0)))"
    by (simp add: spawnsEnemy_def CannonGame_spawn)
  have t: "ticks [Tick, MouseDown 0, Tick] < 20" by (simp add: ticks_def)
  have "20 < enemySpawnRate (run (replicate 59 Tick) (CannonGame 800 600 (\<lambda>i. 0)))"
    using v by (simp add: CannonGame_spawn)
  then have ch: "enemySpawnRate (step Tick (run (replicate 59 Tick) (CannonGame 800 600 (\<lambda>i. 0)))) \<noteq>
     enemySpawnRate (run (replicate 59 Tick) (CannonGame 800 600 (\<lambda>i. 0)))"
    using sp by (subst step_spawnRate) simp
  show ?thesis
    using r sp t ch
      spawn_interval_floor[of Tick "run (replicate 59 Tick) (CannonGame 800 600 (\<lambda>i. 0))"
        "[Tick, MouseDown 0, Tick]"]
    by blast
qed

text \<open>
  C10. A muzzle-flash particle is created with life 1 and a decay in \<open>[0.02, 0.04)\<close>,
  an explosion particle with life 1 and a decay in \<open>[0.03, 0.06)\<close>, a thrust particle
  with life 1 and decay 0.05 (the random numbers lying in \<open>[0, 1)\<close>). The particle block of a tick lowers the life of each
  particle by its decay and keeps those with life above zero. So in every state a
  session can reach each stored particle has a decay of at least 0.02 and a life of at
  most 1, and so has each particle held when the particle block of a tick starts; the
  particles of a state are all gone after 50 ticks (whatever else happens, the store
  then holds what it would hold had it been empty), and the particles left by a tick,
  those created in that tick included, after 49 more.
\<close>

theorem particles_expire:
  "(randomOk s \<longrightarrow>
      fresh 0.02 0.04 (createMuzzleFlash px py ang isRocket s) s \<and>
      fresh 0.03 0.06 (createExplosion px py s) s) \<and>
   (\<exists>p. particles (thrustParticle r1 s) = particles s @ [p] \<and>
        particle.life p = 1 \<and> decay p = 0.05) \<and>
   particle.life (advanceParticle p0) = particle.life p0 - decay p0 \<and>
   decay (advanceParticle p0) = decay p0 \<and>
   particles (update s) = ageParticles (particles (beforeParticles s)) \<and>
   (reachable s \<longrightarrow>
      (\<forall>p \<in> set (particles s). 0.02 \<le> decay p \<and> particle.life p \<le> 1) \<and>
      fresh 0.02 0.06 (beforeParticles s) s) \<and>
   particles (run es s) =
     (ageParticles ^^ ticks es) (particles s) @ particles (run es (s\<lparr>particles := []\<rparr>)) \<and>
   (reachable s \<and> 50 \<le> ticks es \<longrightarrow>
      (ageParticles ^^ ticks es) (particles s) = [] \<and>
      particles (run es s) = particles (run es (s\<lparr>particles := []\<rparr>))) \<and>
   (reachable s \<and> 49 \<le> ticks es \<longrightarrow>
      (ageParticles ^^ ticks es) (particles (update s)) = [])"
proof -
  have a: "randomOk s \<longrightarrow>
      fresh 0.02 0.04 (createMuzzleFlash px py ang isRocket s) s \<and>
      fresh 0.03 0.06 (createExplosion px py s) s"
    using createMuzzleFlash_grows[of s px py ang isRocket] createExplosion_grows[of s px py]
    by (blast intro: grows_fresh)
  have b: "\<exists>p. particles (thrustParticle r1 s) = particles s @ [p] \<and>
        particle.life p = 1 \<and> decay p = 0.05"
    using thrustParticle_exact[of r1 s] by blast
  have c: "particle.life (advanceParticle p0) = particle.life p0 - decay p0 \<and>
      decay (advanceParticle p0) = decay p0"
    by (rule advanceParticle_life)
  have d: "particles (update s) = ageParticles (particles (beforeParticles s))"
    by (rule update_particles)
  have e: "reachable s \<longrightarrow>
      (\<forall>p \<in> set (particles s). 0.02 \<le> decay p \<and> particle.life p \<le> 1) \<and>
      fresh 0.02 0.06 (beforeParticles s) s"
  proof
    assume "reachable s"
    then have ok: "particlesOk s" by (rule reachable_ok)
    then have "randomOk s" by (simp add: particlesOk_def)
    then have "grows 0.02 0.06 (beforeParticles s) s" by (rule beforeParticles_grows)
    then have "fresh 0.02 0.06 (beforeParticles s) s" by (rule grows_fresh)
    moreover have "\<forall>p \<in> set (particles s). 0.02 \<le> decay p \<and> particle.life p \<le> 1"
      using ok by (simp add: particlesOk_def okParticle_def)
    ultimately show "(\<forall>p \<in> set (particles s). 0.02 \<le> decay p \<and> particle.life p \<le> 1) \<and>
      fresh 0.02 0.06 (beforeParticles s) s" by blast
  qed
  have f: "particles (run es s) =
     (ageParticles ^^ ticks es) (particles s) @ particles (run es (s\<lparr>particles := []\<rparr>))"
    by (rule run_particles)
  have g: "reachable s \<and> 50 \<le> ticks es \<longrightarrow>
      (ageParticles ^^ ticks es) (particles s) = [] \<and>
      particles (run es s) = particles (run es (s\<lparr>particles := []\<rparr>))"
  proof
    assume h: "reachable s \<and> 50 \<le> ticks es"
    then have "particlesOk s" using reachable_ok by blast
    then have "\<forall>p \<in> set (particles s). okParticle p" by (simp add: particlesOk_def)
    then have z: "(ageParticles ^^ ticks es) (particles s) = []" using h by (simp add: aged_out)
    then have "particles (run es s) = particles (run es (s\<lparr>particles := []\<rparr>))"
      using f by simp
    then show "(ageParticles ^^ ticks es) (particles s) = [] \<and>
      particles (run es s) = particles (run es (s\<lparr>particles := []\<rparr>))" using z by blast
  qed
  have i: "reachable s \<and> 49 \<le> ticks es \<longrightarrow>
      (ageParticles ^^ ticks es) (particles (update s)) = []"
  proof
    assume h: "reachable s \<and> 49 \<le> ticks es"
    then have "particlesOk s" using reachable_ok by blast
    then have "particlesOk (beforeParticles s)" by (rule beforeParticles_ok)
    then have ok: "\<forall>p \<in> set (particles (beforeParticles s)). okParticle p"
      by (simp add: particlesOk_def)
    have "(ageParticles ^^ ticks es) (particles (update s)) =
        (ageParticles ^^ Suc (ticks es)) (particles (beforeParticles s))"
      by (simp only: update_particles funpow_Suc_right o_apply)
    moreover have "50 \<le> Suc (ticks es)" using h by simp
    ultimately show "(ageParticles ^^ ticks es) (particles (update s)) = []"
      using ok by (simp only: aged_out)
  qed
  show ?thesis using a b c d e f g i by blast
qed

theorem particles_expire_witness:
  "reachable (fireBullet (CannonGame 800 600 (\<lambda>i. 0))) \<and>
   randomOk (fireBullet (CannonGame 800 600 (\<lambda>i. 0))) \<and>
   fresh 0.02 0.04 (createMuzzleFlash 1 2 0 False (fireBullet (CannonGame 800 600 (\<lambda>i. 0))))
     (fireBullet (CannonGame 800 600 (\<lambda>i. 0))) \<and>
   50 \<le> ticks (replicate 50 Tick) \<and>
   10 \<le> length (particles (fireBullet (CannonGame 800 600 (\<lambda>i. 0)))) \<and>
   (ageParticles ^^ 50) (particles (fireBullet (CannonGame 800 600 (\<lambda>i. 0)))) = [] \<and>
   particles (run (replicate 50 Tick) (fireBullet (CannonGame 800 600 (\<lambda>i. 0)))) =
     particles (run (replicate 50 Tick) ((fireBullet (CannonGame 800 600 (\<lambda>i. 0)))\<lparr>particles := []\<rparr>)) \<and>
   (ageParticles ^^ 50) (particles (update (fireBullet (CannonGame 800 600 (\<lambda>i. 0))))) = []"
proof -
  have r0: "reachable (CannonGame 800 600 (\<lambda>i. 0))" by (rule reachable.init) simp
  then have "reachable (step (MouseDown 0) (CannonGame 800 600 (\<lambda>i. 0)))" by (rule reachable.after)
  then have r: "reachable (fireBullet (CannonGame 800 600 (\<lambda>i. 0)))" by (simp add: handleClick_def)
  then have ro: "randomOk (fireBullet (CannonGame 800 600 (\<lambda>i. 0)))"
    using reachable_ok by (simp add: particlesOk_def)
  have t: "ticks (replicate 50 Tick) = 50" by (simp add: ticks_def)
  have c: "\<not> 0 < bulletCooldown (CannonGame 800 600 (\<lambda>i. 0))"
    by (simp add: CannonGame_def animate_update update_keeps cooldownPhase_def Let_def
        resizeCanvas_def constructorFields_def)
  have "randomOk (CannonGame 800 600 (\<lambda>i. 0))" using r0 reachable_ok by (simp add: particlesOk_def)
  then have l: "10 \<le> length (particles (fireBullet (CannonGame 800 600 (\<lambda>i. 0))))"
    using fireBullet_grows[of "CannonGame 800 600 (\<lambda>i. 0)"] c by simp
  have t50: "50 \<le> ticks (replicate 50 Tick)" and t49: "49 \<le> ticks (replicate 50 Tick)"
    by (simp_all add: t)
  note p = particles_expire[where s = "fireBullet (CannonGame 800 600 (\<lambda>i. 0))"
        and es = "replicate 50 Tick" and px = 1 and py = 2 and ang = 0 and isRocket = False,
        unfolded t]
  show ?thesis using r ro l t50 t49[unfolded t] t50[unfolded t] p by blast
qed

end
